(* ===== verification/Prelude.thy ===== *)
theory Prelude
  imports Main "HOL-Library.Word" "HOL-Library.Signed_Division"
begin

unbundle bit_operations_syntax

text \<open>
  The shared base of the development: the machine integer types of the C++ code, the
  collections that carry the component proofs, generic facts on 64-bit words and on
  little-endian byte strings, and two interfaces stated as locales. The locale
  \<open>step_system\<close> is the contract "every step keeps this predicate", from which a run of any
  length keeps it; the locale \<open>byte_store\<close> is the contract of a memory of single bytes,
  over which multi-byte stores and loads are reasoned about once.
\<close>

subsection \<open>Machine integers\<close>

type_synonym u8 = "8 word"
type_synonym u16 = "16 word"
type_synonym u32 = "32 word"
type_synonym u64 = "64 word"

named_theorems insn_defs \<open>unfolding of the instruction handlers\<close>
named_theorems state_simps \<open>reading back a component of an updated machine\<close>
named_theorems keeps \<open>operations that keep a component of the machine\<close>

subsection \<open>Equality of words bit by bit\<close>

lemma word64_eqI: "(\<And>n. n < 64 \<Longrightarrow> bit a n = bit b n) \<Longrightarrow> a = b" for a b :: u64
  by (rule bit_word_eqI) simp

lemma word32_eqI: "(\<And>n. n < 32 \<Longrightarrow> bit a n = bit b n) \<Longrightarrow> a = b" for a b :: u32
  by (rule bit_word_eqI) simp

lemma bit_u64_lt: "bit a n \<Longrightarrow> n < 64" for a :: u64
  using bit_imp_le_length [of a n] by simp

lemma bit_u32_lt: "bit a n \<Longrightarrow> n < 32" for a :: u32
  using bit_imp_le_length [of a n] by simp

lemma bit_u8_lt: "bit a n \<Longrightarrow> n < 8" for a :: u8
  using bit_imp_le_length [of a n] by simp

lemma unat_u64_lt: "unat x < 2 ^ 64" for x :: u64
  using unsigned_less [of x] by simp

lemma push_bit_signed_drop_bit_0 [simp]:
  "signed_drop_bit 0 w = w" "push_bit 0 w = w" for w :: u64
  by (rule bit_word_eqI; simp add: bit_simps)+

lemma shift_xlen_0 [simp]: "push_bit (64 - 64) w = w" "signed_drop_bit (64 - 64) w = w" for w :: u64
  by simp_all

subsection \<open>Little-endian byte strings\<close>

fun le_join :: "u8 list \<Rightarrow> u64" where
  "le_join [] = 0"
| "le_join (b # bs) = ucast b OR push_bit 8 (le_join bs)"

fun le_split :: "nat \<Rightarrow> u64 \<Rightarrow> u8 list" where
  "le_split 0 w = []"
| "le_split (Suc n) w = ucast w # le_split n (drop_bit 8 w)"

lemma length_le_split [simp]: "length (le_split n w) = n"
  by (induction n arbitrary: w) auto

lemma le_split_nth: "i < n \<Longrightarrow> le_split n w ! i = ucast (drop_bit (8 * i) w)"
proof (induction n arbitrary: w i)
  case (Suc n)
  then show ?case by (cases i) (auto simp: algebra_simps)
qed simp

lemma le_join_le_split: "le_join (le_split n w) = take_bit (8 * n) w"
proof (induction n arbitrary: w)
  case (Suc n)
  show ?case
    by (rule bit_word_eqI) (auto simp: Suc.IH bit_simps dest: bit_u8_lt)
qed simp

lemma le_split_le_join: "length bs \<le> 8 \<Longrightarrow> le_split (length bs) (le_join bs) = bs"
proof (induction bs)
  case (Cons b bs)
  have *: "(ucast (ucast b OR push_bit 8 (le_join bs)) :: u8) = b"
    by (rule bit_word_eqI) (simp add: bit_simps)
  have "bit (le_join bs) n \<Longrightarrow> n < 8 * length bs" for n
  proof (induction bs arbitrary: n)
    case (Cons c cs)
    then show ?case by (auto simp: bit_simps dest: bit_u8_lt) fastforce
  qed simp
  then have "drop_bit 8 (ucast b OR push_bit 8 (le_join bs)) = le_join bs"
    using Cons.prems
    by (intro bit_word_eqI) (fastforce simp: bit_simps dest: bit_u8_lt)
  with * Cons show ?case by simp
qed simp

subsection \<open>Runs of a machine whose step may stop\<close>

text \<open>
  A step returns \<open>Inl\<close> of the reason why the machine stops or \<open>Inr\<close> of its next
  state. \<open>iterate\<close> takes a given number of steps and stops at the first stop.
\<close>

fun iterate :: "('s \<Rightarrow> 'e + 's) \<Rightarrow> nat \<Rightarrow> 's \<Rightarrow> 'e + 's" where
  "iterate f 0 s = Inr s"
| "iterate f (Suc n) s = (case f s of Inl e \<Rightarrow> Inl e | Inr s' \<Rightarrow> iterate f n s')"

inductive reaches :: "('s \<Rightarrow> 'e + 's) \<Rightarrow> 's \<Rightarrow> 's \<Rightarrow> bool" for f where
  reaches_refl: "reaches f s s"
| reaches_step: "reaches f s t \<Longrightarrow> f t = Inr u \<Longrightarrow> reaches f s u"

inductive_cases reaches_stepE: "reaches f s u"

lemma iterate_add:
  "iterate f (m + n) s = (case iterate f m s of Inl e \<Rightarrow> Inl e | Inr t \<Rightarrow> iterate f n t)"
  by (induction m arbitrary: s) (auto split: sum.splits)

lemma iterate_snoc:
  "iterate f (Suc n) s = (case iterate f n s of Inl e \<Rightarrow> Inl e | Inr t \<Rightarrow> f t)"
proof (induction n arbitrary: s)
  case (Suc n)
  show ?case
  proof (cases "f s")
    case (Inr t)
    then have "iterate f (Suc (Suc n)) s = iterate f (Suc n) t" by simp
    also note Suc.IH
    finally show ?thesis using Inr by simp
  qed simp
qed (simp split: sum.splits)

lemma iterate_reaches: "iterate f n s = Inr t \<Longrightarrow> reaches f s t"
proof (induction n arbitrary: t)
  case (Suc n)
  then obtain u where "iterate f n s = Inr u" "f u = Inr t"
    unfolding iterate_snoc by (auto split: sum.splits)
  then show ?case by (auto intro: reaches_step Suc.IH)
qed (auto intro: reaches_refl)

lemma reaches_iterate: "reaches f s t \<Longrightarrow> \<exists>n. iterate f n s = Inr t"
proof (induction rule: reaches.induct)
  case (reaches_refl s)
  show ?case by (rule exI [of _ 0]) simp
next
  case (reaches_step s t u)
  then obtain n where "iterate f n s = Inr t" by blast
  then have "iterate f (Suc n) s = Inr u"
    unfolding iterate_snoc using reaches_step by simp
  then show ?case by blast
qed

locale step_system =
  fixes step :: "'s \<Rightarrow> 'e + 's"
    and inv :: "'s \<Rightarrow> bool"
  assumes inv_step: "inv s \<Longrightarrow> step s = Inr s' \<Longrightarrow> inv s'"
begin

lemma inv_reaches: "reaches step s t \<Longrightarrow> inv s \<Longrightarrow> inv t"
proof (induction rule: reaches.induct)
  case (reaches_step s t u)
  then show ?case using inv_step [of t u] by simp
qed

lemma inv_iterate: "iterate step n s = Inr t \<Longrightarrow> inv s \<Longrightarrow> inv t"
  by (rule inv_reaches [OF iterate_reaches])

end

locale step_stop = step_system +
  fixes post :: "'e \<Rightarrow> bool"
  assumes stop_post: "inv s \<Longrightarrow> step s = Inl e \<Longrightarrow> post e"
begin

lemma iterate_stop: "iterate step n s = Inl e \<Longrightarrow> inv s \<Longrightarrow> post e"
  by (induction n arbitrary: s) (auto split: sum.splits dest: stop_post inv_step)

end

subsection \<open>Memories of single bytes\<close>

fun put_list :: "('m \<Rightarrow> u64 \<Rightarrow> u8 \<Rightarrow> 'm) \<Rightarrow> 'm \<Rightarrow> u64 \<Rightarrow> u8 list \<Rightarrow> 'm" where
  "put_list put m a [] = m"
| "put_list put m a (b # bs) = put_list put (put m a b) (a + 1) bs"

definition span :: "u64 \<Rightarrow> nat \<Rightarrow> u64 set" where
  "span a n = {x. unat (x - a) < n}"

lemma span_0 [simp]: "span a 0 = {}"
  by (simp add: span_def)

lemma span_Suc: "Suc n \<le> 2 ^ 64 \<Longrightarrow> span a (Suc n) = insert a (span (a + 1) n)"
proof (rule set_eqI)
  fix x assume n: "Suc n \<le> 2 ^ 64"
  have "unat (x - a) < Suc n \<longleftrightarrow> x = a \<or> unat (x - (a + 1)) < n"
  proof (cases "x = a")
    case False
    then have "unat (x - a) \<noteq> 0" by (simp add: unsigned_eq_0_iff)
    moreover have "x - (a + 1) = (x - a) - 1" by simp
    ultimately have "unat (x - (a + 1)) = unat (x - a) - 1"
      by (metis unat_minus_one unsigned_0)
    with False \<open>unat (x - a) \<noteq> 0\<close> show ?thesis by auto
  qed simp
  then show "x \<in> span a (Suc n) \<longleftrightarrow> x \<in> insert a (span (a + 1) n)" by (simp add: span_def)
qed

lemma span_next: "Suc n \<le> 2 ^ 64 \<Longrightarrow> a \<notin> span (a + 1) n"
  by (simp add: span_def unsigned_minus_1_eq_mask mask_eq_exp_minus_1)

lemma in_spanI: "i < n \<Longrightarrow> i < 2 ^ 64 \<Longrightarrow> a + of_nat i \<in> span a n"
  by (simp add: span_def unat_of_nat take_bit_nat_eq_self)

text \<open>
  The contract of a memory whose bytes are stored one at a time, in two parts. A store touches
  no other address, always; and inside a set of addresses that is \<open>clear\<close> a store is read
  back and keeps the set clear. Everything a client needs about multi-byte stores follows.
\<close>

locale byte_frame =
  fixes get :: "'m \<Rightarrow> u64 \<Rightarrow> u8 option"
    and put :: "'m \<Rightarrow> u64 \<Rightarrow> u8 \<Rightarrow> 'm"
  assumes get_put_other: "x \<noteq> a \<Longrightarrow> get (put m a b) x = get m x"
begin

lemma get_put_list_out:
  "length bs \<le> 2 ^ 64 \<Longrightarrow> x \<notin> span a (length bs) \<Longrightarrow> get (put_list put m a bs) x = get m x"
proof (induction bs arbitrary: m a)
  case (Cons b bs)
  then have "x \<noteq> a" "x \<notin> span (a + 1) (length bs)" by (simp_all add: span_Suc)
  with Cons show ?case by (simp add: get_put_other)
qed simp

end

locale byte_store = byte_frame +
  fixes clear :: "'m \<Rightarrow> u64 set \<Rightarrow> bool"
  assumes get_put: "clear m A \<Longrightarrow> a \<in> A \<Longrightarrow> get (put m a b) a = Some b"
    and clear_put: "clear m A \<Longrightarrow> a \<in> A \<Longrightarrow> clear (put m a b) A"
begin

lemma get_put_list_in:
  assumes "clear m A" "span a (length bs) \<subseteq> A" "length bs \<le> 2 ^ 64" "i < length bs"
  shows "get (put_list put m a bs) (a + of_nat i) = Some (bs ! i)"
  using assms
proof (induction bs arbitrary: m a i)
  case (Cons b bs)
  then have *: "a \<in> A" "span (a + 1) (length bs) \<subseteq> A" by (simp_all add: span_Suc)
  show ?case
  proof (cases i)
    case 0
    have "get (put_list put (put m a b) (a + 1) bs) a = get (put m a b) a"
      using Cons.prems by (intro get_put_list_out) (auto simp: span_next)
    with 0 Cons.prems * show ?thesis by (simp add: get_put [of m A])
  next
    case (Suc j)
    have "get (put_list put (put m a b) (a + 1) bs) (a + 1 + of_nat j) = Some (bs ! j)"
      using Cons.prems * Suc by (intro Cons.IH) (auto simp: clear_put)
    with Suc show ?thesis by (simp add: add.assoc)
  qed
qed simp

end

end
