(* ===== verification/Structs.thy ===== *)
theory Structs
  imports Prelude
begin

unbundle bit_operations_syntax

text \<open>
  The data of \<^verbatim>\<open>structs.h\<close> and \<^verbatim>\<open>exception.h\<close>: the exceptions the simulator throws, the
  instruction word \<^verbatim>\<open>insn_t\<close> with its field and immediate extractors, the register file
  template \<^verbatim>\<open>regfile_t\<close>, and the helper macros for sign extension and for setting the
  program counter. A C++ \<^verbatim>\<open>int64_t\<close> and a \<^verbatim>\<open>uint64_t\<close> are both a \<open>u64\<close>: the right shift of a
  signed value is \<open>signed_drop_bit\<close>, of an unsigned one \<open>drop_bit\<close>; a left shift of a signed
  value keeps the bits that remain in the word, as every compiler the Makefile uses does.
\<close>

subsection \<open>Exceptions\<close>

text \<open>
  \<open>invalid_address\<close> and \<open>no_permission\<close> carry the two addresses their constructors print.
\<close>

datatype exn =
    trap_illegal_instruction
  | trap_instruction_address_misaligned u64
  | invalid_address u64 u64
  | no_permission u64 u64

subsection \<open>The instruction word\<close>

type_synonym insn_t = u64

definition insn_length :: "u64 \<Rightarrow> nat" where
  "insn_length x =
     (if x AND 0x03 < 0x03 then 2
      else if x AND 0x1f < 0x1f then 4
      else if x AND 0x3f < 0x3f then 6
      else 8)"

definition insn_x :: "insn_t \<Rightarrow> nat \<Rightarrow> nat \<Rightarrow> u64" where
  "insn_x b lo len = drop_bit lo b AND (push_bit len 1 - 1)"

definition insn_xs :: "insn_t \<Rightarrow> nat \<Rightarrow> nat \<Rightarrow> u64" where
  "insn_xs b lo len = signed_drop_bit (64 - len) (push_bit (64 - lo - len) b)"

definition imm_sign :: "insn_t \<Rightarrow> u64" where
  "imm_sign b = insn_xs b 63 1"

definition i_imm :: "insn_t \<Rightarrow> u64" where
  "i_imm b = signed_drop_bit 20 b"

definition s_imm :: "insn_t \<Rightarrow> u64" where
  "s_imm b = insn_x b 7 5 + push_bit 5 (insn_xs b 25 7)"

definition sb_imm :: "insn_t \<Rightarrow> u64" where
  "sb_imm b = push_bit 1 (insn_x b 8 4) + push_bit 5 (insn_x b 25 6)
     + push_bit 11 (insn_x b 7 1) + push_bit 12 (imm_sign b)"

definition u_imm :: "insn_t \<Rightarrow> u64" where
  "u_imm b = push_bit 12 (signed_drop_bit 12 b)"

definition uj_imm :: "insn_t \<Rightarrow> u64" where
  "uj_imm b = push_bit 1 (insn_x b 21 10) + push_bit 11 (insn_x b 20 1)
     + push_bit 12 (insn_x b 12 8) + push_bit 20 (imm_sign b)"

definition insn_rd :: "insn_t \<Rightarrow> u64" where
  "insn_rd b = insn_x b 7 5"

definition insn_rs1 :: "insn_t \<Rightarrow> u64" where
  "insn_rs1 b = insn_x b 15 5"

definition insn_rs2 :: "insn_t \<Rightarrow> u64" where
  "insn_rs2 b = insn_x b 20 5"

definition insn_rs3 :: "insn_t \<Rightarrow> u64" where
  "insn_rs3 b = insn_x b 27 5"

definition insn_rm :: "insn_t \<Rightarrow> u64" where
  "insn_rm b = insn_x b 12 3"

definition insn_csr :: "insn_t \<Rightarrow> u64" where
  "insn_csr b = insn_x b 20 12"

subsection \<open>Register files\<close>

text \<open>
  \<^verbatim>\<open>regfile_t<T, N, zero_reg>\<close> holds \<^verbatim>\<open>T data[N]\<close>, here a list of length \<open>N\<close>. An index out of
  range is undefined behaviour in C++; the lemmas below show that the five-bit fields of an
  instruction never give one.
\<close>

type_synonym regs = "u64 list"

definition regfile_write :: "bool \<Rightarrow> regs \<Rightarrow> u64 \<Rightarrow> u64 \<Rightarrow> regs" where
  "regfile_write zero_reg data i value =
     (if \<not> zero_reg \<or> i \<noteq> 0 then data[unat i := value] else data)"

definition regfile_get :: "regs \<Rightarrow> u64 \<Rightarrow> u64" where
  "regfile_get data i = data ! unat i"

subsection \<open>Helper macros\<close>

definition xlen :: nat where
  "xlen = 64"

definition sext32 :: "u64 \<Rightarrow> u64" where
  "sext32 x = scast (ucast x :: u32)"

definition zext32 :: "u64 \<Rightarrow> u64" where
  "zext32 x = ucast (ucast x :: u32)"

definition sext_xlen :: "u64 \<Rightarrow> u64" where
  "sext_xlen x = signed_drop_bit (64 - xlen) (push_bit (64 - xlen) x)"

definition zext_xlen :: "u64 \<Rightarrow> u64" where
  "zext_xlen x = drop_bit (64 - xlen) (push_bit (64 - xlen) x)"

text \<open>
  The macro \<^verbatim>\<open>set_pc\<close> throws or assigns the handler's local \<^verbatim>\<open>npc\<close>; here it returns the
  exception or the new value of \<^verbatim>\<open>npc\<close>.
\<close>

definition set_pc :: "u64 \<Rightarrow> exn + u64" where
  "set_pc x = (if x AND 2 \<noteq> 0 then Inl (trap_instruction_address_misaligned x)
               else Inr (sext_xlen x))"

definition shamt :: "insn_t \<Rightarrow> u64" where
  "shamt insn = i_imm insn AND 0x3F"

definition branch_target :: "u64 \<Rightarrow> insn_t \<Rightarrow> u64" where
  "branch_target pc insn = pc + sb_imm insn"

definition jump_target :: "u64 \<Rightarrow> insn_t \<Rightarrow> u64" where
  "jump_target pc insn = pc + uj_imm insn"

subsection \<open>Field bounds\<close>

lemma sext_xlen_id [simp]: "sext_xlen x = x"
  by (simp add: sext_xlen_def xlen_def)

lemma zext_xlen_id [simp]: "zext_xlen x = x"
  by (simp add: zext_xlen_def xlen_def)

lemma insn_x_mask: "insn_x b lo len = take_bit len (drop_bit lo b)"
  by (simp add: insn_x_def take_bit_eq_mask mask_eq_exp_minus_1 push_bit_eq_mult)

lemma bit_insn_x: "bit (insn_x b lo len) n \<longleftrightarrow> n < len \<and> bit b (lo + n)"
  by (simp add: insn_x_mask bit_simps)

lemma bit_insn_xs:
  assumes "0 < len" "lo + len \<le> 64" "n < 64"
  shows "bit (insn_xs b lo len) n \<longleftrightarrow> bit b (lo + min n (len - 1))"
proof (cases "n < len")
  case True
  then have "min n (len - 1) = n" by simp
  with assms True show ?thesis by (auto simp: insn_xs_def bit_simps add.commute)
next
  case False
  then have "min n (len - 1) = len - 1" by simp
  with assms False show ?thesis by (auto simp: insn_xs_def bit_simps)
qed

lemma unat_insn_x: "unat (insn_x b lo len) < 2 ^ len"
  unfolding insn_x_mask by (simp add: unsigned_take_bit_eq take_bit_nat_less_exp)

lemma field_bounds [simp]:
  "unat (insn_rd b) < 32" "unat (insn_rs1 b) < 32" "unat (insn_rs2 b) < 32" "unat (insn_rs3 b) < 32"
  using unat_insn_x [of b _ 5] by (simp_all add: insn_rd_def insn_rs1_def insn_rs2_def insn_rs3_def)

lemma unat_shamt: "unat (shamt insn) < 64"
proof -
  have "shamt insn \<le> 0x3F" unfolding shamt_def by (rule word_and_le1)
  then have "unat (shamt insn) \<le> unat (0x3F :: u64)" by (simp add: word_le_nat_alt)
  then show ?thesis by simp
qed

subsection \<open>The register file contract\<close>

text \<open>
  What a client of a register file relies on: a write at a valid index is read back at that
  index unless it is the hard-wired one, and leaves every other register alone.
\<close>

locale register_file =
  fixes get :: "'r \<Rightarrow> u64 \<Rightarrow> u64"
    and put :: "'r \<Rightarrow> u64 \<Rightarrow> u64 \<Rightarrow> 'r"
    and wf :: "'r \<Rightarrow> bool"
    and fixed :: "u64 \<Rightarrow> bool"
  assumes wf_put: "wf r \<Longrightarrow> wf (put r i v)"
    and get_put: "wf r \<Longrightarrow> unat i < 32 \<Longrightarrow> unat j < 32 \<Longrightarrow>
      get (put r i v) j = (if i = j \<and> \<not> fixed i then v else get r j)"
begin

lemma get_put_same: "wf r \<Longrightarrow> unat i < 32 \<Longrightarrow> \<not> fixed i \<Longrightarrow> get (put r i v) i = v"
  by (simp add: get_put)

lemma get_put_fixed: "wf r \<Longrightarrow> unat i < 32 \<Longrightarrow> unat j < 32 \<Longrightarrow> fixed j \<Longrightarrow> get (put r i v) j = get r j"
  by (auto simp: get_put)

lemma put_put: "wf r \<Longrightarrow> unat i < 32 \<Longrightarrow> unat j < 32 \<Longrightarrow>
  get (put (put r i v) i w) j = get (put r i w) j"
  by (auto simp: get_put wf_put)

end

definition wf_regs :: "regs \<Rightarrow> bool" where
  "wf_regs r \<longleftrightarrow> length r = 32"

lemma wf_regfile_write [simp]: "wf_regs (regfile_write z r i v) = wf_regs r"
  by (simp add: wf_regs_def regfile_write_def)

interpretation xregs: register_file regfile_get "regfile_write True" wf_regs "\<lambda>i. i = 0"
  by unfold_locales
    (auto simp: wf_regs_def regfile_write_def regfile_get_def nth_list_update word_unat_eq_iff)

interpretation fregs: register_file regfile_get "regfile_write False" wf_regs "\<lambda>_. False"
  by unfold_locales
    (auto simp: wf_regs_def regfile_write_def regfile_get_def nth_list_update word_unat_eq_iff)

end
