(* ===== verification/Isa.thy ===== *)
theory Isa
  imports Structs
begin

unbundle bit_operations_syntax

text \<open>
  The abstract side: the instruction formats of the RISC-V user-level specification, stated
  on the 32-bit instruction word and its fields. Each immediate is the two's complement value
  of the word made of the format's fields, with no reference to the arithmetic with which
  \<^verbatim>\<open>structs.h\<close> computes it, and each encoder assembles an instruction from its fields.
\<close>

subsection \<open>Immediates of the instruction formats\<close>

definition spec_imm_I :: "u32 \<Rightarrow> int" where
  "spec_imm_I w = sint (slice 20 w :: 12 word)"

definition spec_imm_S :: "u32 \<Rightarrow> int" where
  "spec_imm_S w = sint (word_cat (slice 25 w :: 7 word) (slice 7 w :: 5 word) :: 12 word)"

definition spec_imm_B :: "u32 \<Rightarrow> int" where
  "spec_imm_B w = sint (word_cat (slice 31 w :: 1 word)
     (word_cat (slice 7 w :: 1 word)
       (word_cat (slice 25 w :: 6 word) (word_cat (slice 8 w :: 4 word) (0 :: 1 word) :: 5 word)
         :: 11 word) :: 12 word) :: 13 word)"

definition spec_imm_U :: "u32 \<Rightarrow> int" where
  "spec_imm_U w = sint (word_cat (slice 12 w :: 20 word) (0 :: 12 word) :: 32 word)"

definition spec_imm_J :: "u32 \<Rightarrow> int" where
  "spec_imm_J w = sint (word_cat (slice 31 w :: 1 word)
     (word_cat (slice 12 w :: 8 word)
       (word_cat (slice 20 w :: 1 word) (word_cat (slice 21 w :: 10 word) (0 :: 1 word) :: 11 word)
         :: 12 word) :: 20 word) :: 21 word)"

subsection \<open>Agreement with the extractors\<close>

text \<open>The simulator holds an instruction sign-extended to 64 bits: \<open>scast w\<close>.\<close>

lemma i_imm_spec: "i_imm (scast w) = scast (slice 20 w :: 12 word)" for w :: u32
  by (rule word64_eqI) (auto simp: i_imm_def bit_simps min_def)

lemma u_imm_spec: "u_imm (scast w) = scast (word_cat (slice 12 w :: 20 word) (0 :: 12 word) :: 32 word)"
  for w :: u32
  by (rule word64_eqI) (auto simp: u_imm_def bit_simps min_def)

lemma s_imm_spec:
  "s_imm (scast w) = scast (word_cat (slice 25 w :: 7 word) (slice 7 w :: 5 word) :: 12 word)"
  for w :: u32
proof -
  have "s_imm (scast w) = insn_x (scast w) 7 5 OR push_bit 5 (insn_xs (scast w) 25 7)"
    unfolding s_imm_def
    by (rule disjunctive_add) (auto simp: bit_insn_x bit_simps)
  also have "\<dots> = scast (word_cat (slice 25 w :: 7 word) (slice 7 w :: 5 word) :: 12 word)"
    by (rule word64_eqI) (auto simp: bit_insn_x bit_insn_xs bit_simps min_def)
  finally show ?thesis .
qed

lemma bit_times2: "bit (x * 2) n \<longleftrightarrow> 0 < n \<and> n < 64 \<and> bit x (n - 1)" for x :: u64
  using bit_double_iff [of x n] by (auto simp: mult.commute)

lemma sb_imm_or:
  "sb_imm b = push_bit 1 (insn_x b 8 4) OR push_bit 5 (insn_x b 25 6)
     OR push_bit 11 (insn_x b 7 1) OR push_bit 12 (imm_sign b)"
  (is "_ = ?a OR ?b OR ?c OR ?d")
proof -
  note [simp] = imm_sign_def bit_insn_x bit_simps bit_times2
  have "?a + ?b = ?a OR ?b" by (rule disjunctive_add) auto
  moreover have "(?a OR ?b) + ?c = ?a OR ?b OR ?c"
    unfolding or.assoc [symmetric] by (rule disjunctive_add) auto
  moreover have "(?a OR ?b OR ?c) + ?d = ?a OR ?b OR ?c OR ?d"
    unfolding or.assoc [symmetric] by (rule disjunctive_add) auto
  ultimately show ?thesis unfolding sb_imm_def by (simp only:)
qed

lemma uj_imm_or:
  "uj_imm b = push_bit 1 (insn_x b 21 10) OR push_bit 11 (insn_x b 20 1)
     OR push_bit 12 (insn_x b 12 8) OR push_bit 20 (imm_sign b)"
  (is "_ = ?a OR ?b OR ?c OR ?d")
proof -
  note [simp] = imm_sign_def bit_insn_x bit_simps bit_times2
  have "?a + ?b = ?a OR ?b" by (rule disjunctive_add) auto
  moreover have "(?a OR ?b) + ?c = ?a OR ?b OR ?c"
    unfolding or.assoc [symmetric] by (rule disjunctive_add) auto
  moreover have "(?a OR ?b OR ?c) + ?d = ?a OR ?b OR ?c OR ?d"
    unfolding or.assoc [symmetric] by (rule disjunctive_add) auto
  ultimately show ?thesis unfolding uj_imm_def by (simp only:)
qed

lemma sb_imm_spec:
  "sb_imm (scast w) = scast (word_cat (slice 31 w :: 1 word)
     (word_cat (slice 7 w :: 1 word)
       (word_cat (slice 25 w :: 6 word) (word_cat (slice 8 w :: 4 word) (0 :: 1 word) :: 5 word)
         :: 11 word) :: 12 word) :: 13 word)"
  for w :: u32
  by (rule word64_eqI) (auto simp: sb_imm_or imm_sign_def bit_insn_x bit_insn_xs bit_simps bit_times2 min_def)

lemma uj_imm_spec:
  "uj_imm (scast w) = scast (word_cat (slice 31 w :: 1 word)
     (word_cat (slice 12 w :: 8 word)
       (word_cat (slice 20 w :: 1 word) (word_cat (slice 21 w :: 10 word) (0 :: 1 word) :: 11 word)
         :: 12 word) :: 20 word) :: 21 word)"
  for w :: u32
  by (rule word64_eqI)
    (auto simp: uj_imm_or imm_sign_def bit_insn_x bit_insn_xs bit_simps bit_times2 min_def)

lemma sint_scast_up: "LENGTH('a) \<le> 64 \<Longrightarrow> sint (scast (x :: 'a::len word) :: u64) = sint x"
  by (rule sint_up_scast) (simp add: is_up)

text \<open>
  C6: for every 32-bit instruction word, held sign-extended as the simulator holds it, the
  five immediates that \<^verbatim>\<open>insn_t\<close> computes by shifting, masking and adding are the signed
  values of the immediates of the five instruction formats.
\<close>

theorem immediates_correct:
  fixes w :: u32
  shows "sint (i_imm (scast w)) = spec_imm_I w
    \<and> sint (s_imm (scast w)) = spec_imm_S w
    \<and> sint (sb_imm (scast w)) = spec_imm_B w
    \<and> sint (u_imm (scast w)) = spec_imm_U w
    \<and> sint (uj_imm (scast w)) = spec_imm_J w"
  unfolding i_imm_spec s_imm_spec sb_imm_spec u_imm_spec uj_imm_spec
    spec_imm_I_def spec_imm_S_def spec_imm_B_def spec_imm_U_def spec_imm_J_def
  by (simp add: sint_scast_up)

subsection \<open>Encoders\<close>

definition enc_R :: "7 word \<Rightarrow> 5 word \<Rightarrow> 5 word \<Rightarrow> 3 word \<Rightarrow> 5 word \<Rightarrow> 7 word \<Rightarrow> u32" where
  "enc_R f7 rs2 rs1 f3 rd op = push_bit 25 (ucast f7) OR push_bit 20 (ucast rs2)
     OR push_bit 15 (ucast rs1) OR push_bit 12 (ucast f3) OR push_bit 7 (ucast rd) OR ucast op"

definition enc_I :: "12 word \<Rightarrow> 5 word \<Rightarrow> 3 word \<Rightarrow> 5 word \<Rightarrow> 7 word \<Rightarrow> u32" where
  "enc_I imm rs1 f3 rd op = push_bit 20 (ucast imm)
     OR push_bit 15 (ucast rs1) OR push_bit 12 (ucast f3) OR push_bit 7 (ucast rd) OR ucast op"

definition enc_S :: "12 word \<Rightarrow> 5 word \<Rightarrow> 5 word \<Rightarrow> 3 word \<Rightarrow> 7 word \<Rightarrow> u32" where
  "enc_S imm rs2 rs1 f3 op = enc_R (slice 5 imm) rs2 rs1 f3 (ucast imm) op"

definition enc_B :: "13 word \<Rightarrow> 5 word \<Rightarrow> 5 word \<Rightarrow> 3 word \<Rightarrow> 7 word \<Rightarrow> u32" where
  "enc_B imm rs2 rs1 f3 op =
     enc_R (word_cat (slice 12 imm :: 1 word) (slice 5 imm :: 6 word)) rs2 rs1 f3
       (word_cat (slice 1 imm :: 4 word) (slice 11 imm :: 1 word)) op"

definition enc_U :: "20 word \<Rightarrow> 5 word \<Rightarrow> 7 word \<Rightarrow> u32" where
  "enc_U imm rd op = push_bit 12 (ucast imm) OR push_bit 7 (ucast rd) OR ucast op"

definition enc_J :: "21 word \<Rightarrow> 5 word \<Rightarrow> 7 word \<Rightarrow> u32" where
  "enc_J imm rd op = push_bit 31 (ucast (slice 20 imm :: 1 word))
     OR push_bit 21 (ucast (slice 1 imm :: 10 word)) OR push_bit 20 (ucast (slice 11 imm :: 1 word))
     OR push_bit 12 (ucast (slice 12 imm :: 8 word)) OR push_bit 7 (ucast rd) OR ucast op"

lemmas enc_defs = enc_R_def enc_I_def enc_S_def enc_B_def enc_U_def enc_J_def

lemma bit_enc_R:
  "bit (enc_R f7 rs2 rs1 f3 rd op) n \<longleftrightarrow> n < 32 \<and>
     (if n < 7 then bit op n else if n < 12 then bit rd (n - 7) else if n < 15 then bit f3 (n - 12)
      else if n < 20 then bit rs1 (n - 15) else if n < 25 then bit rs2 (n - 20) else bit f7 (n - 25))"
  by (auto simp: enc_R_def bit_simps dest: bit_imp_le_length)

lemma bit_enc_I:
  "bit (enc_I imm rs1 f3 rd op) n \<longleftrightarrow> n < 32 \<and>
     (if n < 7 then bit op n else if n < 12 then bit rd (n - 7) else if n < 15 then bit f3 (n - 12)
      else if n < 20 then bit rs1 (n - 15) else bit imm (n - 20))"
  by (auto simp: enc_I_def bit_simps dest: bit_imp_le_length)

lemma bit_enc_U:
  "bit (enc_U imm rd op) n \<longleftrightarrow> n < 32 \<and>
     (if n < 7 then bit op n else if n < 12 then bit rd (n - 7) else bit imm (n - 12))"
  by (auto simp: enc_U_def bit_simps dest: bit_imp_le_length)

lemma bit_enc_J:
  "bit (enc_J imm rd op) n \<longleftrightarrow> n < 32 \<and>
     (if n < 7 then bit op n else if n < 12 then bit rd (n - 7) else if n < 20 then bit imm n
      else if n = 20 then bit imm 11 else if n < 31 then bit imm (n - 20) else bit imm 20)"
proof (cases "n = 20 \<or> n = 31")
  case True
  then show ?thesis by (auto simp: enc_J_def bit_simps dest: bit_imp_le_length)
next
  case False
  have "21 \<le> n \<Longrightarrow> Suc (n - 21) = n - 20" by simp
  with False show ?thesis
    by (cases "n < 20") (auto simp: enc_J_def bit_simps dest: bit_imp_le_length)
qed

lemmas bit_enc = bit_enc_R bit_enc_I bit_enc_U bit_enc_J

lemmas fields_defs = insn_rd_def insn_rs1_def insn_rs2_def insn_rs3_def insn_rm_def insn_csr_def

lemma fields_enc_R [simp]:
  "insn_rd (scast (enc_R f7 rs2 rs1 f3 rd op)) = ucast rd"
  "insn_rs1 (scast (enc_R f7 rs2 rs1 f3 rd op)) = ucast rs1"
  "insn_rs2 (scast (enc_R f7 rs2 rs1 f3 rd op)) = ucast rs2"
  by (rule word64_eqI; auto simp: fields_defs bit_insn_x bit_enc bit_simps min_def
    dest: bit_imp_le_length)+

lemma fields_enc_I [simp]:
  "insn_rd (scast (enc_I imm rs1 f3 rd op)) = ucast rd"
  "insn_rs1 (scast (enc_I imm rs1 f3 rd op)) = ucast rs1"
  by (rule word64_eqI; auto simp: fields_defs bit_insn_x bit_enc bit_simps min_def
    dest: bit_imp_le_length)+

lemma i_imm_enc_I: "i_imm (scast (enc_I imm rs1 f3 rd op)) = scast imm"
  unfolding i_imm_spec
  by (rule arg_cong [of _ _ scast], rule bit_word_eqI) (auto simp: bit_enc bit_simps)

lemma s_imm_enc_S: "s_imm (scast (enc_S imm rs2 rs1 f3 op)) = scast imm"
  unfolding s_imm_spec enc_S_def
  by (rule arg_cong [of _ _ scast], rule bit_word_eqI) (auto simp: bit_enc bit_simps)

lemma u_imm_enc_U: "u_imm (scast (enc_U imm rd op)) = push_bit 12 (scast imm)"
  by (rule word64_eqI) (auto simp: u_imm_def bit_enc bit_simps min_def)

lemma sb_imm_enc_B: "sb_imm (scast (enc_B imm rs2 rs1 f3 op)) = scast (imm AND NOT 1)"
  (is "sb_imm (scast ?w) = _")
  unfolding sb_imm_spec
proof (rule arg_cong [of _ _ scast], rule bit_word_eqI)
  fix n assume "n < LENGTH(13)"
  then show "bit (word_cat (slice 31 ?w :: 1 word) (word_cat (slice 7 ?w :: 1 word)
       (word_cat (slice 25 ?w :: 6 word) (word_cat (slice 8 ?w :: 4 word) (0 :: 1 word) :: 5 word)
         :: 11 word) :: 12 word) :: 13 word) n \<longleftrightarrow> bit (imm AND NOT 1) n"
    by (cases "n = 11"; cases "n = 12") (auto simp: enc_B_def bit_enc bit_simps)
qed

lemma uj_imm_enc_J: "uj_imm (scast (enc_J imm rd op)) = scast (imm AND NOT 1)"
  (is "uj_imm (scast ?w) = _")
  unfolding uj_imm_spec
proof (rule arg_cong [of _ _ scast], rule bit_word_eqI)
  fix n assume "n < LENGTH(21)"
  then show "bit (word_cat (slice 31 ?w :: 1 word) (word_cat (slice 12 ?w :: 8 word)
       (word_cat (slice 20 ?w :: 1 word) (word_cat (slice 21 ?w :: 10 word) (0 :: 1 word) :: 11 word)
         :: 12 word) :: 20 word) :: 21 word) n \<longleftrightarrow> bit (imm AND NOT 1) n"
    by (cases "n = 11"; cases "n = 20") (auto simp: bit_enc bit_simps)
qed

text \<open>
  C30: an instruction assembled from its fields is taken apart again by \<^verbatim>\<open>insn_t\<close>: each
  format's immediate comes back sign-extended (for branches and jumps with its lowest bit
  cleared, for the upper-immediate format shifted left by twelve), and the register numbers
  come back as they were put in.
\<close>

theorem encode_extract_roundtrip:
  "i_imm (scast (enc_I imm12 rs1 f3 rd op)) = scast imm12
   \<and> s_imm (scast (enc_S imm12 rs2 rs1 f3 op)) = scast imm12
   \<and> sb_imm (scast (enc_B imm13 rs2 rs1 f3 op)) = scast (imm13 AND NOT 1)
   \<and> u_imm (scast (enc_U imm20 rd op)) = push_bit 12 (scast imm20)
   \<and> uj_imm (scast (enc_J imm21 rd op)) = scast (imm21 AND NOT 1)
   \<and> insn_rd (scast (enc_R f7 rs2 rs1 f3 rd op)) = ucast rd
   \<and> insn_rs1 (scast (enc_R f7 rs2 rs1 f3 rd op)) = ucast rs1
   \<and> insn_rs2 (scast (enc_R f7 rs2 rs1 f3 rd op)) = ucast rs2"
  by (simp add: i_imm_enc_I s_imm_enc_S sb_imm_enc_B u_imm_enc_U uj_imm_enc_J)

end
