(* ===== verification/Multi.thy ===== *)
theory Multi
  imports Prelude
begin

unbundle bit_operations_syntax

text \<open>
  The 64-by-64-bit high multiplications of \<^verbatim>\<open>multi.h\<close>, line by line, with the truncating
  assignments to the 32-bit locals, and the proof that each is the upper half of the
  128-bit product. The signed multiplication \<^verbatim>\<open>a * b\<close> of \<^verbatim>\<open>mulh\<close> wraps around in the model; in
  C++ its overflow is undefined, and only its comparison with zero is used.
\<close>

definition mulhu :: "u64 \<Rightarrow> u64 \<Rightarrow> u64" where
  "mulhu a b =
    (let a0 = ucast (ucast a :: u32) :: u64; a1 = drop_bit 32 a;
         b0 = ucast (ucast b :: u32) :: u64; b1 = drop_bit 32 b;
         t = a1 * b0 + drop_bit 32 (a0 * b0);
         y1 = ucast t :: u32;
         y2 = ucast (drop_bit 32 t) :: u32;
         t = a0 * b1 + ucast y1;
         t = a1 * b1 + ucast y2 + drop_bit 32 t;
         y2 = ucast t :: u32;
         y3 = ucast (drop_bit 32 t) :: u32
     in push_bit 32 (ucast y3) OR ucast y2)"

definition mulh :: "u64 \<Rightarrow> u64 \<Rightarrow> u64" where
  "mulh a b =
    (let negate = ((a <s 0) \<noteq> (b <s 0));
         res = mulhu (if a <s 0 then - a else a) (if b <s 0 then - b else b)
     in if negate then NOT res + of_bool (a * b = 0) else res)"

definition mulhsu :: "u64 \<Rightarrow> u64 \<Rightarrow> u64" where
  "mulhsu a b =
    (let negate = (a <s 0);
         res = mulhu (if a <s 0 then - a else a) b
     in if negate then NOT res + of_bool (a * b = 0) else res)"

subsection \<open>Halves of a word\<close>

lemma unat_low: "unat (ucast (ucast x :: u32) :: u64) = unat x mod 2 ^ 32" for x :: u64
  by (simp add: unsigned_ucast_eq take_bit_eq_mod unat_mod)

lemma unat_high: "unat (drop_bit 32 x) = unat x div 2 ^ 32" for x :: u64
  by (simp add: drop_bit_eq_div unat_div)

lemma unat_join: "push_bit 32 (ucast (ucast (drop_bit 32 x) :: u32)) OR ucast (ucast x :: u32) = x"
  for x :: u64
  by (rule word64_eqI) (auto simp: bit_simps)

lemma unat_add_small: "unat x + unat y < 2 ^ 64 \<Longrightarrow> unat (x + y) = unat x + unat y" for x y :: u64
  by (simp add: unat_word_ariths)

lemma unat_mult_small: "unat x * unat y < 2 ^ 64 \<Longrightarrow> unat (x * y) = unat x * unat y" for x y :: u64
  by (simp add: unat_word_ariths)

lemma half_product: "x < 2 ^ 32 \<Longrightarrow> y < 2 ^ 32 \<Longrightarrow> x * y \<le> (2 ^ 32 - 1) * (2 ^ 32 - 1)" for x y :: nat
  by (intro mult_le_mono) auto

text \<open>The schoolbook multiplication on the four half words, on natural numbers.\<close>

lemma schoolbook:
  fixes A0 A1 B0 B1 M :: nat
  defines "t1 \<equiv> A1 * B0 + A0 * B0 div M"
  assumes M: "0 < M" and A0: "A0 < M" and B0: "B0 < M"
  shows "((M * A1 + A0) * (M * B1 + B0)) div (M * M)
    = A1 * B1 + t1 div M + (A0 * B1 + t1 mod M) div M"
proof -
  have t1: "t1 = M * (t1 div M) + t1 mod M" by simp
  have ab: "A0 * B0 = M * (A0 * B0 div M) + A0 * B0 mod M" by simp
  have "(M * A1 + A0) * (M * B1 + B0)
      = M * M * (A1 * B1) + M * (A0 * B1) + M * (A1 * B0) + A0 * B0"
    by (simp add: algebra_simps)
  also have "\<dots> = M * M * (A1 * B1) + M * (A0 * B1 + t1) + A0 * B0 mod M"
    using ab unfolding t1_def by (simp add: algebra_simps)
  also have "\<dots> = M * M * (A1 * B1 + t1 div M) + M * (A0 * B1 + t1 mod M) + A0 * B0 mod M"
  proof -
    have "M * t1 = M * (M * (t1 div M)) + M * (t1 mod M)"
      using t1 by (metis distrib_left)
    then show ?thesis by (simp add: algebra_simps)
  qed
  finally have eq: "(M * A1 + A0) * (M * B1 + B0)
    = M * (M * (A1 * B1 + t1 div M) + (A0 * B1 + t1 mod M)) + A0 * B0 mod M"
    by (simp only: distrib_left mult.assoc)
  have "((M * A1 + A0) * (M * B1 + B0)) div M = M * (A1 * B1 + t1 div M) + (A0 * B1 + t1 mod M)"
    unfolding eq using M by simp
  then show ?thesis using M by (simp add: div_mult2_eq)
qed

subsection \<open>The unsigned high product\<close>

lemma unat_mulhu: "unat (mulhu a b) = (unat a * unat b) div 2 ^ 64"
proof -
  let ?M = "2 ^ 32 :: nat"
  define a0 where "a0 = (ucast (ucast a :: u32) :: u64)"
  define a1 where "a1 = drop_bit 32 a"
  define b0 where "b0 = (ucast (ucast b :: u32) :: u64)"
  define b1 where "b1 = drop_bit 32 b"
  define t where "t = a1 * b0 + drop_bit 32 (a0 * b0)"
  define s where "s = a0 * b1 + ucast (ucast t :: u32)"
  define r where "r = a1 * b1 + ucast (ucast (drop_bit 32 t) :: u32) + drop_bit 32 s"
  have r: "mulhu a b = r"
    unfolding mulhu_def Let_def r_def s_def t_def a0_def a1_def b0_def b1_def
    by (rule unat_join)
  have lt: "unat a0 < ?M" "unat a1 < ?M" "unat b0 < ?M" "unat b1 < ?M"
    using unat_u64_lt [of a] unat_u64_lt [of b]
    by (simp_all add: a0_def a1_def b0_def b1_def unat_low unat_high less_mult_imp_div_less)
  have P: "unat x * unat y \<le> (?M - 1) * (?M - 1)" if "unat x < ?M" "unat y < ?M" for x y :: u64
    by (rule half_product [OF that])
  note small = P [OF lt(1) lt(3)] P [OF lt(1) lt(4)] P [OF lt(2) lt(3)] P [OF lt(2) lt(4)]
  have "unat (drop_bit 32 (a0 * b0)) = unat a0 * unat b0 div ?M"
    using small by (simp add: unat_high unat_mult_small)
  moreover have "unat a0 * unat b0 div ?M \<le> ?M - 2"
    using div_le_mono [OF small(1), of ?M] by simp
  ultimately have t: "unat t = unat a1 * unat b0 + unat a0 * unat b0 div ?M"
    unfolding t_def using small by (simp add: unat_add_small unat_mult_small)
  have s: "unat s = unat a0 * unat b1 + unat t mod ?M"
    unfolding s_def using small mod_less_divisor [of ?M "unat t"]
    by (subst unat_add_small) (simp_all add: unat_low unat_mult_small del: mod_less_divisor)
  have d: "ucast (ucast (drop_bit 32 t) :: u32) = drop_bit 32 t"
    by (rule word64_eqI) (auto simp: bit_simps dest: bit_u64_lt)
  have div: "unat t div ?M < ?M" "unat s div ?M < ?M"
    using unat_u64_lt [of t] unat_u64_lt [of s] by (simp_all add: less_mult_imp_div_less)
  have "unat r = unat a1 * unat b1 + unat t div ?M + unat s div ?M"
    unfolding r_def d using small div
    by (simp add: unat_add_small unat_mult_small unat_high)
  also have "\<dots> = ((?M * unat a1 + unat a0) * (?M * unat b1 + unat b0)) div (?M * ?M)"
    unfolding s t by (rule schoolbook [symmetric]) (use lt in auto)
  also have "?M * unat a1 + unat a0 = unat a"
    by (simp add: a0_def a1_def unat_low unat_high)
  also have "?M * unat b1 + unat b0 = unat b"
    by (simp add: b0_def b1_def unat_low unat_high)
  finally show ?thesis by (simp add: r)
qed

lemma uint_mulhu: "uint (mulhu a b) = (uint a * uint b) div 2 ^ 64"
  unfolding uint_nat unat_mulhu by (simp add: zdiv_int)

subsection \<open>The signed high products\<close>

lemma sint_u64_bounds: "- (2 ^ 63) \<le> sint x" "sint x < 2 ^ 63" for x :: u64
  using sint_greater_eq [of x] sint_less [of x] by simp_all

lemma uint_magnitude: "uint (if a <s 0 then - a else a) = \<bar>sint a\<bar>" for a :: u64
proof (cases "sint a < 0")
  case True
  have "uint (- a) = - sint a mod 2 ^ 64"
    using uint_word_of_int [of "- sint a", where 'a = 64] by simp
  with True sint_u64_bounds [of a] show ?thesis by (simp add: word_sless_alt)
next
  case False
  have "uint a = sint a mod 2 ^ 64"
    using uint_word_of_int [of "sint a", where 'a = 64] by simp
  with False sint_u64_bounds [of a] show ?thesis by (simp add: word_sless_alt)
qed

lemma sint_of_int_u64: "- (2 ^ 63) \<le> k \<Longrightarrow> k < 2 ^ 63 \<Longrightarrow> sint (word_of_int k :: u64) = k"
  by (simp add: sint_sbintrunc' signed_take_bit_int_eq_self)

lemma div_range:
  fixes p :: int
  assumes "\<bar>p\<bar> \<le> 2 ^ 63 * (2 ^ 64 - 1)"
  shows "- (2 ^ 63) \<le> p div 2 ^ 64" "p div 2 ^ 64 < 2 ^ 63"
proof -
  have "- (2 ^ 63 * 2 ^ 64) \<le> p" "p < 2 ^ 63 * 2 ^ 64" using assms by simp_all
  then show "- (2 ^ 63) \<le> p div 2 ^ 64" and "p div 2 ^ 64 < 2 ^ 63"
    by simp_all
qed

text \<open>
  Negating a 128-bit product whose upper half is \<open>r\<close>: the complement of the upper half, plus
  one exactly when the lower half is zero.
\<close>

lemma negated_high_half:
  fixes p :: int and r :: u64
  assumes "uint r = (- p) div 2 ^ 64"
  shows "NOT r + of_bool ((word_of_int p :: u64) = 0) = word_of_int (p div 2 ^ 64)"
proof -
  have r: "r = word_of_int ((- p) div 2 ^ 64)" using assms by (metis word_of_int_uint)
  have z: "(word_of_int p :: u64) = 0 \<longleftrightarrow> p mod 2 ^ 64 = 0"
    by (simp add: word_of_int_eq_0_iff dvd_eq_mod_eq_0)
  have "p div 2 ^ 64 = (if p mod 2 ^ 64 = 0 then - ((- p) div 2 ^ 64) else - ((- p) div 2 ^ 64) - 1)"
    using zdiv_zminus1_eq_if [of "2 ^ 64" "- p"] by (simp add: zmod_zminus1_eq_if)
  then show ?thesis unfolding z by (simp add: r not_eq_complement)
qed

lemma signed_high_half:
  fixes p :: int and r lo :: u64
  assumes r: "uint r = \<bar>p\<bar> div 2 ^ 64" and lo: "lo = word_of_int p"
    and neg: "p \<noteq> 0 \<Longrightarrow> neg \<longleftrightarrow> p < 0" and le: "\<bar>p\<bar> \<le> 2 ^ 63 * (2 ^ 64 - 1)"
  shows "sint (if neg then NOT r + of_bool (lo = 0) else r) = p div 2 ^ 64"
proof -
  have "(if neg then NOT r + of_bool (lo = 0) else r) = word_of_int (p div 2 ^ 64)"
  proof (cases "neg \<and> p \<noteq> 0")
    case True
    with r neg show ?thesis by (simp add: negated_high_half lo)
  next
    case False
    have "r = word_of_int (\<bar>p\<bar> div 2 ^ 64)" using r by (metis word_of_int_uint)
    with False neg show ?thesis
      by (cases "p = 0") (auto simp: lo abs_if not_eq_complement)
  qed
  then show ?thesis using div_range [OF le] by (simp only: sint_of_int_u64)
qed

lemma uint_u64_bounds: "0 \<le> uint x" "uint x \<le> 2 ^ 64 - 1" for x :: u64
  using unsigned_less [of x, where 'a = int] by simp_all

lemma sint_mulh: "sint (mulh a b) = (sint a * sint b) div 2 ^ 64"
  unfolding mulh_def Let_def
proof (rule signed_high_half)
  show "uint (mulhu (if a <s 0 then - a else a) (if b <s 0 then - b else b))
    = \<bar>sint a * sint b\<bar> div 2 ^ 64"
    by (simp only: uint_mulhu uint_magnitude abs_mult)
  show "a * b = word_of_int (sint a * sint b)" by simp
  show "((a <s 0) \<noteq> (b <s 0)) = (sint a * sint b < 0)" if "sint a * sint b \<noteq> 0"
    using that by (auto simp: word_sless_alt mult_less_0_iff)
  have "\<bar>sint a\<bar> * \<bar>sint b\<bar> \<le> 2 ^ 63 * (2 ^ 64 - 1)"
    using sint_u64_bounds [of a] sint_u64_bounds [of b] by (intro mult_mono) auto
  then show "\<bar>sint a * sint b\<bar> \<le> 2 ^ 63 * (2 ^ 64 - 1)" by (simp only: abs_mult)
qed

lemma sint_mulhsu: "sint (mulhsu a b) = (sint a * uint b) div 2 ^ 64"
  unfolding mulhsu_def Let_def
proof (rule signed_high_half)
  show "uint (mulhu (if a <s 0 then - a else a) b) = \<bar>sint a * uint b\<bar> div 2 ^ 64"
    by (simp only: uint_mulhu uint_magnitude abs_mult) simp
  show "a * b = word_of_int (sint a * uint b)" by simp
  show "(a <s 0) = (sint a * uint b < 0)" if "sint a * uint b \<noteq> 0"
  proof -
    have "0 < uint b" using that uint_u64_bounds(1) [of b] by (metis less_le mult_zero_right)
    then show ?thesis by (simp only: word_sless_alt mult_less_0_iff signed_0) auto
  qed
  have "\<bar>sint a\<bar> * \<bar>uint b\<bar> \<le> 2 ^ 63 * (2 ^ 64 - 1)"
    using sint_u64_bounds [of a] uint_u64_bounds [of b] by (intro mult_mono) auto
  then show "\<bar>sint a * uint b\<bar> \<le> 2 ^ 63 * (2 ^ 64 - 1)" by (simp only: abs_mult)
qed

text \<open>
  C7: \<^verbatim>\<open>mulhu\<close>, \<^verbatim>\<open>mulh\<close> and \<^verbatim>\<open>mulhsu\<close> of \<^verbatim>\<open>multi.h\<close> return the upper 64 bits of the exact
  128-bit product of the two operands, read as unsigned, signed, and signed by unsigned, for
  all operands, the most negative one included.
\<close>

theorem high_products_exact:
  "uint (mulhu a b) = (uint a * uint b) div 2 ^ 64
   \<and> sint (mulh a b) = (sint a * sint b) div 2 ^ 64
   \<and> sint (mulhsu a b) = (sint a * uint b) div 2 ^ 64"
  by (simp add: uint_mulhu sint_mulh sint_mulhsu)

end
