(* ===== verification/Print.thy ===== *)
theory Print
  imports Prelude
begin

unbundle bit_operations_syntax

text \<open>
  The conversions of C's \<^verbatim>\<open>printf\<close> that the program uses, as functions to strings, and readers for
  what they print: numbers in a base between 2 and 16, decimal numbers with a sign, fields
  padded to a width, and text taken apart at a separator. The locale \<open>readable\<close> is the contract
  of a conversion whose output can be read back and contains no separator; lists of fields of
  such a conversion are read back once and for all there.
\<close>

subsection \<open>Digits\<close>

definition digit :: "nat \<Rightarrow> char" where
  "digit d = ''0123456789abcdef'' ! d"

function digits :: "nat \<Rightarrow> nat \<Rightarrow> string" where
  "digits b n = (if b < 2 \<or> n < b then [digit n] else digits b (n div b) @ [digit (n mod b)])"
  by pat_completeness auto
termination by (relation "measure snd") auto

declare digits.simps [simp del]

text \<open>
  The conversions \<^verbatim>\<open>%x\<close> and \<^verbatim>\<open>%llx\<close> of an unsigned number, and \<^verbatim>\<open>%d\<close> and \<^verbatim>\<open>%lld\<close> of a signed one,
  for a number of any width; \<^verbatim>\<open>%Nx\<close>, \<^verbatim>\<open>%-Nx\<close> and \<^verbatim>\<open>%0Nx\<close> pad to a width on the left, on the
  right, and with zeros.
\<close>

definition fmt_x :: "'a::len word \<Rightarrow> string" where
  "fmt_x w = digits 16 (unat w)"

definition fmt_nat :: "nat \<Rightarrow> string" where
  "fmt_nat n = digits 10 n"

definition fmt_d :: "'a::len word \<Rightarrow> string" where
  "fmt_d w = (if sint w < 0 then CHR ''-'' # fmt_nat (nat (- sint w)) else fmt_nat (nat (sint w)))"

definition pad_left :: "nat \<Rightarrow> string \<Rightarrow> string" where
  "pad_left n s = replicate (n - length s) CHR '' '' @ s"

definition pad_right :: "nat \<Rightarrow> string \<Rightarrow> string" where
  "pad_right n s = s @ replicate (n - length s) CHR '' ''"

definition pad_zero :: "nat \<Rightarrow> string \<Rightarrow> string" where
  "pad_zero n s = replicate (n - length s) CHR ''0'' @ s"

definition nl :: string where
  "nl = [CHR 0x0A]"

definition tab :: string where
  "tab = [CHR 0x09]"

subsection \<open>Reading numbers back\<close>

definition digit_val :: "char \<Rightarrow> nat option" where
  "digit_val c = (let n = of_char c :: nat
     in if 48 \<le> n \<and> n \<le> 57 then Some (n - 48) else if 97 \<le> n \<and> n \<le> 102 then Some (n - 87) else None)"

fun read_digits :: "nat \<Rightarrow> nat \<Rightarrow> string \<Rightarrow> nat option" where
  "read_digits b acc [] = Some acc"
| "read_digits b acc (c # cs) =
     (case digit_val c of
        None \<Rightarrow> None
      | Some d \<Rightarrow> if d < b then read_digits b (acc * b + d) cs else None)"

definition read_num :: "nat \<Rightarrow> string \<Rightarrow> nat option" where
  "read_num b s = (if s = [] then None else read_digits b 0 s)"

definition read_x :: "string \<Rightarrow> 'a::len word option" where
  "read_x s = map_option of_nat (read_num 16 s)"

definition read_d :: "string \<Rightarrow> 'a::len word option" where
  "read_d s = (case s of
     [] \<Rightarrow> None
   | c # cs \<Rightarrow> if c = CHR ''-'' then map_option (\<lambda>n. - of_nat n) (read_num 10 cs)
                else map_option of_nat (read_num 10 s))"

lemma less_16_cases: "d < 16 \<Longrightarrow> d \<in> {0, 1, 2, 3, 4, 5, 6, 7, 8, 9, 10, 11, 12, 13, 14, 15 :: nat}"
  by simp presburger

lemma digit_val_digit [simp]: "d < 16 \<Longrightarrow> digit_val (digit d) = Some d"
  by (drule less_16_cases) (auto simp: digit_val_def digit_def)

definition digit_chars :: "char set" where
  "digit_chars = set ''0123456789abcdef''"

lemma digit_in [simp]: "d < 16 \<Longrightarrow> digit d \<in> digit_chars"
  by (drule less_16_cases) (auto simp: digit_chars_def digit_def)

lemma read_digits_append:
  "read_digits b acc (s @ t) = Option.bind (read_digits b acc s) (\<lambda>n. read_digits b n t)"
  by (induction b acc s rule: read_digits.induct) (auto split: option.split)

lemma digits_nonempty [simp]: "digits b n \<noteq> []"
  by (subst digits.simps) simp

lemma mod_less_16: "2 \<le> b \<Longrightarrow> b \<le> 16 \<Longrightarrow> n mod b < 16" for n b :: nat
  by (rule order_less_le_trans [of _ b]) simp_all

lemma read_digits_digits:
  assumes "2 \<le> b" "b \<le> 16"
  shows "read_digits b 0 (digits b n) = Some n"
proof (induction n rule: less_induct)
  case (less n)
  show ?case
  proof (cases "n < b")
    case True
    with assms show ?thesis by (subst digits.simps) simp
  next
    case False
    with assms have "n div b < n" by (intro div_less_dividend) auto
    moreover have "n mod b < b" "n mod b < 16" using assms by (simp_all add: mod_less_16)
    ultimately show ?thesis
      using assms False less by (subst digits.simps) (simp add: read_digits_append)
  qed
qed

lemma read_num_digits [simp]: "2 \<le> b \<Longrightarrow> b \<le> 16 \<Longrightarrow> read_num b (digits b n) = Some n"
  by (simp add: read_num_def read_digits_digits)

lemma digits_chars: "2 \<le> b \<Longrightarrow> b \<le> 16 \<Longrightarrow> set (digits b n) \<subseteq> digit_chars"
proof (induction n rule: less_induct)
  case (less n)
  show ?case
  proof (cases "n < b")
    case True
    with less.prems show ?thesis by (subst digits.simps) simp
  next
    case False
    with less.prems have "n div b < n" by (intro div_less_dividend) auto
    moreover have "n mod b < 16" using less.prems by (rule mod_less_16)
    ultimately show ?thesis using less False by (subst digits.simps) simp
  qed
qed

lemma read_x_fmt_x [simp]: "read_x (fmt_x w) = Some w"
  by (simp add: read_x_def fmt_x_def)

lemma read_digits_zeros: "0 < b \<Longrightarrow> read_digits b 0 (replicate k CHR ''0'' @ s) = read_digits b 0 s"
  by (induction k) (auto simp: digit_val_def)

text \<open>Padding with zeros does not change the number read.\<close>

lemma read_x_pad_zero [simp]: "read_x (pad_zero n (fmt_x w)) = Some w"
  by (simp add: read_x_def fmt_x_def pad_zero_def read_num_def read_digits_zeros read_digits_digits)

lemma digit_chars_no_sign: "CHR ''-'' \<notin> digit_chars"
  by (simp add: digit_chars_def)

lemma read_d_digits: "read_d (digits 10 n) = Some (of_nat n)"
proof -
  obtain c cs where c: "digits 10 n = c # cs" by (cases "digits 10 n") auto
  then have "c \<in> digit_chars" using digits_chars [of 10 n] by simp
  then have "c \<noteq> CHR ''-''" using digit_chars_no_sign by blast
  then show ?thesis using c read_num_digits [of 10 n] by (simp add: read_d_def)
qed

lemma read_d_fmt_d [simp]: "read_d (fmt_d w) = Some w" for w :: "'a::len word"
proof (cases "sint w < 0")
  case True
  then have "(of_nat (nat (- sint w)) :: 'a word) = of_int (- sint w)"
    by (subst of_nat_nat) simp_all
  then have "(of_nat (nat (- sint w)) :: 'a word) = - w" by simp
  with True show ?thesis by (simp add: fmt_d_def read_d_def fmt_nat_def)
next
  case False
  then have "(of_nat (nat (sint w)) :: 'a word) = of_int (sint w)"
    by (subst of_nat_nat) simp_all
  then have "of_nat (nat (sint w)) = w" by simp
  with False show ?thesis by (simp add: fmt_d_def fmt_nat_def read_d_digits)
qed

subsection \<open>Taking text apart\<close>

fun split_on :: "char \<Rightarrow> string \<Rightarrow> string list" where
  "split_on c [] = [[]]"
| "split_on c (x # xs) =
     (if x = c then [] # split_on c xs
      else (case split_on c xs of [] \<Rightarrow> [[x]] | l # ls \<Rightarrow> (x # l) # ls))"

definition text_lines :: "string \<Rightarrow> string list" where
  "text_lines s = butlast (split_on CHR 0x0A s)"

lemma split_on_clean [simp]: "c \<notin> set xs \<Longrightarrow> split_on c xs = [xs]"
  by (induction xs) auto

lemma split_on_append [simp]: "c \<notin> set xs \<Longrightarrow> split_on c (xs @ c # ys) = xs # split_on c ys"
  by (induction xs) auto

lemma split_on_nonempty [simp]: "split_on c s \<noteq> []"
  by (induction s) (auto split: list.split)

lemma text_lines_Nil [simp]: "text_lines [] = []"
  by (simp add: text_lines_def)

lemma text_lines_line [simp]:
  "CHR 0x0A \<notin> set l \<Longrightarrow> text_lines (l @ nl @ s) = l # text_lines s"
  by (simp add: text_lines_def nl_def)

lemma text_lines_concat:
  "(\<And>x. x \<in> set xs \<Longrightarrow> CHR 0x0A \<notin> set (f x)) \<Longrightarrow>
   text_lines (concat (map (\<lambda>x. f x @ nl) xs)) = map f xs"
  by (induction xs) simp_all

text \<open>
  A conversion is readable when its output is read back and holds neither a blank nor the end
  of a line, so that fields and lines made with it can be told apart.
\<close>

locale readable =
  fixes print :: "'a \<Rightarrow> string"
    and read :: "string \<Rightarrow> 'a option"
  assumes read_print: "read (print x) = Some x"
    and clean: "CHR '' '' \<notin> set (print x) \<and> CHR 0x0A \<notin> set (print x)"
begin

lemma print_inj: "print x = print y \<Longrightarrow> x = y"
  by (metis read_print option.inject)

lemma split_fields: "CHR '' '' \<notin> set s \<Longrightarrow>
   split_on CHR '' '' (s @ concat (map (\<lambda>x. CHR '' '' # print x) xs)) = s # map print xs"
proof (induction xs arbitrary: s)
  case (Cons x xs)
  have "split_on CHR '' '' (print x @ concat (map (\<lambda>x. CHR '' '' # print x) xs)) = print x # map print xs"
    using clean by (intro Cons.IH) blast
  with Cons.prems show ?case by simp
qed simp

lemma read_fields:
  "CHR '' '' \<notin> set s \<Longrightarrow>
   map read (tl (split_on CHR '' '' (s @ concat (map (\<lambda>x. CHR '' '' # print x) xs)))) = map Some xs"
  by (simp add: split_fields read_print)

lemma read_lines: "map read (text_lines (concat (map (\<lambda>x. print x @ nl) xs))) = map Some xs"
  by (simp add: text_lines_concat clean read_print)

end

lemma digit_chars_clean: "CHR '' '' \<notin> digit_chars" "CHR 0x0A \<notin> digit_chars"
  by (simp_all add: digit_chars_def)

lemma digits_clean:
  assumes "2 \<le> b" "b \<le> 16"
  shows "CHR '' '' \<notin> set (digits b n)" "CHR 0x0A \<notin> set (digits b n)"
  using digits_chars [OF assms, of n] digit_chars_clean by blast+

lemma fmt_clean [simp]:
  "CHR '' '' \<notin> set (fmt_x w)" "CHR 0x0A \<notin> set (fmt_x w)"
  "CHR '' '' \<notin> set (fmt_nat n)" "CHR 0x0A \<notin> set (fmt_nat n)"
  "CHR '' '' \<notin> set (fmt_d w)" "CHR 0x0A \<notin> set (fmt_d w)"
  by (simp_all add: fmt_x_def fmt_nat_def fmt_d_def digits_clean)

interpretation hex: readable fmt_x read_x
  by unfold_locales simp_all

interpretation dec: readable fmt_d read_d
  by unfold_locales simp_all

interpretation dec_nat: readable fmt_nat "read_num 10"
  by unfold_locales (simp_all add: fmt_nat_def digits_clean)

lemma pad_zero_clean [simp]:
  "c \<noteq> CHR ''0'' \<Longrightarrow> c \<in> set (pad_zero n s) \<longleftrightarrow> c \<in> set s"
  by (auto simp: pad_zero_def)

interpretation hex_zeros: readable "\<lambda>w. pad_zero n (fmt_x w)" read_x for n
  by unfold_locales simp_all

end
