(* ===== verification/Encoding.thy ===== *)
theory Encoding
  imports Isa
begin

unbundle bit_operations_syntax

text \<open>
  The encodings of \<^verbatim>\<open>encoding.h\<close> for the instructions that \<^verbatim>\<open>insn_list.h\<close> registers: for each
  pair of macros \<^verbatim>\<open>MATCH_X\<close> and \<^verbatim>\<open>MASK_X\<close>, bound to the instruction x by \<^verbatim>\<open>DECLARE_INSN\<close>, the pair
  of the match bits and the mask. Then the facts that decoding rests on: every registered
  pattern can match, and no two of them match the same instruction word.
\<close>

type_synonym pattern = "u64 \<times> u64"

definition pat_beq :: pattern where
  "pat_beq = (0x63, 0x707f)"

definition pat_bne :: pattern where
  "pat_bne = (0x1063, 0x707f)"

definition pat_blt :: pattern where
  "pat_blt = (0x4063, 0x707f)"

definition pat_bge :: pattern where
  "pat_bge = (0x5063, 0x707f)"

definition pat_bltu :: pattern where
  "pat_bltu = (0x6063, 0x707f)"

definition pat_bgeu :: pattern where
  "pat_bgeu = (0x7063, 0x707f)"

definition pat_jalr :: pattern where
  "pat_jalr = (0x67, 0x707f)"

definition pat_jal :: pattern where
  "pat_jal = (0x6f, 0x7f)"

definition pat_lui :: pattern where
  "pat_lui = (0x37, 0x7f)"

definition pat_auipc :: pattern where
  "pat_auipc = (0x17, 0x7f)"

definition pat_addi :: pattern where
  "pat_addi = (0x13, 0x707f)"

definition pat_slli :: pattern where
  "pat_slli = (0x1013, 0xfc00707f)"

definition pat_slti :: pattern where
  "pat_slti = (0x2013, 0x707f)"

definition pat_sltiu :: pattern where
  "pat_sltiu = (0x3013, 0x707f)"

definition pat_xori :: pattern where
  "pat_xori = (0x4013, 0x707f)"

definition pat_srli :: pattern where
  "pat_srli = (0x5013, 0xfc00707f)"

definition pat_srai :: pattern where
  "pat_srai = (0x40005013, 0xfc00707f)"

definition pat_ori :: pattern where
  "pat_ori = (0x6013, 0x707f)"

definition pat_andi :: pattern where
  "pat_andi = (0x7013, 0x707f)"

definition pat_add :: pattern where
  "pat_add = (0x33, 0xfe00707f)"

definition pat_sub :: pattern where
  "pat_sub = (0x40000033, 0xfe00707f)"

definition pat_sll :: pattern where
  "pat_sll = (0x1033, 0xfe00707f)"

definition pat_slt :: pattern where
  "pat_slt = (0x2033, 0xfe00707f)"

definition pat_sltu :: pattern where
  "pat_sltu = (0x3033, 0xfe00707f)"

definition pat_xor :: pattern where
  "pat_xor = (0x4033, 0xfe00707f)"

definition pat_srl :: pattern where
  "pat_srl = (0x5033, 0xfe00707f)"

definition pat_sra :: pattern where
  "pat_sra = (0x40005033, 0xfe00707f)"

definition pat_or :: pattern where
  "pat_or = (0x6033, 0xfe00707f)"

definition pat_and :: pattern where
  "pat_and = (0x7033, 0xfe00707f)"

definition pat_addiw :: pattern where
  "pat_addiw = (0x1b, 0x707f)"

definition pat_slliw :: pattern where
  "pat_slliw = (0x101b, 0xfe00707f)"

definition pat_srliw :: pattern where
  "pat_srliw = (0x501b, 0xfe00707f)"

definition pat_sraiw :: pattern where
  "pat_sraiw = (0x4000501b, 0xfe00707f)"

definition pat_addw :: pattern where
  "pat_addw = (0x3b, 0xfe00707f)"

definition pat_subw :: pattern where
  "pat_subw = (0x4000003b, 0xfe00707f)"

definition pat_sllw :: pattern where
  "pat_sllw = (0x103b, 0xfe00707f)"

definition pat_srlw :: pattern where
  "pat_srlw = (0x503b, 0xfe00707f)"

definition pat_sraw :: pattern where
  "pat_sraw = (0x4000503b, 0xfe00707f)"

definition pat_lb :: pattern where
  "pat_lb = (0x3, 0x707f)"

definition pat_lh :: pattern where
  "pat_lh = (0x1003, 0x707f)"

definition pat_lw :: pattern where
  "pat_lw = (0x2003, 0x707f)"

definition pat_ld :: pattern where
  "pat_ld = (0x3003, 0x707f)"

definition pat_lbu :: pattern where
  "pat_lbu = (0x4003, 0x707f)"

definition pat_lhu :: pattern where
  "pat_lhu = (0x5003, 0x707f)"

definition pat_lwu :: pattern where
  "pat_lwu = (0x6003, 0x707f)"

definition pat_sb :: pattern where
  "pat_sb = (0x23, 0x707f)"

definition pat_sh :: pattern where
  "pat_sh = (0x1023, 0x707f)"

definition pat_sw :: pattern where
  "pat_sw = (0x2023, 0x707f)"

definition pat_sd :: pattern where
  "pat_sd = (0x3023, 0x707f)"

definition pat_fence :: pattern where
  "pat_fence = (0xf, 0x707f)"

definition pat_mul :: pattern where
  "pat_mul = (0x2000033, 0xfe00707f)"

definition pat_mulh :: pattern where
  "pat_mulh = (0x2001033, 0xfe00707f)"

definition pat_mulhsu :: pattern where
  "pat_mulhsu = (0x2002033, 0xfe00707f)"

definition pat_mulhu :: pattern where
  "pat_mulhu = (0x2003033, 0xfe00707f)"

definition pat_div :: pattern where
  "pat_div = (0x2004033, 0xfe00707f)"

definition pat_divu :: pattern where
  "pat_divu = (0x2005033, 0xfe00707f)"

definition pat_rem :: pattern where
  "pat_rem = (0x2006033, 0xfe00707f)"

definition pat_remu :: pattern where
  "pat_remu = (0x2007033, 0xfe00707f)"

definition pat_mulw :: pattern where
  "pat_mulw = (0x200003b, 0xfe00707f)"

definition pat_divw :: pattern where
  "pat_divw = (0x200403b, 0xfe00707f)"

definition pat_divuw :: pattern where
  "pat_divuw = (0x200503b, 0xfe00707f)"

definition pat_remw :: pattern where
  "pat_remw = (0x200603b, 0xfe00707f)"

definition pat_remuw :: pattern where
  "pat_remuw = (0x200703b, 0xfe00707f)"

definition pat_scall :: pattern where
  "pat_scall = (0x73, 0xffffffff)"

definition pat_fadd_s :: pattern where
  "pat_fadd_s = (0x53, 0xfe00007f)"

definition pat_fsub_s :: pattern where
  "pat_fsub_s = (0x8000053, 0xfe00007f)"

definition pat_fmul_s :: pattern where
  "pat_fmul_s = (0x10000053, 0xfe00007f)"

definition pat_fdiv_s :: pattern where
  "pat_fdiv_s = (0x18000053, 0xfe00007f)"

definition pat_fadd_d :: pattern where
  "pat_fadd_d = (0x2000053, 0xfe00007f)"

definition pat_fsub_d :: pattern where
  "pat_fsub_d = (0xa000053, 0xfe00007f)"

definition pat_fmul_d :: pattern where
  "pat_fmul_d = (0x12000053, 0xfe00007f)"

definition pat_fdiv_d :: pattern where
  "pat_fdiv_d = (0x1a000053, 0xfe00007f)"

definition pat_fsgnj_d :: pattern where
  "pat_fsgnj_d = (0x22000053, 0xfe00707f)"

definition pat_fcvt_s_d :: pattern where
  "pat_fcvt_s_d = (0x40100053, 0xfff0007f)"

definition pat_fcvt_d_s :: pattern where
  "pat_fcvt_d_s = (0x42000053, 0xfff0007f)"

definition pat_fle_d :: pattern where
  "pat_fle_d = (0xa2000053, 0xfe00707f)"

definition pat_flt_d :: pattern where
  "pat_flt_d = (0xa2001053, 0xfe00707f)"

definition pat_feq_d :: pattern where
  "pat_feq_d = (0xa2002053, 0xfe00707f)"

definition pat_fcvt_w_d :: pattern where
  "pat_fcvt_w_d = (0xc2000053, 0xfff0007f)"

definition pat_fcvt_wu_d :: pattern where
  "pat_fcvt_wu_d = (0xc2100053, 0xfff0007f)"

definition pat_fcvt_l_d :: pattern where
  "pat_fcvt_l_d = (0xc2200053, 0xfff0007f)"

definition pat_fmv_x_d :: pattern where
  "pat_fmv_x_d = (0xe2000053, 0xfff0707f)"

definition pat_fcvt_s_w :: pattern where
  "pat_fcvt_s_w = (0xd0000053, 0xfff0007f)"

definition pat_fcvt_s_l :: pattern where
  "pat_fcvt_s_l = (0xd0200053, 0xfff0007f)"

definition pat_fmv_s_x :: pattern where
  "pat_fmv_s_x = (0xf0000053, 0xfff0707f)"

definition pat_fcvt_d_w :: pattern where
  "pat_fcvt_d_w = (0xd2000053, 0xfff0007f)"

definition pat_fcvt_d_l :: pattern where
  "pat_fcvt_d_l = (0xd2200053, 0xfff0007f)"

definition pat_fmv_d_x :: pattern where
  "pat_fmv_d_x = (0xf2000053, 0xfff0707f)"

definition pat_flw :: pattern where
  "pat_flw = (0x2007, 0x707f)"

definition pat_fld :: pattern where
  "pat_fld = (0x3007, 0x707f)"

definition pat_fsw :: pattern where
  "pat_fsw = (0x2027, 0x707f)"

definition pat_fsd :: pattern where
  "pat_fsd = (0x3027, 0x707f)"

definition pat_fmadd_d :: pattern where
  "pat_fmadd_d = (0x2000043, 0x600007f)"

text \<open>The patterns in the order in which \<^verbatim>\<open>insn_list.h\<close> registers them.\<close>

definition patterns :: "pattern list" where
  "patterns = [
     pat_addi, pat_lw, pat_ld, pat_sw, pat_sd, pat_jal, pat_bne, pat_add, pat_addiw, pat_lui,
     pat_sub, pat_sll, pat_slt, pat_sltu, pat_xor, pat_srl, pat_sra, pat_or, pat_and, pat_slli,
     pat_slti, pat_sltiu, pat_xori, pat_srli, pat_srai, pat_ori, pat_andi, pat_beq, pat_blt,
     pat_bge, pat_bltu, pat_bgeu, pat_lb, pat_lh, pat_lbu, pat_lhu, pat_lwu, pat_sb, pat_sh,
     pat_jalr, pat_auipc, pat_addw, pat_subw, pat_sllw, pat_srlw, pat_sraw, pat_slliw, pat_srliw,
     pat_sraiw, pat_mul, pat_mulw, pat_mulh, pat_mulhu, pat_mulhsu, pat_div, pat_divu, pat_divw,
     pat_divuw, pat_rem, pat_remu, pat_remw, pat_remuw, pat_scall, pat_fence, pat_fld, pat_flw,
     pat_fsd, pat_fsw, pat_fmv_s_x, pat_fmul_d, pat_fdiv_d, pat_fmul_s, pat_fdiv_s, pat_fadd_d,
     pat_fsub_d, pat_fadd_s, pat_fsub_s, pat_fmv_x_d, pat_fmv_d_x, pat_fcvt_l_d, pat_fcvt_s_l,
     pat_fcvt_s_w, pat_fcvt_s_d, pat_fcvt_d_s, pat_fcvt_d_w, pat_fcvt_d_l, pat_fcvt_w_d,
     pat_fcvt_wu_d, pat_fsgnj_d, pat_feq_d, pat_fle_d, pat_flt_d, pat_fmadd_d]"

lemmas pat_defs =
  pat_addi_def pat_lw_def pat_ld_def pat_sw_def pat_sd_def pat_jal_def pat_bne_def
  pat_add_def pat_addiw_def pat_lui_def pat_sub_def pat_sll_def pat_slt_def
  pat_sltu_def pat_xor_def pat_srl_def pat_sra_def pat_or_def pat_and_def pat_slli_def
  pat_slti_def pat_sltiu_def pat_xori_def pat_srli_def pat_srai_def pat_ori_def
  pat_andi_def pat_beq_def pat_blt_def pat_bge_def pat_bltu_def pat_bgeu_def pat_lb_def
  pat_lh_def pat_lbu_def pat_lhu_def pat_lwu_def pat_sb_def pat_sh_def pat_jalr_def
  pat_auipc_def pat_addw_def pat_subw_def pat_sllw_def pat_srlw_def pat_sraw_def
  pat_slliw_def pat_srliw_def pat_sraiw_def pat_mul_def pat_mulw_def pat_mulh_def
  pat_mulhu_def pat_mulhsu_def pat_div_def pat_divu_def pat_divw_def pat_divuw_def
  pat_rem_def pat_remu_def pat_remw_def pat_remuw_def pat_scall_def pat_fence_def
  pat_fld_def pat_flw_def pat_fsd_def pat_fsw_def pat_fmv_s_x_def pat_fmul_d_def
  pat_fdiv_d_def pat_fmul_s_def pat_fdiv_s_def pat_fadd_d_def pat_fsub_d_def
  pat_fadd_s_def pat_fsub_s_def pat_fmv_x_d_def pat_fmv_d_x_def pat_fcvt_l_d_def
  pat_fcvt_s_l_def pat_fcvt_s_w_def pat_fcvt_s_d_def pat_fcvt_d_s_def pat_fcvt_d_w_def
  pat_fcvt_d_l_def pat_fcvt_w_d_def pat_fcvt_wu_d_def pat_fsgnj_d_def pat_feq_d_def
  pat_fle_d_def pat_flt_d_def pat_fmadd_d_def

subsection \<open>Exclusive patterns\<close>

definition matches :: "pattern \<Rightarrow> u64 \<Rightarrow> bool" where
  "matches p bits \<longleftrightarrow> bits AND snd p = fst p"

text \<open>
  The contract of a decoding table whose entries exclude each other: what is found first is
  all there is to find, so neither the order of the table nor the direction of the search
  matters.
\<close>

locale decode_table =
  fixes pat :: "'d \<Rightarrow> pattern" and tab :: "'d list"
  assumes exclusive: "sorted_wrt (\<lambda>d e. \<forall>b. \<not> (matches (pat d) b \<and> matches (pat e) b)) tab"
begin

lemma find_matching:
  "d \<in> set tab \<Longrightarrow> matches (pat d) b \<Longrightarrow> find (\<lambda>e. matches (pat e) b) tab = Some d"
  using exclusive by (induction tab) auto

lemma find_iff:
  "find (\<lambda>e. matches (pat e) b) tab = Some d \<longleftrightarrow> d \<in> set tab \<and> matches (pat d) b"
  using find_matching by (auto simp: find_Some_iff)

lemma find_reordered:
  "set tab' = set tab \<Longrightarrow> find (\<lambda>e. matches (pat e) b) tab' = find (\<lambda>e. matches (pat e) b) tab"
proof (cases "find (\<lambda>e. matches (pat e) b) tab'")
  case None
  assume "set tab' = set tab"
  with None have "find (\<lambda>e. matches (pat e) b) tab = None" by (simp add: find_None_iff)
  with None show ?thesis by simp
next
  case (Some d)
  assume "set tab' = set tab"
  with Some have "d \<in> set tab" "matches (pat d) b" by (auto simp: find_Some_iff)
  then have "find (\<lambda>e. matches (pat e) b) tab = Some d" by (rule find_matching)
  with Some show ?thesis by simp
qed

end

text \<open>
  Two patterns exclude each other when some bit is fixed by both, to different values. The
  check runs on the patterns written as lists of fixed and free bits.
\<close>

fun clash :: "bool option list \<Rightarrow> bool option list \<Rightarrow> bool" where
  "clash (Some a # xs) (Some b # ys) = (a \<noteq> b \<or> clash xs ys)"
| "clash (None # xs) (y # ys) = clash xs ys"
| "clash (x # xs) (None # ys) = clash xs ys"
| "clash _ _ = False"

definition trits :: "pattern \<Rightarrow> bool option list" where
  "trits p = map (\<lambda>i. if bit (snd p) i then Some (bit (fst p) i) else None) [0..<32]"

fun all_clash :: "bool option list list \<Rightarrow> bool" where
  "all_clash [] = True"
| "all_clash (x # xs) = (list_all (clash x) xs \<and> all_clash xs)"

lemma patterns_clash: "all_clash (map trits patterns)"
  apply (simp add: patterns_def trits_def pat_defs upt_rec del: all_clash.simps)
  apply code_simp
  done

lemma clash_nth:
  "clash xs ys \<Longrightarrow> \<exists>i a b. i < length xs \<and> i < length ys \<and> xs ! i = Some a \<and> ys ! i = Some b \<and> a \<noteq> b"
proof (induction xs ys rule: clash.induct)
  case (1 a xs b ys)
  show ?case
  proof (cases "a = b")
    case False
    then show ?thesis by (intro exI [of _ 0]) auto
  next
    case True
    with 1 obtain i c d where "i < length xs" "i < length ys" "xs ! i = Some c" "ys ! i = Some d" "c \<noteq> d"
      by auto
    then show ?thesis by (intro exI [of _ "Suc i"]) auto
  qed
next
  case (2 xs y ys)
  then obtain i c d where "i < length xs" "i < length ys" "xs ! i = Some c" "ys ! i = Some d" "c \<noteq> d"
    by auto
  then show ?case by (intro exI [of _ "Suc i"]) auto
next
  case (3 v xs ys)
  then obtain i c d where "i < length xs" "i < length ys" "xs ! i = Some c" "ys ! i = Some d" "c \<noteq> d"
    by auto
  then show ?case by (intro exI [of _ "Suc i"]) auto
qed auto

lemma clash_exclusive:
  assumes "clash (trits p) (trits q)"
  shows "\<not> (matches p b \<and> matches q b)"
proof
  assume m: "matches p b \<and> matches q b"
  obtain i where i: "bit (snd p) i" "bit (snd q) i" "bit (fst p) i \<noteq> bit (fst q) i"
    using clash_nth [OF assms] by (auto simp: trits_def split: if_splits)
  from m have "bit (b AND snd p) i = bit (fst p) i" "bit (b AND snd q) i = bit (fst q) i"
    by (simp_all add: matches_def)
  with i show False by (simp add: bit_simps)
qed

lemma all_clash_exclusive:
  "all_clash (map (trits \<circ> pat) ds) \<Longrightarrow>
   sorted_wrt (\<lambda>d e. \<forall>b. \<not> (matches (pat d) b \<and> matches (pat e) b)) ds"
  by (induction ds) (auto simp: list_all_iff dest: clash_exclusive)

lemma patterns_satisfiable: "p \<in> set patterns \<Longrightarrow> matches p (fst p)"
  by (auto simp: patterns_def matches_def pat_defs)

end
