(* ===== verification/Mmu.thy ===== *)
theory Mmu
  imports Structs
begin

unbundle bit_operations_syntax

text \<open>
  The memory unit \<^verbatim>\<open>mmu_t\<close> of \<^verbatim>\<open>mmu.h\<close> and \<^verbatim>\<open>mmu.cpp\<close>: a sparse byte memory, a table of address
  ranges that must not be written, and the loads and stores of the instructions.

  \<^verbatim>\<open>read\<close>, \<^verbatim>\<open>write\<close> and \<^verbatim>\<open>write_bare\<close> test \<^verbatim>\<open>iter != mem.end() || iter->first == cur_addr\<close>, so for
  an address that is not mapped they look at the key of the past-the-end iterator, and when it
  happens to equal the address they use its value as the byte. C++ gives no meaning to that
  access. The model leaves open what it finds: the field \<open>end_first\<close> gives the key seen there,
  as a function of the map's contents, and \<open>end_second\<close> is the byte behind it. (With the GNU
  library the key is the number of mapped bytes and the byte is one no other code uses.)
\<close>

subsection \<open>State\<close>

record mmu_t =
  mem :: "u64 \<rightharpoonup> u8"
  forbid :: "(u64 \<times> u64) list"
  entry :: u64
  end_first :: "(u64 \<rightharpoonup> u8) \<Rightarrow> u64"
  end_second :: u8

definition ban :: "mmu_t \<Rightarrow> u64 \<Rightarrow> bool" where
  "ban m addr = list_ex (\<lambda>(lo, hi). addr \<ge> lo \<and> addr \<le> hi) (forbid m)"

text \<open>The byte an access to one address sees, and the effect of storing one byte.\<close>

definition find_it :: "mmu_t \<Rightarrow> u64 \<Rightarrow> u8 option" where
  "find_it m cur_addr =
     (case mem m cur_addr of
        Some b \<Rightarrow> Some b
      | None \<Rightarrow> if end_first m (mem m) = cur_addr then Some (end_second m) else None)"

definition store_it :: "mmu_t \<Rightarrow> u64 \<Rightarrow> u8 \<Rightarrow> mmu_t" where
  "store_it m cur_addr b =
     (if mem m cur_addr = None \<and> end_first m (mem m) = cur_addr
      then m\<lparr>end_second := b\<rparr>
      else m\<lparr>mem := (mem m)(cur_addr \<mapsto> b)\<rparr>)"

subsection \<open>Loads\<close>

fun read_loop :: "mmu_t \<Rightarrow> nat \<Rightarrow> u64 \<Rightarrow> u64 \<Rightarrow> nat \<Rightarrow> u64" where
  "read_loop m 0 cur_addr retval shift = retval"
| "read_loop m (Suc i) cur_addr retval shift =
     (case find_it m cur_addr of
        Some b \<Rightarrow> read_loop m i (cur_addr + 1) (retval OR push_bit shift (ucast b)) (shift + 8)
      | None \<Rightarrow> read_loop m i (cur_addr + 1) retval shift)"

definition sign_masks :: "nat \<Rightarrow> u64 \<times> u64" where
  "sign_masks len =
     (if len = 1 then (0x80, 0xFFFFFFFFFFFFFF00)
      else if len = 2 then (0x8000, 0xFFFFFFFFFFFF0000)
      else if len = 4 then (0x80000000, 0xFFFFFFFF00000000)
      else (0, 0))"

definition mmu_read :: "mmu_t \<Rightarrow> u64 \<Rightarrow> bool \<Rightarrow> nat \<Rightarrow> u64" where
  "mmu_read m addr sign len =
     (let retval = read_loop m len addr 0 0
      in if sign
         then (let (sign_mask, ext_mask) = sign_masks len
               in if retval AND sign_mask \<noteq> 0 then retval OR ext_mask else retval)
         else retval)"

definition read_int8 :: "mmu_t \<Rightarrow> u64 \<Rightarrow> u64" where
  "read_int8 m addr = mmu_read m addr True 1"

definition read_uint8 :: "mmu_t \<Rightarrow> u64 \<Rightarrow> u64" where
  "read_uint8 m addr = mmu_read m addr False 1"

definition read_int16 :: "mmu_t \<Rightarrow> u64 \<Rightarrow> u64" where
  "read_int16 m addr = mmu_read m addr True 2"

definition read_uint16 :: "mmu_t \<Rightarrow> u64 \<Rightarrow> u64" where
  "read_uint16 m addr = mmu_read m addr False 2"

definition read_int32 :: "mmu_t \<Rightarrow> u64 \<Rightarrow> u64" where
  "read_int32 m addr = mmu_read m addr True 4"

definition read_uint32 :: "mmu_t \<Rightarrow> u64 \<Rightarrow> u64" where
  "read_uint32 m addr = mmu_read m addr False 4"

definition read_int64 :: "mmu_t \<Rightarrow> u64 \<Rightarrow> u64" where
  "read_int64 m addr = mmu_read m addr True 8"

definition read_uint64 :: "mmu_t \<Rightarrow> u64 \<Rightarrow> u64" where
  "read_uint64 m addr = mmu_read m addr False 8"

text \<open>
  \<^verbatim>\<open>load_insn\<close> shifts each byte as a 32-bit \<^verbatim>\<open>int\<close> before it is converted to 64 bits, so a fourth
  byte with its top bit set extends into the upper half.
\<close>

fun load_insn_loop :: "mmu_t \<Rightarrow> u64 \<Rightarrow> nat \<Rightarrow> u64 \<Rightarrow> u64 \<Rightarrow> nat \<Rightarrow> exn + u64" where
  "load_insn_loop m PC 0 cur_addr retval shift = Inr retval"
| "load_insn_loop m PC (Suc i) cur_addr retval shift =
     (case mem m cur_addr of
        Some b \<Rightarrow> load_insn_loop m PC i (cur_addr + 1)
                    (retval OR scast (push_bit shift (ucast b :: u32))) (shift + 8)
      | None \<Rightarrow> Inl (invalid_address PC cur_addr))"

definition load_insn :: "mmu_t \<Rightarrow> u64 \<Rightarrow> exn + u64" where
  "load_insn m PC = load_insn_loop m PC 4 PC 0 0"

subsection \<open>Stores\<close>

fun write_loop :: "nat \<Rightarrow> u64 \<Rightarrow> u64 \<Rightarrow> mmu_t \<Rightarrow> mmu_t" where
  "write_loop 0 cur_addr val m = m"
| "write_loop (Suc i) cur_addr val m =
     write_loop i (cur_addr + 1) (drop_bit 8 val) (store_it m cur_addr (ucast (val AND 0xFF)))"

definition mmu_write :: "mmu_t \<Rightarrow> u64 \<Rightarrow> u64 \<Rightarrow> nat \<Rightarrow> exn + mmu_t" where
  "mmu_write m addr REG len =
     (if ban m addr \<or> ban m (addr + of_nat len - 1)
      then Inl (no_permission addr (addr + of_nat len - 1))
      else Inr (write_loop len addr REG m))"

text \<open>\<^verbatim>\<open>write_bare\<close> copies \<open>len\<close> bytes of a host object, here the list \<open>val\<close> of those bytes.\<close>

fun write_bare_loop :: "u64 \<Rightarrow> u8 list \<Rightarrow> mmu_t \<Rightarrow> mmu_t" where
  "write_bare_loop cur_addr [] m = m"
| "write_bare_loop cur_addr (b # bs) m = write_bare_loop (cur_addr + 1) bs (store_it m cur_addr b)"

definition write_bare :: "mmu_t \<Rightarrow> u64 \<Rightarrow> u8 list \<Rightarrow> nat \<Rightarrow> exn + mmu_t" where
  "write_bare m addr val len =
     (if ban m addr \<or> ban m (addr + of_nat len - 1)
      then Inl (no_permission addr (addr + of_nat len - 1))
      else Inr (write_bare_loop addr (take len val) m))"

definition write_8 :: "mmu_t \<Rightarrow> u64 \<Rightarrow> u64 \<Rightarrow> exn + mmu_t" where
  "write_8 m addr REG = mmu_write m addr REG 1"

definition write_16 :: "mmu_t \<Rightarrow> u64 \<Rightarrow> u64 \<Rightarrow> exn + mmu_t" where
  "write_16 m addr REG = mmu_write m addr REG 2"

definition write_32 :: "mmu_t \<Rightarrow> u64 \<Rightarrow> u64 \<Rightarrow> exn + mmu_t" where
  "write_32 m addr REG = mmu_write m addr REG 4"

definition write_64 :: "mmu_t \<Rightarrow> u64 \<Rightarrow> u64 \<Rightarrow> exn + mmu_t" where
  "write_64 m addr REG = mmu_write m addr REG 8"

lemmas read_defs = read_int8_def read_uint8_def read_int16_def read_uint16_def
  read_int32_def read_uint32_def read_int64_def read_uint64_def

lemmas write_defs = write_8_def write_16_def write_32_def write_64_def

subsection \<open>The addresses of an access and the bytes found there\<close>

definition addrs :: "u64 \<Rightarrow> nat \<Rightarrow> u64 list" where
  "addrs a n = map (\<lambda>i. a + of_nat i) [0..<n]"

definition found :: "mmu_t \<Rightarrow> u64 \<Rightarrow> nat \<Rightarrow> u8 list" where
  "found m a n = List.map_filter (find_it m) (addrs a n)"

lemma addrs_0 [simp]: "addrs a 0 = []"
  by (simp add: addrs_def)

lemma addrs_Suc [simp]: "addrs a (Suc n) = a # addrs (a + 1) n"
  unfolding addrs_def by (rule nth_equalityI) (auto simp: nth_Cons' of_nat_diff simp del: upt_Suc)

lemma found_0 [simp]: "found m a 0 = []"
  by (simp add: found_def List.map_filter_simps)

lemma found_Suc:
  "found m a (Suc n) = (case find_it m a of None \<Rightarrow> found m (a + 1) n | Some b \<Rightarrow> b # found m (a + 1) n)"
  by (simp add: found_def List.map_filter_simps split: option.split)

lemma length_found: "length (found m a n) \<le> n"
proof (induction n arbitrary: a)
  case (Suc n)
  show ?case using Suc [of "a + 1"] by (auto simp: found_Suc split: option.split)
qed simp

lemma found_mapped: "(\<And>i. i < n \<Longrightarrow> mem m (a + of_nat i) = Some (bs ! i)) \<Longrightarrow> length bs = n \<Longrightarrow>
  found m a n = bs"
proof (induction n arbitrary: a bs)
  case (Suc n)
  then obtain b bs' where bs: "bs = b # bs'" by (cases bs) auto
  have "found m (a + 1) n = bs'"
    using Suc.prems(1) [of "Suc i" for i] Suc.prems(2) bs
    by (intro Suc.IH) (auto simp: add.assoc)
  then show ?case using Suc.prems(1) [of 0] bs by (simp add: found_Suc find_it_def)
qed simp

subsection \<open>Loads assemble the bytes found, lowest first\<close>

lemma read_loop_found: "read_loop m n a r s = r OR push_bit s (le_join (found m a n))"
proof (induction n arbitrary: a r s)
  case (Suc n)
  show ?case
  proof (cases "find_it m a")
    case None
    then show ?thesis by (simp add: Suc.IH found_Suc)
  next
    case (Some b)
    have "push_bit (s + 8) x = push_bit s (push_bit 8 x)" for x :: u64
      by (simp add: push_bit_push_bit add.commute)
    with Some show ?thesis by (simp add: Suc.IH found_Suc or.assoc push_bit_or)
  qed
qed simp

lemma bit_le_join: "bit (le_join bs) n \<Longrightarrow> n < 8 * length bs"
proof (induction bs arbitrary: n)
  case (Cons c cs)
  then show ?case by (fastforce simp: bit_simps dest: bit_u8_lt)
qed simp

lemma sign_extend_or:
  fixes x :: u64
  assumes "0 < k" "k < 64" "\<And>n. bit x n \<Longrightarrow> n < k"
  shows "(if x AND 2 ^ (k - 1) \<noteq> 0 then x OR NOT (mask k) else x) = signed_take_bit (k - 1) x"
proof -
  have "x AND 2 ^ (k - 1) = 0 \<longleftrightarrow> \<not> bit x (k - 1)"
    using bit_iff_and_push_bit_not_eq_0 [of x "k - 1"] by (simp add: push_bit_eq_mult)
  moreover have "bit x n \<Longrightarrow> n \<le> k - 1" "n < k \<longleftrightarrow> n \<le> k - 1" for n
    using assms(1) assms(3) [of n] by auto
  ultimately show ?thesis
    using assms(1,2) by (intro word64_eqI) (auto simp: bit_simps min_def dest: le_antisym)
qed

lemma mmu_read_unsigned: "mmu_read m a False n = le_join (found m a n)"
  by (simp add: mmu_read_def read_loop_found)

lemma sign_masks_eq:
  "n \<in> {1, 2, 4} \<Longrightarrow> sign_masks n = (2 ^ (8 * n - 1), NOT (mask (8 * n)))"
  by (auto simp: sign_masks_def mask_eq_exp_minus_1)

lemma mmu_read_signed:
  assumes "n \<in> {1, 2, 4, 8}"
  shows "mmu_read m a True n = signed_take_bit (8 * n - 1) (le_join (found m a n))"
proof (cases "n = 8")
  case True
  then show ?thesis
    by (intro word64_eqI) (auto simp: mmu_read_def read_loop_found sign_masks_def bit_simps min_absorb2)
next
  case False
  with assms have n: "n \<in> {1, 2, 4}" by simp
  have "bit (le_join (found m a n)) i \<Longrightarrow> i < 8 * n" for i
    using bit_le_join length_found [of m a n] by fastforce
  with n show ?thesis
    by (subst sign_extend_or [symmetric])
      (auto simp: mmu_read_def read_loop_found sign_masks_eq)
qed

subsection \<open>Stores as puts of single bytes\<close>

lemma write_loop_put: "write_loop n a v m = put_list store_it m a (le_split n v)"
proof (induction n arbitrary: a v m)
  case (Suc n)
  have "(ucast (v AND 0xFF) :: u8) = ucast v"
  proof -
    have "(0xFF :: u64) = mask 8" by (simp add: mask_eq_exp_minus_1)
    then have "v AND 0xFF = take_bit 8 v" by (simp only: take_bit_eq_mask)
    then show ?thesis by (intro bit_word_eqI) (simp add: bit_simps)
  qed
  then show ?case by (simp add: Suc.IH)
qed simp

lemma write_bare_loop_put: "write_bare_loop a bs m = put_list store_it m a bs"
  by (induction a bs m rule: write_bare_loop.induct) auto

lemma store_it_keeps [simp]:
  "forbid (store_it m a b) = forbid m" "entry (store_it m a b) = entry m"
  "end_first (store_it m a b) = end_first m"
  by (simp_all add: store_it_def)

lemma put_list_keeps [simp]:
  "forbid (put_list store_it m a bs) = forbid m" "entry (put_list store_it m a bs) = entry m"
  "end_first (put_list store_it m a bs) = end_first m"
  by (induction bs arbitrary: m a) auto

text \<open>
  A set of addresses is clear when no key the past-the-end iterator may show, while only
  addresses of the set are added to the map, is an unmapped address of the set.
\<close>

definition mem_clear :: "mmu_t \<Rightarrow> u64 set \<Rightarrow> bool" where
  "mem_clear m A \<longleftrightarrow>
     (\<forall>M. dom (mem m) \<subseteq> dom M \<and> dom M \<subseteq> dom (mem m) \<union> A \<longrightarrow> end_first m M \<notin> A - dom M)"

lemma mem_clear_self: "mem_clear m A \<Longrightarrow> a \<in> A \<Longrightarrow> mem m a = None \<Longrightarrow> end_first m (mem m) \<noteq> a"
  unfolding mem_clear_def by (drule spec [of _ "mem m"]) auto

lemma store_it_clear: "mem_clear m A \<Longrightarrow> a \<in> A \<Longrightarrow> store_it m a b = m\<lparr>mem := (mem m)(a \<mapsto> b)\<rparr>"
  using mem_clear_self by (fastforce simp: store_it_def)

interpretation mbytes: byte_store mem store_it mem_clear
proof unfold_locales
  show "mem (store_it m a b) x = mem m x" if "x \<noteq> a" for x a m b
    using that by (simp add: store_it_def)
  show "mem (store_it m a b) a = Some b" if "mem_clear m A" "a \<in> A" for m A a b
    using that by (simp add: store_it_clear)
  show "mem_clear (store_it m a b) A" if c: "mem_clear m A" "a \<in> A" for m A a b
    unfolding store_it_clear [OF c] mem_clear_def
  proof (intro allI impI)
    fix M :: "u64 \<rightharpoonup> u8"
    assume "dom (mem (m\<lparr>mem := (mem m)(a \<mapsto> b)\<rparr>)) \<subseteq> dom M
      \<and> dom M \<subseteq> dom (mem (m\<lparr>mem := (mem m)(a \<mapsto> b)\<rparr>)) \<union> A"
    then have "dom (mem m) \<subseteq> dom M \<and> dom M \<subseteq> dom (mem m) \<union> A" using c(2) by auto
    with c(1) show "end_first (m\<lparr>mem := (mem m)(a \<mapsto> b)\<rparr>) M \<notin> A - dom M"
      unfolding mem_clear_def by simp
  qed
qed

lemma write_loop_out: "n \<le> 8 \<Longrightarrow> x \<notin> span a n \<Longrightarrow> mem (write_loop n a v m) x = mem m x"
  unfolding write_loop_put by (rule mbytes.get_put_list_out) auto

lemma mmu_write_ok: "mmu_write m a v n = Inr m' \<longleftrightarrow>
    \<not> ban m a \<and> \<not> ban m (a + of_nat n - 1) \<and> m' = write_loop n a v m"
  by (auto simp: mmu_write_def)

lemma mmu_write_keeps [simp]:
  assumes "mmu_write m a v n = Inr m'"
  shows "forbid m' = forbid m" "entry m' = entry m" "end_first m' = end_first m"
  using assms by (auto simp: mmu_write_ok write_loop_put)

text \<open>
  C5: a store of 1, 2, 4 or 8 bytes that is permitted, to addresses that are clear, is read
  back: the unsigned load of the same width gives the stored bits, the signed load their sign
  extension, the bytes in memory are the little-endian bytes of the value, and no other
  address changes.
\<close>

theorem store_load_roundtrip:
  assumes w: "mmu_write m a v n = Inr m'" and n: "n \<in> {1, 2, 4, 8}"
    and c: "mem_clear m (span a n)"
  shows "mmu_read m' a False n = take_bit (8 * n) v
    \<and> mmu_read m' a True n = signed_take_bit (8 * n - 1) v
    \<and> (\<forall>i < n. mem m' (a + of_nat i) = Some (ucast (drop_bit (8 * i) v)))
    \<and> (\<forall>x. x \<notin> span a n \<longrightarrow> mem m' x = mem m x)"
proof -
  have m': "m' = put_list store_it m a (le_split n v)"
    using w by (simp add: mmu_write_ok write_loop_put)
  have bytes: "mem m' (a + of_nat i) = Some (le_split n v ! i)" if "i < n" for i
    unfolding m' using c n that by (intro mbytes.get_put_list_in [of m "span a n"]) auto
  have "found m' a n = le_split n v" using bytes by (intro found_mapped) auto
  then have "le_join (found m' a n) = take_bit (8 * n) v" by (simp add: le_join_le_split)
  moreover have "signed_take_bit (8 * n - 1) (take_bit (8 * n) v) = signed_take_bit (8 * n - 1) v"
    using n by (intro word64_eqI) (auto simp: bit_simps min_def)
  moreover have "n \<le> 8" using n by auto
  ultimately show ?thesis
    using n bytes w
    by (simp add: mmu_read_unsigned mmu_read_signed le_split_nth mmu_write_ok write_loop_out)
qed

text \<open>A unit with two mapped bytes and one protected range, at which the theorems are applied.\<close>

definition demo_unit :: mmu_t where
  "demo_unit = \<lparr>mem = [0 \<mapsto> 0x13, 0x2000 \<mapsto> 0x55], forbid = [(0x2000, 0x20ff)], entry = 0,
     end_first = (\<lambda>_. 7), end_second = 0\<rparr>"

theorem store_load_roundtrip_witness:
  "\<exists>m'. mmu_write demo_unit 0x10 0x12FE 2 = Inr m' \<and> mmu_read m' 0x10 False 2 = 0x12FE"
proof -
  have "mmu_write demo_unit 0x10 0x12FE 2 = Inr (write_loop 2 0x10 0x12FE demo_unit)"
    by (simp add: mmu_write_def ban_def demo_unit_def)
  moreover have "mem_clear demo_unit (span 0x10 2)"
    by (simp add: mem_clear_def demo_unit_def span_def)
  ultimately show ?thesis
    using store_load_roundtrip [of demo_unit "0x10" "0x12FE" 2 "write_loop 2 0x10 0x12FE demo_unit"]
    by simp
qed



text \<open>
  The addresses of an access are clear, with the GNU library's key, when they lie above the
  number of bytes that will be mapped after it.
\<close>

lemma card_span: "n \<le> 8 \<Longrightarrow> finite (span a n) \<and> card (span a n) \<le> n"
proof (induction n arbitrary: a)
  case (Suc n)
  then have "finite (span (a + 1) n)" "card (span (a + 1) n) \<le> n" by simp_all
  moreover have "card (insert a (span (a + 1) n)) \<le> Suc (card (span (a + 1) n))"
    by (rule card_insert_le_m1) simp_all
  ultimately show ?case using Suc.prems by (simp add: span_Suc)
qed simp

lemma gnu_mem_clear:
  assumes "end_first m = (\<lambda>M. of_nat (card (dom M)))" "finite (dom (mem m))" "n \<le> 8"
    and "\<And>x. x \<in> span a n \<Longrightarrow> card (dom (mem m)) + n < unat x"
  shows "mem_clear m (span a n)"
proof -
  have "(of_nat (card (dom M)) :: u64) \<notin> span a n" if M: "dom M \<subseteq> dom (mem m) \<union> span a n" for M :: "u64 \<rightharpoonup> u8"
  proof
    assume x: "(of_nat (card (dom M)) :: u64) \<in> span a n"
    have "card (dom M) \<le> card (dom (mem m) \<union> span a n)"
      using M assms(2) card_span [OF assms(3)] by (intro card_mono) simp_all
    also have "\<dots> \<le> card (dom (mem m)) + card (span a n)" by (rule card_Un_le)
    also have "\<dots> \<le> card (dom (mem m)) + n" using card_span [OF assms(3)] by simp
    finally have "card (dom M) < unat (of_nat (card (dom M)) :: u64)" using assms(4) [OF x] by simp
    then show False by (simp add: unat_of_nat not_less)
  qed
  then show ?thesis by (auto simp: mem_clear_def assms(1))
qed

subsection \<open>Instruction fetch\<close>

definition holds_insn :: "mmu_t \<Rightarrow> u64 \<Rightarrow> u32 \<Rightarrow> bool" where
  "holds_insn m PC w \<longleftrightarrow> mem m PC = Some (ucast w) \<and> mem m (PC + 1) = Some (ucast (drop_bit 8 w))
     \<and> mem m (PC + 2) = Some (ucast (drop_bit 16 w)) \<and> mem m (PC + 3) = Some (ucast (drop_bit 24 w))"

definition word_of_bytes :: "u8 \<Rightarrow> u8 \<Rightarrow> u8 \<Rightarrow> u8 \<Rightarrow> u32" where
  "word_of_bytes b0 b1 b2 b3 = ucast b0 OR push_bit 8 (ucast b1) OR push_bit 16 (ucast b2)
     OR push_bit 24 (ucast b3)"

lemma word_of_bytes_parts:
  "ucast (word_of_bytes b0 b1 b2 b3) = b0" "ucast (drop_bit 8 (word_of_bytes b0 b1 b2 b3)) = b1"
  "ucast (drop_bit 16 (word_of_bytes b0 b1 b2 b3)) = b2"
  "ucast (drop_bit 24 (word_of_bytes b0 b1 b2 b3)) = b3"
  by (rule bit_word_eqI; auto simp: word_of_bytes_def bit_simps dest: bit_u8_lt)+

lemma word_of_bytes_word:
  "word_of_bytes (ucast w) (ucast (drop_bit 8 w)) (ucast (drop_bit 16 w)) (ucast (drop_bit 24 w)) = w"
proof (rule word32_eqI)
  fix n :: nat assume "n < 32"
  moreover have "16 \<le> n \<Longrightarrow> 16 + (n - 16) = n" "24 \<le> n \<Longrightarrow> 24 + (n - 24) = n" by simp_all
  ultimately show "bit (word_of_bytes (ucast w) (ucast (drop_bit 8 w)) (ucast (drop_bit 16 w))
      (ucast (drop_bit 24 w))) n = bit w n"
    by (cases "n < 16"; cases "n < 24") (auto simp: word_of_bytes_def bit_simps)
qed

lemma holds_insn_iff:
  "holds_insn m PC w \<longleftrightarrow> (\<exists>b0 b1 b2 b3. mem m PC = Some b0 \<and> mem m (PC + 1) = Some b1
     \<and> mem m (PC + 2) = Some b2 \<and> mem m (PC + 3) = Some b3 \<and> w = word_of_bytes b0 b1 b2 b3)"
  by (auto simp: holds_insn_def word_of_bytes_parts word_of_bytes_word)

lemma fetch_value:
  "0 OR scast (push_bit 0 (ucast b0 :: u32)) OR scast (push_bit 8 (ucast b1 :: u32))
    OR scast (push_bit 16 (ucast b2 :: u32)) OR scast (push_bit 24 (ucast b3 :: u32))
   = (scast (word_of_bytes b0 b1 b2 b3) :: u64)"
  by (rule word64_eqI) (auto simp: word_of_bytes_def bit_simps min_def)

lemma load_insn_unfold:
  "load_insn m PC =
     (case mem m PC of None \<Rightarrow> Inl (invalid_address PC PC) | Some b0 \<Rightarrow>
     (case mem m (PC + 1) of None \<Rightarrow> Inl (invalid_address PC (PC + 1)) | Some b1 \<Rightarrow>
     (case mem m (PC + 2) of None \<Rightarrow> Inl (invalid_address PC (PC + 2)) | Some b2 \<Rightarrow>
     (case mem m (PC + 3) of None \<Rightarrow> Inl (invalid_address PC (PC + 3)) | Some b3 \<Rightarrow>
        Inr (scast (word_of_bytes b0 b1 b2 b3))))))"
  unfolding load_insn_def fetch_value [symmetric]
  by (simp add: eval_nat_numeral or.assoc add.assoc split: option.splits)

text \<open>
  C18: an instruction fetch succeeds exactly when the four bytes from the program counter on
  are mapped, and then returns the 32-bit little-endian word they hold sign-extended to 64
  bits; otherwise it throws \<open>invalid_address\<close> naming the first of the four addresses that is
  not mapped.
\<close>

theorem fetch_correct:
  "(load_insn m PC = Inr b \<longleftrightarrow> (\<exists>w. holds_insn m PC w \<and> b = scast w))
   \<and> (load_insn m PC = Inl e \<longleftrightarrow> (\<exists>i < 4. e = invalid_address PC (PC + of_nat i)
        \<and> mem m (PC + of_nat i) = None \<and> (\<forall>j < i. mem m (PC + of_nat j) \<noteq> None)))"
proof
  show "load_insn m PC = Inr b \<longleftrightarrow> (\<exists>w. holds_insn m PC w \<and> b = scast w)"
    unfolding load_insn_unfold holds_insn_iff by (auto split: option.splits)
  have ex4: "(\<exists>i < 4. P i) \<longleftrightarrow> P 0 \<or> P 1 \<or> P 2 \<or> P 3" for P :: "nat \<Rightarrow> bool"
    by (auto simp: less_Suc_eq numeral_eq_Suc)
  have all: "(\<forall>j < 1. P j) \<longleftrightarrow> P 0" "(\<forall>j < 2. P j) \<longleftrightarrow> P 0 \<and> P 1"
    "(\<forall>j < 3. P j) \<longleftrightarrow> P 0 \<and> P 1 \<and> P 2" for P :: "nat \<Rightarrow> bool"
    by (auto simp: less_Suc_eq numeral_eq_Suc)
  show "load_insn m PC = Inl e \<longleftrightarrow> (\<exists>i < 4. e = invalid_address PC (PC + of_nat i)
        \<and> mem m (PC + of_nat i) = None \<and> (\<forall>j < i. mem m (PC + of_nat j) \<noteq> None))"
    unfolding load_insn_unfold ex4 all by (auto split: option.splits)
qed

theorem fetch_correct_witness:
  "load_insn demo_unit 0 = Inl (invalid_address 0 1)
   \<and> (\<exists>w. holds_insn (demo_unit\<lparr>mem := \<lambda>_. Some 1\<rparr>) 0 w
        \<and> load_insn (demo_unit\<lparr>mem := \<lambda>_. Some 1\<rparr>) 0 = Inr (scast w))"
proof
  have "\<exists>i < 4. invalid_address 0 1 = invalid_address 0 (0 + of_nat i)
      \<and> mem demo_unit (0 + of_nat i) = None \<and> (\<forall>j < i. mem demo_unit (0 + of_nat j) \<noteq> None)"
    by (rule exI [of _ 1]) (simp add: demo_unit_def)
  then show "load_insn demo_unit 0 = Inl (invalid_address 0 1)"
    using fetch_correct [of demo_unit 0 0 "invalid_address 0 1"] by blast
  have "holds_insn (demo_unit\<lparr>mem := \<lambda>_. Some 1\<rparr>) 0 0x01010101" by (simp add: holds_insn_def)
  then show "\<exists>w. holds_insn (demo_unit\<lparr>mem := \<lambda>_. Some 1\<rparr>) 0 w
      \<and> load_insn (demo_unit\<lparr>mem := \<lambda>_. Some 1\<rparr>) 0 = Inr (scast w)"
    by (auto simp: load_insn_unfold holds_insn_iff)
qed

lemma load_insn_holds: "holds_insn m PC w \<Longrightarrow> load_insn m PC = Inr (scast w)"
  by (simp add: load_insn_unfold holds_insn_def word_of_bytes_word)

subsection \<open>Protection\<close>

lemma ban_iff: "ban m x \<longleftrightarrow> (\<exists>(lo, hi) \<in> set (forbid m). lo \<le> x \<and> x \<le> hi)"
  by (auto simp: ban_def list_ex_iff)

lemma banI: "(lo, hi) \<in> set (forbid m) \<Longrightarrow> lo \<le> x \<Longrightarrow> x \<le> hi \<Longrightarrow> ban m x"
  by (force simp: ban_iff)

text \<open>
  A run of \<open>n\<close> addresses that meets an interval of at least \<open>n - 1\<close> addresses has an end
  point in it, also when the run wraps around.
\<close>

lemma unat_diff: "unat (x - y) = (if unat y \<le> unat x then unat x - unat y
  else unat x + 2 ^ 64 - unat y)" for x y :: u64
  using unat_sub_if' [of x y] by simp

lemma interval_nat:
  fixes A X E lo hi i n M :: nat
  assumes "A \<le> X \<and> i + A = X \<or> X < A \<and> i + A = X + M"
    and "X \<le> E \<and> k + X = E \<or> E < X \<and> k + X = E + M"
    and "i + k < 8" "A < M" "hi < M" "E < M" "lo \<le> X" "X \<le> hi" "lo + 6 \<le> hi"
  shows "lo \<le> A \<and> A \<le> hi \<or> lo \<le> E \<and> E \<le> hi"
proof (rule ccontr)
  assume "\<not> ?thesis"
  then have "(A < lo \<or> hi < A) \<and> (E < lo \<or> hi < E)" by auto
  with assms show False by linarith
qed

lemma span_meets_interval:
  assumes x: "x \<in> span a n" "lo \<le> x" "x \<le> hi" and n: "n \<le> 8"
    and size: "6 \<le> unat hi - unat lo"
  shows "(lo \<le> a \<and> a \<le> hi) \<or> (lo \<le> a + of_nat n - 1 \<and> a + of_nat n - 1 \<le> hi)"
proof -
  define e where "e = a + of_nat n - 1"
  define i where "i = unat (x - a)"
  have i: "i < n" using x(1) by (simp add: span_def i_def)
  have "of_nat i = x - a" by (simp add: i_def)
  moreover have "of_nat (n - 1 - i) = (of_nat n - 1 - of_nat i :: u64)"
    using i by (simp add: of_nat_diff)
  ultimately have "e - x = of_nat (n - 1 - i)" by (simp add: e_def)
  then have ex: "unat (e - x) = n - 1 - i"
    using n by (simp add: unat_of_nat take_bit_nat_eq_self)
  have A: "unat a \<le> unat x \<and> i + unat a = unat x \<or> unat x < unat a \<and> i + unat a = unat x + 2 ^ 64"
    using unat_u64_lt [of a] by (simp add: i_def unat_diff)
  have E: "unat x \<le> unat e \<and> n - 1 - i + unat x = unat e
      \<or> unat e < unat x \<and> n - 1 - i + unat x = unat e + 2 ^ 64"
    unfolding ex [symmetric] using unat_u64_lt [of x] by (simp add: unat_diff)
  have "unat lo \<le> unat a \<and> unat a \<le> unat hi \<or> unat lo \<le> unat e \<and> unat e \<le> unat hi"
  proof (rule interval_nat [OF A E])
    show "i + (n - 1 - i) < 8" using i n by simp
    show "unat lo \<le> unat x" "unat x \<le> unat hi" using x by (simp_all add: word_le_nat_alt)
    show "unat lo + 6 \<le> unat hi" using size by linarith
  qed (rule unat_u64_lt)+
  then show ?thesis unfolding e_def by (simp add: word_le_nat_alt)
qed

lemma unbanned_span_misses:
  assumes "\<not> ban m a" "\<not> ban m (a + of_nat n - 1)" "n \<le> 8"
    and "(lo, hi) \<in> set (forbid m)" "6 \<le> unat hi - unat lo" "lo \<le> x" "x \<le> hi"
  shows "x \<notin> span a n"
proof
  assume "x \<in> span a n"
  from span_meets_interval [OF this assms(6,7,3,5)] have "ban m a \<or> ban m (a + of_nat n - 1)"
    using banI [OF assms(4)] by blast
  with assms(1,2) show False by blast
qed

text \<open>
  No permitted store of at most eight bytes changes a byte of a protected range that is
  at least seven bytes long, although only the first and the last address of the store are
  compared with the table. This holds for the stores of the instructions and for
  \<^verbatim>\<open>write_bare\<close>.
\<close>

theorem protected_bytes_kept:
  assumes "mmu_write m a v n = Inr m' \<or> write_bare m a bs n = Inr m'" "n \<le> 8"
    and "(lo, hi) \<in> set (forbid m)" "6 \<le> unat hi - unat lo" "lo \<le> x" "x \<le> hi"
  shows "mem m' x = mem m x"
proof -
  have "\<not> ban m a \<and> \<not> ban m (a + of_nat n - 1)"
    using assms(1) by (auto simp: mmu_write_def write_bare_def split: if_splits)
  with assms(2-) have x: "x \<notin> span a n" by (intro unbanned_span_misses) auto
  show ?thesis using assms(1)
  proof
    assume "mmu_write m a v n = Inr m'"
    with x assms(2) show ?thesis by (simp add: mmu_write_ok write_loop_out)
  next
    assume "write_bare m a bs n = Inr m'"
    moreover have "x \<notin> span a (length (take n bs))" using x by (auto simp: span_def)
    ultimately show ?thesis using assms(2)
      by (auto simp: write_bare_def write_bare_loop_put mbytes.get_put_list_out split: if_splits)
  qed
qed

theorem protected_bytes_kept_witness:
  "\<exists>m'. mmu_write demo_unit 0x1ff8 (- 1) 8 = Inr m' \<and> mem m' 0x2000 = Some 0x55"
proof -
  have w: "mmu_write demo_unit 0x1ff8 (- 1) 8 = Inr (write_loop 8 0x1ff8 (- 1) demo_unit)"
    by (simp add: mmu_write_def ban_def demo_unit_def)
  have "(0x2000, 0x20ff) \<in> set (forbid demo_unit)" by (simp add: demo_unit_def)
  with protected_bytes_kept [OF disjI1, OF w, of "0x2000" "0x20ff" "0x2000"] w
  show ?thesis by (simp add: demo_unit_def)
qed

definition short_unit :: mmu_t where
  "short_unit = demo_unit\<lparr>mem := \<lambda>_. Some 0, forbid := [(0x3000, 0x3005)]\<rparr>"



end
