(* ===== verification/Machine.thy ===== *)
theory Machine
  imports Mmu "HOL-Library.List_Lexorder" "HOL-Library.Char_ord" "HOL-Library.AList"
begin

unbundle bit_operations_syntax

text \<open>
  The state the instructions work on: \<^verbatim>\<open>state_t\<close> with the program counter and the two register
  files, the memory unit, and the fields of \<^verbatim>\<open>cpu_t\<close> (\<^verbatim>\<open>cpu.h\<close>), with the register macros of
  \<^verbatim>\<open>structs.h\<close> that read and write it; the instruction counters of the \<^verbatim>\<open>COUNT\<close> build, which is the
  one the Makefile selects; and what lies outside the program: the operating system and the
  floating-point unit of the host.
\<close>

subsection \<open>What the simulator does to the outside\<close>

text \<open>
  \<^verbatim>\<open>print_count\<close> lists the counters ordered by \<^verbatim>\<open>cmp\<close>: a higher count first, and among equal
  counts the larger name first. The order is an instance of the library's linear orders, so
  that \<^verbatim>\<open>std::sort\<close> is the library's sort.
\<close>

datatype count_item = Item (item_name: string) (item_count: u32)

definition cmp :: "count_item \<Rightarrow> count_item \<Rightarrow> bool" where
  "cmp a b = (if item_count a \<noteq> item_count b then item_count b <s item_count a
              else item_name a > item_name b)"

instantiation count_item :: linorder
begin

definition less_count_item :: "count_item \<Rightarrow> count_item \<Rightarrow> bool" where
  "less_count_item a b = cmp a b"

definition less_eq_count_item :: "count_item \<Rightarrow> count_item \<Rightarrow> bool" where
  "less_eq_count_item a b = (a = b \<or> cmp a b)"

instance
proof
  fix a b c :: count_item
  have eq: "a = b \<longleftrightarrow> item_name a = item_name b \<and> item_count a = item_count b" for a b
    by (auto intro: count_item.expand)
  have s: "x <s y \<longleftrightarrow> sint x < sint y" for x y :: u32 by (rule word_sless_alt)
  have i: "x = y \<longleftrightarrow> sint x = sint y" for x y :: u32 by (rule word_eq_iff_signed)
  note d = less_count_item_def less_eq_count_item_def cmp_def eq s i
  show "(a < b) = (a \<le> b \<and> \<not> b \<le> a)" by (auto simp: d)
  show "a \<le> a" by (simp add: d)
  show "a \<le> b \<Longrightarrow> b \<le> c \<Longrightarrow> a \<le> c" by (auto simp: d split: if_splits)
  show "a \<le> b \<Longrightarrow> b \<le> a \<Longrightarrow> a = b" by (auto simp: d split: if_splits)
  show "a \<le> b \<or> b \<le> a" by (auto simp: d)
qed

end

text \<open>
  Everything the simulated program makes the simulator do to the world, in order: host system
  calls and lines printed. The answers of the operating system are a parameter, each a
  function of what has happened before. A \<^verbatim>\<open>read\<close> fails or returns the bytes it placed in the
  buffer; \<^verbatim>\<open>gettimeofday\<close> returns its result and the bytes of the \<^verbatim>\<open>struct timeval\<close>.
\<close>

datatype event =
    HostWrite "u8 list"
  | HostRead u64
  | HostTime u64
  | HostFstat u32
  | HostGettimeofday
  | PrintIllegal u64
  | PrintUnknownCall u64
  | PrintCounts "count_item list"

record os_t =
  os_write :: "event list \<Rightarrow> u8 list \<Rightarrow> u64"
  os_read :: "event list \<Rightarrow> u64 \<Rightarrow> u8 list option"
  os_time :: "event list \<Rightarrow> u64 \<Rightarrow> u64"
  os_fstat :: "event list \<Rightarrow> u32 \<Rightarrow> u32"
  os_gettimeofday :: "event list \<Rightarrow> u32 \<times> u8 list"

text \<open>
  The host's floating-point operations on the bit patterns of \<^verbatim>\<open>double\<close> and \<^verbatim>\<open>float\<close>. C++ leaves
  the representation and the rounding of these types to the platform.
\<close>

record fpu_t =
  f64_add :: "u64 \<Rightarrow> u64 \<Rightarrow> u64"
  f64_sub :: "u64 \<Rightarrow> u64 \<Rightarrow> u64"
  f64_mul :: "u64 \<Rightarrow> u64 \<Rightarrow> u64"
  f64_div :: "u64 \<Rightarrow> u64 \<Rightarrow> u64"
  f64_muladd :: "u64 \<Rightarrow> u64 \<Rightarrow> u64 \<Rightarrow> u64"
  f64_eq :: "u64 \<Rightarrow> u64 \<Rightarrow> bool"
  f64_le :: "u64 \<Rightarrow> u64 \<Rightarrow> bool"
  f64_lt :: "u64 \<Rightarrow> u64 \<Rightarrow> bool"
  f64_rint :: "u64 \<Rightarrow> u64"
  f64_trunc :: "u64 \<Rightarrow> u64"
  f64_floor :: "u64 \<Rightarrow> u64"
  f64_ceil :: "u64 \<Rightarrow> u64"
  f64_of_u64 :: "u64 \<Rightarrow> u64"
  f64_of_i64 :: "u64 \<Rightarrow> u64"
  f64_of_i32 :: "u32 \<Rightarrow> u64"
  f64_to_i64 :: "u64 \<Rightarrow> u64"
  f64_to_i32 :: "u64 \<Rightarrow> u32"
  f64_to_u32 :: "u64 \<Rightarrow> u32"
  f64_to_f32 :: "u64 \<Rightarrow> u32"
  f32_add :: "u32 \<Rightarrow> u32 \<Rightarrow> u32"
  f32_sub :: "u32 \<Rightarrow> u32 \<Rightarrow> u32"
  f32_mul :: "u32 \<Rightarrow> u32 \<Rightarrow> u32"
  f32_div :: "u32 \<Rightarrow> u32 \<Rightarrow> u32"
  f32_of_i64 :: "u64 \<Rightarrow> u32"
  f32_of_i32 :: "u32 \<Rightarrow> u32"
  f32_to_f64 :: "u32 \<Rightarrow> u64"

subsection \<open>The machine\<close>

record state_t =
  state_pc :: u64
  XPR :: regs
  FPR :: regs
  fflags :: u32
  frm :: u32

text \<open>
  \<open>c_insn\<close> and \<open>c_name\<close> are the current instruction and the name in its descriptor; the
  descriptor's function is passed from the decoder to the execution directly. The registered
  instructions never change after construction and are a constant of the model. \<open>history\<close>
  is the list of events so far, latest first.
\<close>

record cpu_t =
  cpu_state :: state_t
  mmu :: mmu_t
  c_insn :: insn_t
  c_name :: string
  insn_count :: "(string \<times> u32) list"
  history :: "event list"

text \<open>Why the simulator stops: an exception nobody catches, or a call of \<^verbatim>\<open>exit\<close>.\<close>

datatype stop = Threw exn | Exited int cpu_t

type_synonym insn_func = "cpu_t \<Rightarrow> insn_t \<Rightarrow> u64 \<Rightarrow> stop + u64 \<times> cpu_t"

definition trying :: "exn + 'a \<Rightarrow> ('a \<Rightarrow> stop + 'b) \<Rightarrow> stop + 'b" where
  "trying r f = (case r of Inl e \<Rightarrow> Inl (Threw e) | Inr x \<Rightarrow> f x)"

definition PC_INC :: u64 where
  "PC_INC = 4"

subsection \<open>Registers\<close>

definition READ_REG :: "cpu_t \<Rightarrow> u64 \<Rightarrow> u64" where
  "READ_REG p reg = regfile_get (XPR (cpu_state p)) reg"

definition READ_FREG :: "cpu_t \<Rightarrow> u64 \<Rightarrow> u64" where
  "READ_FREG p reg = regfile_get (FPR (cpu_state p)) reg"

definition RS1 :: "cpu_t \<Rightarrow> insn_t \<Rightarrow> u64" where
  "RS1 p insn = READ_REG p (insn_rs1 insn)"

definition RS2 :: "cpu_t \<Rightarrow> insn_t \<Rightarrow> u64" where
  "RS2 p insn = READ_REG p (insn_rs2 insn)"

definition FRS1 :: "cpu_t \<Rightarrow> insn_t \<Rightarrow> u64" where
  "FRS1 p insn = READ_FREG p (insn_rs1 insn)"

definition FRS2 :: "cpu_t \<Rightarrow> insn_t \<Rightarrow> u64" where
  "FRS2 p insn = READ_FREG p (insn_rs2 insn)"

definition FRS3 :: "cpu_t \<Rightarrow> insn_t \<Rightarrow> u64" where
  "FRS3 p insn = READ_FREG p (insn_rs3 insn)"

definition WRITE_REG :: "cpu_t \<Rightarrow> u64 \<Rightarrow> u64 \<Rightarrow> cpu_t" where
  "WRITE_REG p reg value = p\<lparr>cpu_state := (cpu_state p)\<lparr>XPR :=
     regfile_write True (XPR (cpu_state p)) reg value\<rparr>\<rparr>"

definition WRITE_FREG :: "cpu_t \<Rightarrow> u64 \<Rightarrow> u64 \<Rightarrow> cpu_t" where
  "WRITE_FREG p reg value = p\<lparr>cpu_state := (cpu_state p)\<lparr>FPR :=
     regfile_write False (FPR (cpu_state p)) reg value\<rparr>\<rparr>"

definition WRITE_RD :: "cpu_t \<Rightarrow> insn_t \<Rightarrow> u64 \<Rightarrow> cpu_t" where
  "WRITE_RD p insn value = WRITE_REG p (insn_rd insn) value"

definition WRITE_FRD :: "cpu_t \<Rightarrow> insn_t \<Rightarrow> u64 \<Rightarrow> cpu_t" where
  "WRITE_FRD p insn value = WRITE_FREG p (insn_rd insn) value"

subsection \<open>Instruction counters\<close>

definition count_insert :: "string \<Rightarrow> u32 \<Rightarrow> (string \<times> u32) list \<Rightarrow> (string \<times> u32) list" where
  "count_insert name c counts = (if map_of counts name = None then (name, c) # counts else counts)"

definition count_insn :: "string \<Rightarrow> (string \<times> u32) list \<Rightarrow> (string \<times> u32) list" where
  "count_insn name counts = AList.map_entry name (\<lambda>c. c + 1) counts"

definition print_count :: "(string \<times> u32) list \<Rightarrow> count_item list" where
  "print_count counts = sort (map (\<lambda>(name, c). Item name c) counts)"

end
