(* ===== verification/Func_Int.thy ===== *)
theory Func_Int
  imports Machine
begin

unbundle bit_operations_syntax

text \<open>
  The handlers of \<^verbatim>\<open>func.h\<close> for the integer instructions: arithmetic, branches, loads and
  stores, jumps, and the arithmetic on 32-bit words. A handler gets the machine, the
  instruction and the program counter; it returns the next program counter and the machine,
  or the exception it throws.
\<close>

subsection \<open>Register-register arithmetic\<close>

definition rv64_add :: "insn_func" where [insn_defs]:
  "rv64_add p insn pc =
     (let npc = sext_xlen (pc + PC_INC)
      in Inr (npc, WRITE_RD p insn (sext_xlen (RS1 p insn + RS2 p insn))))"

definition rv64_sub :: "insn_func" where [insn_defs]:
  "rv64_sub p insn pc =
     (let npc = sext_xlen (pc + PC_INC)
      in Inr (npc, WRITE_RD p insn (sext_xlen (RS1 p insn - RS2 p insn))))"

definition rv64_sll :: "insn_func" where [insn_defs]:
  "rv64_sll p insn pc =
     (let npc = sext_xlen (pc + PC_INC)
      in Inr (npc, WRITE_RD p insn (sext_xlen (push_bit (unat (RS2 p insn AND (of_nat xlen - 1))) (RS1 p insn)))))"

definition rv64_slt :: "insn_func" where [insn_defs]:
  "rv64_slt p insn pc =
     (let npc = sext_xlen (pc + PC_INC)
      in Inr (npc, WRITE_RD p insn (of_bool (RS1 p insn <s RS2 p insn))))"

definition rv64_sltu :: "insn_func" where [insn_defs]:
  "rv64_sltu p insn pc =
     (let npc = sext_xlen (pc + PC_INC)
      in Inr (npc, WRITE_RD p insn (of_bool (RS1 p insn < i_imm insn))))"

definition rv64_xor :: "insn_func" where [insn_defs]:
  "rv64_xor p insn pc =
     (let npc = sext_xlen (pc + PC_INC)
      in Inr (npc, WRITE_RD p insn (RS1 p insn XOR RS2 p insn)))"

definition rv64_srl :: "insn_func" where [insn_defs]:
  "rv64_srl p insn pc =
     (let npc = sext_xlen (pc + PC_INC)
      in Inr (npc, WRITE_RD p insn (sext_xlen (drop_bit (unat (RS2 p insn AND (of_nat xlen - 1))) (zext_xlen (RS1 p insn))))))"

definition rv64_sra :: "insn_func" where [insn_defs]:
  "rv64_sra p insn pc =
     (let npc = sext_xlen (pc + PC_INC)
      in Inr (npc, WRITE_RD p insn (sext_xlen (signed_drop_bit (unat (RS2 p insn AND (of_nat xlen - 1))) (sext_xlen (RS1 p insn))))))"

definition rv64_or :: "insn_func" where [insn_defs]:
  "rv64_or p insn pc =
     (let npc = sext_xlen (pc + PC_INC)
      in Inr (npc, WRITE_RD p insn (RS1 p insn OR RS2 p insn)))"

definition rv64_and :: "insn_func" where [insn_defs]:
  "rv64_and p insn pc =
     (let npc = sext_xlen (pc + PC_INC)
      in Inr (npc, WRITE_RD p insn (RS1 p insn AND RS2 p insn)))"

subsection \<open>Register-immediate arithmetic\<close>

definition rv64_addi :: "insn_func" where [insn_defs]:
  "rv64_addi p insn pc =
     (let npc = sext_xlen (pc + PC_INC)
      in Inr (npc, WRITE_RD p insn (sext_xlen (RS1 p insn + i_imm insn))))"

definition rv64_slli :: "insn_func" where [insn_defs]:
  "rv64_slli p insn pc =
     (let npc = sext_xlen (pc + PC_INC)
      in if \<not> shamt insn < of_nat xlen then Inl (Threw trap_illegal_instruction)
      else Inr (npc, WRITE_RD p insn (sext_xlen (push_bit (unat (shamt insn)) (RS1 p insn)))))"

definition rv64_slti :: "insn_func" where [insn_defs]:
  "rv64_slti p insn pc =
     (let npc = sext_xlen (pc + PC_INC)
      in Inr (npc, WRITE_RD p insn (of_bool (RS1 p insn <s i_imm insn))))"

definition rv64_sltiu :: "insn_func" where [insn_defs]:
  "rv64_sltiu p insn pc =
     (let npc = sext_xlen (pc + PC_INC)
      in Inr (npc, WRITE_RD p insn (of_bool (RS1 p insn < i_imm insn))))"

definition rv64_xori :: "insn_func" where [insn_defs]:
  "rv64_xori p insn pc =
     (let npc = sext_xlen (pc + PC_INC)
      in Inr (npc, WRITE_RD p insn (i_imm insn XOR RS1 p insn)))"

definition rv64_srli :: "insn_func" where [insn_defs]:
  "rv64_srli p insn pc =
     (let npc = sext_xlen (pc + PC_INC)
      in if \<not> shamt insn < of_nat xlen then Inl (Threw trap_illegal_instruction)
      else Inr (npc, WRITE_RD p insn (sext_xlen (drop_bit (unat (shamt insn)) (zext_xlen (RS1 p insn))))))"

definition rv64_srai :: "insn_func" where [insn_defs]:
  "rv64_srai p insn pc =
     (let npc = sext_xlen (pc + PC_INC)
      in if \<not> shamt insn < of_nat xlen then Inl (Threw trap_illegal_instruction)
      else Inr (npc, WRITE_RD p insn (sext_xlen (signed_drop_bit (unat (shamt insn)) (sext_xlen (RS1 p insn))))))"

definition rv64_ori :: "insn_func" where [insn_defs]:
  "rv64_ori p insn pc =
     (let npc = sext_xlen (pc + PC_INC)
      in Inr (npc, WRITE_RD p insn (i_imm insn OR RS1 p insn)))"

definition rv64_andi :: "insn_func" where [insn_defs]:
  "rv64_andi p insn pc =
     (let npc = sext_xlen (pc + PC_INC)
      in Inr (npc, WRITE_RD p insn (i_imm insn AND RS1 p insn)))"

subsection \<open>Branches\<close>

definition rv64_beq :: "insn_func" where [insn_defs]:
  "rv64_beq p insn pc =
     (let npc = sext_xlen (pc + PC_INC)
      in if RS1 p insn = RS2 p insn
      then trying (set_pc (branch_target pc insn)) (\<lambda>npc. Inr (npc, p))
      else Inr (npc, p))"

definition rv64_bne :: "insn_func" where [insn_defs]:
  "rv64_bne p insn pc =
     (let npc = sext_xlen (pc + PC_INC)
      in if RS1 p insn \<noteq> RS2 p insn
      then trying (set_pc (branch_target pc insn)) (\<lambda>npc. Inr (npc, p))
      else Inr (npc, p))"

definition rv64_blt :: "insn_func" where [insn_defs]:
  "rv64_blt p insn pc =
     (let npc = sext_xlen (pc + PC_INC)
      in if RS1 p insn <s RS2 p insn
      then trying (set_pc (branch_target pc insn)) (\<lambda>npc. Inr (npc, p))
      else Inr (npc, p))"

definition rv64_bge :: "insn_func" where [insn_defs]:
  "rv64_bge p insn pc =
     (let npc = sext_xlen (pc + PC_INC)
      in if RS2 p insn \<le>s RS1 p insn
      then trying (set_pc (branch_target pc insn)) (\<lambda>npc. Inr (npc, p))
      else Inr (npc, p))"

definition rv64_bltu :: "insn_func" where [insn_defs]:
  "rv64_bltu p insn pc =
     (let npc = sext_xlen (pc + PC_INC)
      in if RS1 p insn < RS2 p insn
      then trying (set_pc (branch_target pc insn)) (\<lambda>npc. Inr (npc, p))
      else Inr (npc, p))"

definition rv64_bgeu :: "insn_func" where [insn_defs]:
  "rv64_bgeu p insn pc =
     (let npc = sext_xlen (pc + PC_INC)
      in if RS2 p insn \<le> RS1 p insn
      then trying (set_pc (branch_target pc insn)) (\<lambda>npc. Inr (npc, p))
      else Inr (npc, p))"

subsection \<open>Loads and stores\<close>

definition rv64_lb :: "insn_func" where [insn_defs]:
  "rv64_lb p insn pc =
     (let npc = sext_xlen (pc + PC_INC)
      in Inr (npc, WRITE_RD p insn (read_int8 (mmu p) (RS1 p insn + i_imm insn))))"

definition rv64_lh :: "insn_func" where [insn_defs]:
  "rv64_lh p insn pc =
     (let npc = sext_xlen (pc + PC_INC)
      in Inr (npc, WRITE_RD p insn (read_int16 (mmu p) (RS1 p insn + i_imm insn))))"

definition rv64_lw :: "insn_func" where [insn_defs]:
  "rv64_lw p insn pc =
     (let npc = sext_xlen (pc + PC_INC)
      in Inr (npc, WRITE_RD p insn (read_int32 (mmu p) (RS1 p insn + i_imm insn))))"

definition rv64_ld :: "insn_func" where [insn_defs]:
  "rv64_ld p insn pc =
     (let npc = sext_xlen (pc + PC_INC)
      in Inr (npc, WRITE_RD p insn (read_int64 (mmu p) (RS1 p insn + i_imm insn))))"

definition rv64_lbu :: "insn_func" where [insn_defs]:
  "rv64_lbu p insn pc =
     (let npc = sext_xlen (pc + PC_INC)
      in Inr (npc, WRITE_RD p insn (read_uint8 (mmu p) (RS1 p insn + i_imm insn))))"

definition rv64_lhu :: "insn_func" where [insn_defs]:
  "rv64_lhu p insn pc =
     (let npc = sext_xlen (pc + PC_INC)
      in Inr (npc, WRITE_RD p insn (read_uint16 (mmu p) (RS1 p insn + i_imm insn))))"

definition rv64_lwu :: "insn_func" where [insn_defs]:
  "rv64_lwu p insn pc =
     (let npc = sext_xlen (pc + PC_INC)
      in Inr (npc, WRITE_RD p insn (read_uint32 (mmu p) (RS1 p insn + i_imm insn))))"

definition rv64_sb :: "insn_func" where [insn_defs]:
  "rv64_sb p insn pc =
     (let npc = sext_xlen (pc + PC_INC)
      in trying (write_8 (mmu p) (RS1 p insn + s_imm insn) (RS2 p insn))
      (\<lambda>m. Inr (npc, p\<lparr>mmu := m\<rparr>)))"

definition rv64_sh :: "insn_func" where [insn_defs]:
  "rv64_sh p insn pc =
     (let npc = sext_xlen (pc + PC_INC)
      in trying (write_16 (mmu p) (RS1 p insn + s_imm insn) (RS2 p insn))
      (\<lambda>m. Inr (npc, p\<lparr>mmu := m\<rparr>)))"

definition rv64_sw :: "insn_func" where [insn_defs]:
  "rv64_sw p insn pc =
     (let npc = sext_xlen (pc + PC_INC)
      in trying (write_32 (mmu p) (RS1 p insn + s_imm insn) (RS2 p insn))
      (\<lambda>m. Inr (npc, p\<lparr>mmu := m\<rparr>)))"

definition rv64_sd :: "insn_func" where [insn_defs]:
  "rv64_sd p insn pc =
     (let npc = sext_xlen (pc + PC_INC)
      in trying (write_64 (mmu p) (RS1 p insn + s_imm insn) (RS2 p insn))
      (\<lambda>m. Inr (npc, p\<lparr>mmu := m\<rparr>)))"

subsection \<open>Jumps and upper immediates\<close>

definition rv64_jal :: "insn_func" where [insn_defs]:
  "rv64_jal p insn pc =
     (let npc = sext_xlen (pc + PC_INC)
      in let tmp = npc
      in trying (set_pc (jump_target pc insn)) (\<lambda>npc. Inr (npc, WRITE_RD p insn tmp)))"

definition rv64_jalr :: "insn_func" where [insn_defs]:
  "rv64_jalr p insn pc =
     (let npc = sext_xlen (pc + PC_INC)
      in let tmp = npc
      in trying (set_pc ((RS1 p insn + i_imm insn) AND NOT 1)) (\<lambda>npc. Inr (npc, WRITE_RD p insn tmp)))"

definition rv64_auipc :: "insn_func" where [insn_defs]:
  "rv64_auipc p insn pc =
     (let npc = sext_xlen (pc + PC_INC)
      in Inr (npc, WRITE_RD p insn (sext_xlen (u_imm insn + pc))))"

definition rv64_lui :: "insn_func" where [insn_defs]:
  "rv64_lui p insn pc =
     (let npc = sext_xlen (pc + PC_INC)
      in Inr (npc, WRITE_RD p insn (u_imm insn)))"

subsection \<open>Arithmetic on words\<close>

definition rv64_addw :: "insn_func" where [insn_defs]:
  "rv64_addw p insn pc =
     (let npc = sext_xlen (pc + PC_INC)
      in Inr (npc, WRITE_RD p insn (sext32 (RS1 p insn + RS2 p insn))))"

definition rv64_subw :: "insn_func" where [insn_defs]:
  "rv64_subw p insn pc =
     (let npc = sext_xlen (pc + PC_INC)
      in Inr (npc, WRITE_RD p insn (sext32 (RS1 p insn - RS2 p insn))))"

definition rv64_sllw :: "insn_func" where [insn_defs]:
  "rv64_sllw p insn pc =
     (let npc = sext_xlen (pc + PC_INC)
      in Inr (npc, WRITE_RD p insn (sext_xlen (push_bit (unat (RS2 p insn AND (of_nat xlen - 1))) (RS1 p insn)))))"

definition rv64_srlw :: "insn_func" where [insn_defs]:
  "rv64_srlw p insn pc =
     (let npc = sext_xlen (pc + PC_INC)
      in Inr (npc, WRITE_RD p insn (sext32 (ucast (drop_bit (unat (RS2 p insn AND 0x1F)) (ucast (RS1 p insn) :: u32))))))"

definition rv64_sraw :: "insn_func" where [insn_defs]:
  "rv64_sraw p insn pc =
     (let npc = sext_xlen (pc + PC_INC)
      in Inr (npc, WRITE_RD p insn (sext32 (scast (signed_drop_bit (unat (RS2 p insn AND 0x1F)) (ucast (RS1 p insn) :: u32))))))"

definition rv64_addiw :: "insn_func" where [insn_defs]:
  "rv64_addiw p insn pc =
     (let npc = sext_xlen (pc + PC_INC)
      in Inr (npc, WRITE_RD p insn (sext32 (i_imm insn + RS1 p insn))))"

definition rv64_slliw :: "insn_func" where [insn_defs]:
  "rv64_slliw p insn pc =
     (let npc = sext_xlen (pc + PC_INC)
      in Inr (npc, WRITE_RD p insn (sext32 (push_bit (unat (shamt insn)) (RS1 p insn)))))"

definition rv64_srliw :: "insn_func" where [insn_defs]:
  "rv64_srliw p insn pc =
     (let npc = sext_xlen (pc + PC_INC)
      in Inr (npc, WRITE_RD p insn (sext32 (ucast (drop_bit (unat (shamt insn)) (ucast (RS1 p insn) :: u32))))))"

definition rv64_sraiw :: "insn_func" where [insn_defs]:
  "rv64_sraiw p insn pc =
     (let npc = sext_xlen (pc + PC_INC)
      in Inr (npc, WRITE_RD p insn (sext32 (scast (signed_drop_bit (unat (shamt insn)) (ucast (RS1 p insn) :: u32))))))"

end
