(* ===== verification/Func_Mul.thy ===== *)
theory Func_Mul
  imports Machine Multi
begin

unbundle bit_operations_syntax

text \<open>
  The handlers of \<^verbatim>\<open>func.h\<close> for multiplication, division and remainder. The C++ operators \<^verbatim>\<open>/\<close>
  and \<^verbatim>\<open>%\<close> on signed operands truncate towards zero.
\<close>

definition c_div :: "u64 \<Rightarrow> u64 \<Rightarrow> u64" where
  "c_div a b = word_of_int (sint a sdiv sint b)"

definition c_mod :: "u64 \<Rightarrow> u64 \<Rightarrow> u64" where
  "c_mod a b = word_of_int (sint a smod sint b)"

subsection \<open>Multiplication\<close>

definition rv64_mul :: "insn_func" where [insn_defs]:
  "rv64_mul p insn pc =
     (let npc = sext_xlen (pc + PC_INC)
      in Inr (npc, WRITE_RD p insn (sext_xlen (RS1 p insn * RS2 p insn))))"

definition rv64_mulw :: "insn_func" where [insn_defs]:
  "rv64_mulw p insn pc =
     (let npc = sext_xlen (pc + PC_INC)
      in Inr (npc, WRITE_RD p insn (sext32 (RS1 p insn * RS2 p insn))))"

definition rv64_mulh :: "insn_func" where [insn_defs]:
  "rv64_mulh p insn pc =
     (let npc = sext_xlen (pc + PC_INC)
      in if xlen = 64 then Inr (npc, WRITE_RD p insn (mulh (RS1 p insn) (RS2 p insn)))
      else Inr (npc, WRITE_RD p insn (sext32 (signed_drop_bit 32 (sext32 (RS1 p insn) * sext32 (RS2 p insn))))))"

definition rv64_mulhu :: "insn_func" where [insn_defs]:
  "rv64_mulhu p insn pc =
     (let npc = sext_xlen (pc + PC_INC)
      in if xlen = 64 then Inr (npc, WRITE_RD p insn (mulhu (RS1 p insn) (RS2 p insn)))
      else Inr (npc, WRITE_RD p insn (sext32 (drop_bit 32 (zext32 (RS1 p insn) * zext32 (RS2 p insn))))))"

definition rv64_mulhsu :: "insn_func" where [insn_defs]:
  "rv64_mulhsu p insn pc =
     (let npc = sext_xlen (pc + PC_INC)
      in if xlen = 64 then Inr (npc, WRITE_RD p insn (mulhsu (RS1 p insn) (RS2 p insn)))
      else Inr (npc, WRITE_RD p insn (sext32 (drop_bit 32 (sext32 (RS1 p insn) * zext32 (RS2 p insn))))))"

subsection \<open>Division and remainder\<close>

definition rv64_div :: "insn_func" where [insn_defs]:
  "rv64_div p insn pc =
     (let npc = sext_xlen (pc + PC_INC)
      in let lhs = sext_xlen (RS1 p insn); rhs = sext_xlen (RS2 p insn)
      in if rhs = 0 then Inr (npc, WRITE_RD p insn (0xFFFFFFFFFFFFFFFF))
         else if lhs = 0x8000000000000000 \<and> rhs = - 1 then Inr (npc, WRITE_RD p insn (lhs))
         else Inr (npc, WRITE_RD p insn (sext_xlen (c_div lhs rhs))))"

definition rv64_divu :: "insn_func" where [insn_defs]:
  "rv64_divu p insn pc =
     (let npc = sext_xlen (pc + PC_INC)
      in let lhs = zext_xlen (RS1 p insn); rhs = zext_xlen (RS2 p insn)
      in if rhs = 0 then Inr (npc, WRITE_RD p insn (0xFFFFFFFFFFFFFFFF))
         else Inr (npc, WRITE_RD p insn (sext_xlen (lhs div rhs))))"

definition rv64_divw :: "insn_func" where [insn_defs]:
  "rv64_divw p insn pc =
     (let npc = sext_xlen (pc + PC_INC)
      in let lhs = sext32 (RS1 p insn); rhs = sext32 (RS2 p insn)
      in if rhs = 0 then Inr (npc, WRITE_RD p insn (0xFFFFFFFFFFFFFFFF))
         else Inr (npc, WRITE_RD p insn (sext32 (c_div lhs rhs))))"

definition rv64_divuw :: "insn_func" where [insn_defs]:
  "rv64_divuw p insn pc =
     (let npc = sext_xlen (pc + PC_INC)
      in let lhs = zext32 (RS1 p insn); rhs = zext32 (RS2 p insn)
      in if rhs = 0 then Inr (npc, WRITE_RD p insn (0xFFFFFFFFFFFFFFFF))
         else Inr (npc, WRITE_RD p insn (sext32 (lhs div rhs))))"

definition rv64_rem :: "insn_func" where [insn_defs]:
  "rv64_rem p insn pc =
     (let npc = sext_xlen (pc + PC_INC)
      in let lhs = sext_xlen (RS1 p insn); rhs = sext_xlen (RS2 p insn)
      in if rhs = 0 then Inr (npc, WRITE_RD p insn (lhs))
         else if lhs = 0x8000000000000000 \<and> rhs = - 1 then Inr (npc, WRITE_RD p insn (0))
         else Inr (npc, WRITE_RD p insn (sext_xlen (c_mod lhs rhs))))"

definition rv64_remu :: "insn_func" where [insn_defs]:
  "rv64_remu p insn pc =
     (let npc = sext_xlen (pc + PC_INC)
      in let lhs = zext_xlen (RS1 p insn); rhs = zext_xlen (RS2 p insn)
      in if rhs = 0 then Inr (npc, WRITE_RD p insn (sext_xlen (RS1 p insn)))
         else Inr (npc, WRITE_RD p insn (sext_xlen (lhs mod rhs))))"

definition rv64_remw :: "insn_func" where [insn_defs]:
  "rv64_remw p insn pc =
     (let npc = sext_xlen (pc + PC_INC)
      in let lhs = sext32 (RS1 p insn); rhs = sext32 (RS2 p insn)
      in if rhs = 0 then Inr (npc, WRITE_RD p insn (lhs))
         else Inr (npc, WRITE_RD p insn (sext32 (c_mod lhs rhs))))"

definition rv64_remuw :: "insn_func" where [insn_defs]:
  "rv64_remuw p insn pc =
     (let npc = sext_xlen (pc + PC_INC)
      in let lhs = zext32 (RS1 p insn); rhs = zext32 (RS2 p insn)
      in if rhs = 0 then Inr (npc, WRITE_RD p insn (sext32 lhs))
         else Inr (npc, WRITE_RD p insn (sext32 (lhs mod rhs))))"

end
