(* ===== verification/Func_Float.thy ===== *)
theory Func_Float
  imports Machine
begin

unbundle bit_operations_syntax

text \<open>
  The handlers of \<^verbatim>\<open>func.h\<close> for the floating-point instructions. Registers hold bit patterns;
  what moves, loads, stores or recombines bits is computed here, and what the C++ code leaves
  to the host's \<^verbatim>\<open>double\<close> and \<^verbatim>\<open>float\<close> is the parameter \<open>fpu\<close>.
\<close>

text \<open>
  The macros that read a register as a \<^verbatim>\<open>float\<close>, which keeps the lower half, and that make a
  register value of a \<^verbatim>\<open>float\<close>, which leaves the upper half zero. For a \<^verbatim>\<open>double\<close> both are the
  identity on the bits.
\<close>

definition freg_f32 :: "u64 \<Rightarrow> u32" where [insn_defs]:
  "freg_f32 x = ucast x"

definition f32_freg :: "u32 \<Rightarrow> u64" where [insn_defs]:
  "f32_freg x = ucast x"

definition d_Rounding :: "fpu_t \<Rightarrow> u64 \<Rightarrow> u64 \<Rightarrow> u64" where
  "d_Rounding fpu a rm =
     (if rm = 0 then f64_rint fpu a
      else if rm = 1 then f64_trunc fpu a
      else if rm = 2 then f64_floor fpu a
      else if rm = 3 then f64_ceil fpu a
      else a)"

subsection \<open>Loads and stores\<close>

definition rv64_fld :: "insn_func" where [insn_defs]:
  "rv64_fld p insn pc =
     (let npc = sext_xlen (pc + PC_INC)
      in Inr (npc, WRITE_FRD p insn (read_int64 (mmu p) (RS1 p insn + i_imm insn))))"

definition rv64_flw :: "insn_func" where [insn_defs]:
  "rv64_flw p insn pc =
     (let npc = sext_xlen (pc + PC_INC)
      in Inr (npc, WRITE_FRD p insn (read_uint32 (mmu p) (RS1 p insn + i_imm insn))))"

definition rv64_fsd :: "insn_func" where [insn_defs]:
  "rv64_fsd p insn pc =
     (let npc = sext_xlen (pc + PC_INC)
      in trying (write_64 (mmu p) (RS1 p insn + s_imm insn) (FRS2 p insn))
      (\<lambda>m. Inr (npc, p\<lparr>mmu := m\<rparr>)))"

definition rv64_fsw :: "insn_func" where [insn_defs]:
  "rv64_fsw p insn pc =
     (let npc = sext_xlen (pc + PC_INC)
      in trying (write_32 (mmu p) (RS1 p insn + s_imm insn) (FRS2 p insn))
      (\<lambda>m. Inr (npc, p\<lparr>mmu := m\<rparr>)))"

subsection \<open>Arithmetic\<close>

definition rv64_fmul_d :: "fpu_t \<Rightarrow> insn_func" where [insn_defs]:
  "rv64_fmul_d fpu p insn pc =
     (let npc = sext_xlen (pc + PC_INC)
      in Inr (npc, WRITE_FRD p insn (f64_mul fpu (FRS1 p insn) (FRS2 p insn))))"

definition rv64_fdiv_d :: "fpu_t \<Rightarrow> insn_func" where [insn_defs]:
  "rv64_fdiv_d fpu p insn pc =
     (let npc = sext_xlen (pc + PC_INC)
      in Inr (npc, WRITE_FRD p insn (f64_div fpu (FRS1 p insn) (FRS2 p insn))))"

definition rv64_fmul_s :: "fpu_t \<Rightarrow> insn_func" where [insn_defs]:
  "rv64_fmul_s fpu p insn pc =
     (let npc = sext_xlen (pc + PC_INC)
      in Inr (npc, WRITE_FRD p insn (f32_freg (f32_mul fpu (freg_f32 (FRS1 p insn)) (freg_f32 (FRS2 p insn))))))"

definition rv64_fdiv_s :: "fpu_t \<Rightarrow> insn_func" where [insn_defs]:
  "rv64_fdiv_s fpu p insn pc =
     (let npc = sext_xlen (pc + PC_INC)
      in Inr (npc, WRITE_FRD p insn (f32_freg (f32_div fpu (freg_f32 (FRS1 p insn)) (freg_f32 (FRS2 p insn))))))"

definition rv64_fmadd_d :: "fpu_t \<Rightarrow> insn_func" where [insn_defs]:
  "rv64_fmadd_d fpu p insn pc =
     (let npc = sext_xlen (pc + PC_INC)
      in Inr (npc, WRITE_FRD p insn (f64_muladd fpu (FRS1 p insn) (FRS2 p insn) (FRS3 p insn))))"

subsection \<open>Moves and conversions\<close>

definition rv64_fmv_s_x :: "insn_func" where [insn_defs]:
  "rv64_fmv_s_x p insn pc =
     (let npc = sext_xlen (pc + PC_INC)
      in Inr (npc, WRITE_FRD p insn (zext32 (RS1 p insn))))"

definition rv64_fcvt_d_l :: "fpu_t \<Rightarrow> insn_func" where [insn_defs]:
  "rv64_fcvt_d_l fpu p insn pc =
     (let npc = sext_xlen (pc + PC_INC)
      in Inr (npc, WRITE_FRD p insn (f64_of_i64 fpu (RS1 p insn))))"

definition rv64_fcvt_l_d :: "fpu_t \<Rightarrow> insn_func" where [insn_defs]:
  "rv64_fcvt_l_d fpu p insn pc =
     (let npc = sext_xlen (pc + PC_INC)
      in Inr (npc, WRITE_RD p insn (f64_to_i64 fpu (d_Rounding fpu (f64_of_u64 fpu (RS1 p insn)) (insn_rm insn)))))"

definition rv64_fcvt_d_s :: "fpu_t \<Rightarrow> insn_func" where [insn_defs]:
  "rv64_fcvt_d_s fpu p insn pc =
     (let npc = sext_xlen (pc + PC_INC)
      in Inr (npc, WRITE_FRD p insn (f32_to_f64 fpu (freg_f32 (FRS1 p insn)))))"

definition rv64_fcvt_d_w :: "fpu_t \<Rightarrow> insn_func" where [insn_defs]:
  "rv64_fcvt_d_w fpu p insn pc =
     (let npc = sext_xlen (pc + PC_INC)
      in Inr (npc, WRITE_FRD p insn (f64_of_i32 fpu (ucast (RS1 p insn)))))"

definition rv64_fcvt_d_wu :: "fpu_t \<Rightarrow> insn_func" where [insn_defs]:
  "rv64_fcvt_d_wu fpu p insn pc =
     (let npc = sext_xlen (pc + PC_INC)
      in Inr (npc, WRITE_FRD p insn (f64_of_i32 fpu (ucast (RS1 p insn)))))"

definition rv64_fcvt_s_d :: "fpu_t \<Rightarrow> insn_func" where [insn_defs]:
  "rv64_fcvt_s_d fpu p insn pc =
     (let npc = sext_xlen (pc + PC_INC)
      in Inr (npc, WRITE_FRD p insn (f32_freg (f64_to_f32 fpu (FRS1 p insn)))))"

definition rv64_fcvt_s_l :: "fpu_t \<Rightarrow> insn_func" where [insn_defs]:
  "rv64_fcvt_s_l fpu p insn pc =
     (let npc = sext_xlen (pc + PC_INC)
      in Inr (npc, WRITE_FRD p insn (f32_freg (f32_of_i64 fpu (RS1 p insn)))))"

definition rv64_fcvt_s_w :: "fpu_t \<Rightarrow> insn_func" where [insn_defs]:
  "rv64_fcvt_s_w fpu p insn pc =
     (let npc = sext_xlen (pc + PC_INC)
      in Inr (npc, WRITE_FRD p insn (f32_freg (f32_of_i32 fpu (ucast (RS1 p insn))))))"

definition rv64_fcvt_w_d :: "fpu_t \<Rightarrow> insn_func" where [insn_defs]:
  "rv64_fcvt_w_d fpu p insn pc =
     (let npc = sext_xlen (pc + PC_INC)
      in Inr (npc, WRITE_RD p insn (scast (f64_to_i32 fpu (FRS1 p insn)))))"

definition rv64_fcvt_wu_d :: "fpu_t \<Rightarrow> insn_func" where [insn_defs]:
  "rv64_fcvt_wu_d fpu p insn pc =
     (let npc = sext_xlen (pc + PC_INC)
      in Inr (npc, WRITE_RD p insn (ucast (f64_to_u32 fpu (FRS1 p insn)))))"

definition rv64_fmv_x_d :: "insn_func" where [insn_defs]:
  "rv64_fmv_x_d p insn pc =
     (let npc = sext_xlen (pc + PC_INC)
      in Inr (npc, WRITE_RD p insn (FRS1 p insn)))"

definition rv64_fmv_d_x :: "insn_func" where [insn_defs]:
  "rv64_fmv_d_x p insn pc =
     (let npc = sext_xlen (pc + PC_INC)
      in Inr (npc, WRITE_FRD p insn (RS1 p insn)))"

subsection \<open>Addition, sign injection and comparison\<close>

definition rv64_fadd_s :: "fpu_t \<Rightarrow> insn_func" where [insn_defs]:
  "rv64_fadd_s fpu p insn pc =
     (let npc = sext_xlen (pc + PC_INC)
      in Inr (npc, WRITE_FRD p insn (f32_freg (f32_add fpu (freg_f32 (FRS1 p insn)) (freg_f32 (FRS2 p insn))))))"

definition rv64_fadd_d :: "fpu_t \<Rightarrow> insn_func" where [insn_defs]:
  "rv64_fadd_d fpu p insn pc =
     (let npc = sext_xlen (pc + PC_INC)
      in Inr (npc, WRITE_FRD p insn (f64_add fpu (FRS1 p insn) (FRS2 p insn))))"

definition rv64_fsub_s :: "fpu_t \<Rightarrow> insn_func" where [insn_defs]:
  "rv64_fsub_s fpu p insn pc =
     (let npc = sext_xlen (pc + PC_INC)
      in Inr (npc, WRITE_FRD p insn (f32_freg (f32_sub fpu (freg_f32 (FRS1 p insn)) (freg_f32 (FRS2 p insn))))))"

definition rv64_fsub_d :: "fpu_t \<Rightarrow> insn_func" where [insn_defs]:
  "rv64_fsub_d fpu p insn pc =
     (let npc = sext_xlen (pc + PC_INC)
      in Inr (npc, WRITE_FRD p insn (f64_sub fpu (FRS1 p insn) (FRS2 p insn))))"

definition rv64_fsgnj_d :: "insn_func" where [insn_defs]:
  "rv64_fsgnj_d p insn pc =
     (let npc = sext_xlen (pc + PC_INC)
      in Inr (npc, WRITE_FRD p insn ((FRS1 p insn AND NOT 0x8000000000000000) OR (FRS2 p insn AND 0x8000000000000000))))"

definition rv64_feq_d :: "fpu_t \<Rightarrow> insn_func" where [insn_defs]:
  "rv64_feq_d fpu p insn pc =
     (let npc = sext_xlen (pc + PC_INC)
      in Inr (npc, WRITE_RD p insn (of_bool (f64_eq fpu (FRS1 p insn) (FRS2 p insn)))))"

definition rv64_fle_d :: "fpu_t \<Rightarrow> insn_func" where [insn_defs]:
  "rv64_fle_d fpu p insn pc =
     (let npc = sext_xlen (pc + PC_INC)
      in Inr (npc, WRITE_RD p insn (of_bool (f64_le fpu (FRS1 p insn) (FRS2 p insn)))))"

definition rv64_flt_d :: "fpu_t \<Rightarrow> insn_func" where [insn_defs]:
  "rv64_flt_d fpu p insn pc =
     (let npc = sext_xlen (pc + PC_INC)
      in Inr (npc, WRITE_RD p insn (of_bool (f64_lt fpu (FRS1 p insn) (FRS2 p insn)))))"

end
