(* ===== verification/Func_Sys.thy ===== *)
theory Func_Sys
  imports Machine
begin

unbundle bit_operations_syntax

text \<open>
  The system call instruction and the fence of \<^verbatim>\<open>func.h\<close>. The call number is in register 17, an
  address in register 11 and a length in register 12; results go to register 10. The host's
  answers come from the parameter \<open>os\<close>, and each call is added to the history.
\<close>

definition log_event :: "event \<Rightarrow> cpu_t \<Rightarrow> cpu_t" where
  "log_event e p = p\<lparr>history := e # history p\<rparr>"

text \<open>
  \<^verbatim>\<open>SIM_write\<close> copies the bytes at \<open>addr\<close> to a buffer and writes it to descriptor 1. Lengths
  for which \<^verbatim>\<open>malloc\<close> fails or the \<^verbatim>\<open>int\<close> loop counter overflows are not modelled.
\<close>

definition SIM_write :: "os_t \<Rightarrow> cpu_t \<Rightarrow> u64 \<Rightarrow> u64 \<Rightarrow> cpu_t" where
  "SIM_write os p addr len =
     (let buf = map (\<lambda>i. ucast (read_uint8 (mmu p) (addr + of_nat i))) [0..<unat len];
          ret = os_write os (history p) buf
      in WRITE_REG (log_event (HostWrite buf) p) 10 ret)"

text \<open>
  \<^verbatim>\<open>SIM_read\<close> reads from descriptor 0 into a buffer and stores the bytes one by one; a plain
  \<^verbatim>\<open>char\<close> is signed, and only its low byte is stored. The count is an \<^verbatim>\<open>int\<close>.
\<close>

fun sim_read_loop :: "u64 \<Rightarrow> u8 list \<Rightarrow> mmu_t \<Rightarrow> exn + mmu_t" where
  "sim_read_loop addr [] m = Inr m"
| "sim_read_loop addr (b # bs) m =
     (case write_8 m addr (scast b) of
        Inl e \<Rightarrow> Inl e
      | Inr m' \<Rightarrow> sim_read_loop (addr + 1) bs m')"

definition SIM_read :: "os_t \<Rightarrow> cpu_t \<Rightarrow> u64 \<Rightarrow> u64 \<Rightarrow> stop + cpu_t" where
  "SIM_read os p addr len =
     (let (read_num, buf) = (case os_read os (history p) len of
                               None \<Rightarrow> (- 1 :: u32, [])
                             | Some bs \<Rightarrow> (of_nat (length bs), bs));
          p = log_event (HostRead len) p
      in trying (sim_read_loop addr (take (nat (sint read_num)) buf) (mmu p))
           (\<lambda>m. Inr (WRITE_REG (p\<lparr>mmu := m\<rparr>) 10 (scast read_num))))"

text \<open>
  \<^verbatim>\<open>gettimeofday\<close> copies \<^verbatim>\<open>sizeof(tv)\<close> bytes of the structure \<^verbatim>\<open>*tv\<close>, which is the size of a
  pointer.
\<close>

definition rv64_scall :: "os_t \<Rightarrow> insn_func" where
  "rv64_scall os p insn pc =
     (let npc = sext_xlen (pc + PC_INC);
          scall_num = READ_REG p 17;
          addr = READ_REG p 11;
          len = READ_REG p 12
      in if scall_num = 64 then Inr (npc, SIM_write os p addr len)
         else if scall_num = 63 then
           (case SIM_read os p addr len of Inl s \<Rightarrow> Inl s | Inr p \<Rightarrow> Inr (npc, p))
         else if scall_num = 1062 then
           Inr (npc, WRITE_REG (log_event (HostTime addr) p) 10 (os_time os (history p) addr))
         else if scall_num = 93 then
           Inl (Exited 0 (log_event (PrintCounts (print_count (insn_count p))) p))
         else if scall_num = 214 \<or> scall_num = 62 then Inr (npc, p)
         else if scall_num = 80 then
           (let fd = ucast (READ_REG p 10)
            in Inr (npc, WRITE_REG (log_event (HostFstat fd) p) 10
                 (scast (os_fstat os (history p) fd))))
         else if scall_num = 57 then Inr (npc, p)
         else if scall_num = 169 then
           (let tv_addr = READ_REG p 10;
                (ret, tv) = os_gettimeofday os (history p);
                p = WRITE_REG (log_event HostGettimeofday p) 10 (scast ret)
            in trying (write_bare (mmu p) tv_addr tv 8) (\<lambda>m. Inr (npc, p\<lparr>mmu := m\<rparr>)))
         else Inl (Exited 1 (log_event (PrintUnknownCall scall_num) p)))"

definition rv64_fence :: "insn_func" where [insn_defs]:
  "rv64_fence p insn pc =
     (let npc = sext_xlen (pc + PC_INC)
      in Inr (npc, p))"

end
