(* ===== verification/Cpu.thy ===== *)
theory Cpu
  imports Encoding Func_Int Func_Mul Func_Float Func_Sys
begin

unbundle bit_operations_syntax

text \<open>
  The processor \<^verbatim>\<open>cpu_t\<close> of \<^verbatim>\<open>cpu.h\<close>: the table of registered instructions, decoding, one step
  of fetch, decode and execute, and the loop of \<^verbatim>\<open>step(steps)\<close>.
\<close>

subsection \<open>The instruction table\<close>

record insn_desc_t =
  desc_pat :: pattern
  desc_rv64 :: insn_func
  desc_name :: string

definition illegal_instruction :: "insn_func" where [insn_defs]:
  "illegal_instruction p insn pc = Inr (0, p)"

definition illegal_desc :: insn_desc_t where
  "illegal_desc = \<lparr>desc_pat = (0, 0), desc_rv64 = illegal_instruction, desc_name = ''illegal''\<rparr>"

definition insn_list :: "os_t \<Rightarrow> fpu_t \<Rightarrow> (string \<times> pattern \<times> insn_func) list" where
  "insn_list os fpu = [
     (''addi'', pat_addi, rv64_addi), (''lw'', pat_lw, rv64_lw), (''ld'', pat_ld, rv64_ld),
     (''sw'', pat_sw, rv64_sw), (''sd'', pat_sd, rv64_sd), (''jal'', pat_jal, rv64_jal),
     (''bne'', pat_bne, rv64_bne), (''add'', pat_add, rv64_add),
     (''addiw'', pat_addiw, rv64_addiw), (''lui'', pat_lui, rv64_lui),
     (''sub'', pat_sub, rv64_sub), (''sll'', pat_sll, rv64_sll), (''slt'', pat_slt, rv64_slt),
     (''sltu'', pat_sltu, rv64_sltu), (''xor'', pat_xor, rv64_xor), (''srl'', pat_srl, rv64_srl),
     (''sra'', pat_sra, rv64_sra), (''or'', pat_or, rv64_or), (''and'', pat_and, rv64_and),
     (''slli'', pat_slli, rv64_slli), (''slti'', pat_slti, rv64_slti),
     (''sltiu'', pat_sltiu, rv64_sltiu), (''xori'', pat_xori, rv64_xori),
     (''srli'', pat_srli, rv64_srli), (''srai'', pat_srai, rv64_srai),
     (''ori'', pat_ori, rv64_ori), (''andi'', pat_andi, rv64_andi), (''beq'', pat_beq, rv64_beq),
     (''blt'', pat_blt, rv64_blt), (''bge'', pat_bge, rv64_bge), (''bltu'', pat_bltu, rv64_bltu),
     (''bgeu'', pat_bgeu, rv64_bgeu), (''lb'', pat_lb, rv64_lb), (''lh'', pat_lh, rv64_lh),
     (''lbu'', pat_lbu, rv64_lbu), (''lhu'', pat_lhu, rv64_lhu), (''lwu'', pat_lwu, rv64_lwu),
     (''sb'', pat_sb, rv64_sb), (''sh'', pat_sh, rv64_sh), (''jalr'', pat_jalr, rv64_jalr),
     (''auipc'', pat_auipc, rv64_auipc), (''addw'', pat_addw, rv64_addw),
     (''subw'', pat_subw, rv64_subw), (''sllw'', pat_sllw, rv64_sllw),
     (''srlw'', pat_srlw, rv64_srlw), (''sraw'', pat_sraw, rv64_sraw),
     (''slliw'', pat_slliw, rv64_slliw), (''srliw'', pat_srliw, rv64_srliw),
     (''sraiw'', pat_sraiw, rv64_sraiw), (''mul'', pat_mul, rv64_mul),
     (''mulw'', pat_mulw, rv64_mulw), (''mulh'', pat_mulh, rv64_mulh),
     (''mulhu'', pat_mulhu, rv64_mulhu), (''mulhsu'', pat_mulhsu, rv64_mulhsu),
     (''div'', pat_div, rv64_div), (''divu'', pat_divu, rv64_divu),
     (''divw'', pat_divw, rv64_divw), (''divuw'', pat_divuw, rv64_divuw),
     (''rem'', pat_rem, rv64_rem), (''remu'', pat_remu, rv64_remu),
     (''remw'', pat_remw, rv64_remw), (''remuw'', pat_remuw, rv64_remuw),
     (''scall'', pat_scall, rv64_scall os), (''fence'', pat_fence, rv64_fence),
     (''fld'', pat_fld, rv64_fld), (''flw'', pat_flw, rv64_flw), (''fsd'', pat_fsd, rv64_fsd),
     (''fsw'', pat_fsw, rv64_fsw), (''fmv_s_x'', pat_fmv_s_x, rv64_fmv_s_x),
     (''fmul_d'', pat_fmul_d, rv64_fmul_d fpu), (''fdiv_d'', pat_fdiv_d, rv64_fdiv_d fpu),
     (''fmul_s'', pat_fmul_s, rv64_fmul_s fpu), (''fdiv_s'', pat_fdiv_s, rv64_fdiv_s fpu),
     (''fadd_d'', pat_fadd_d, rv64_fadd_d fpu), (''fsub_d'', pat_fsub_d, rv64_fsub_d fpu),
     (''fadd_s'', pat_fadd_s, rv64_fadd_s fpu), (''fsub_s'', pat_fsub_s, rv64_fsub_s fpu),
     (''fmv_x_d'', pat_fmv_x_d, rv64_fmv_x_d), (''fmv_d_x'', pat_fmv_d_x, rv64_fmv_d_x),
     (''fcvt_l_d'', pat_fcvt_l_d, rv64_fcvt_l_d fpu),
     (''fcvt_s_l'', pat_fcvt_s_l, rv64_fcvt_s_l fpu),
     (''fcvt_s_w'', pat_fcvt_s_w, rv64_fcvt_s_w fpu),
     (''fcvt_s_d'', pat_fcvt_s_d, rv64_fcvt_s_d fpu),
     (''fcvt_d_s'', pat_fcvt_d_s, rv64_fcvt_d_s fpu),
     (''fcvt_d_w'', pat_fcvt_d_w, rv64_fcvt_d_w fpu),
     (''fcvt_d_l'', pat_fcvt_d_l, rv64_fcvt_d_l fpu),
     (''fcvt_w_d'', pat_fcvt_w_d, rv64_fcvt_w_d fpu),
     (''fcvt_wu_d'', pat_fcvt_wu_d, rv64_fcvt_wu_d fpu),
     (''fsgnj_d'', pat_fsgnj_d, rv64_fsgnj_d), (''feq_d'', pat_feq_d, rv64_feq_d fpu),
     (''fle_d'', pat_fle_d, rv64_fle_d fpu), (''flt_d'', pat_flt_d, rv64_flt_d fpu),
     (''fmadd_d'', pat_fmadd_d, rv64_fmadd_d fpu)]"

definition registered :: "os_t \<Rightarrow> fpu_t \<Rightarrow> insn_desc_t list" where
  "registered os fpu = map (\<lambda>(name, p, f). \<lparr>desc_pat = p, desc_rv64 = f, desc_name = name\<rparr>)
     (insn_list os fpu)"

definition instructions :: "os_t \<Rightarrow> fpu_t \<Rightarrow> insn_desc_t list" where
  "instructions os fpu = registered os fpu @ [illegal_desc]"

text \<open>The counters that registering the instructions creates.\<close>

definition initial_counts :: "os_t \<Rightarrow> fpu_t \<Rightarrow> (string \<times> u32) list" where
  "initial_counts os fpu =
     foldl (\<lambda>counts d. count_insert (desc_name d) 0 counts) [] (instructions os fpu)"

subsection \<open>Decoding and stepping\<close>

text \<open>
  The search of \<^verbatim>\<open>decode_insn\<close> moves a pointer over the table until an entry matches; running
  past the end is \<open>None\<close>.
\<close>

fun decode_loop :: "u64 \<Rightarrow> insn_desc_t list \<Rightarrow> insn_desc_t option" where
  "decode_loop bits [] = None"
| "decode_loop bits (p # ps) =
     (if bits AND snd (desc_pat p) \<noteq> fst (desc_pat p) then decode_loop bits ps else Some p)"

definition decode_insn :: "os_t \<Rightarrow> fpu_t \<Rightarrow> u64 \<Rightarrow> insn_desc_t option" where
  "decode_insn os fpu bits = decode_loop bits (instructions os fpu)"

definition set_state_pc :: "cpu_t \<Rightarrow> u64 \<Rightarrow> cpu_t" where
  "set_state_pc p v = p\<lparr>cpu_state := (cpu_state p)\<lparr>state_pc := v\<rparr>\<rparr>"

text \<open>
  One round of the loop in \<^verbatim>\<open>step\<close>: fetch, decode and count, print the program counter of an
  illegal instruction, execute, and set the program counter to the value the handler returns.
\<close>

definition execute_insn :: "insn_desc_t \<Rightarrow> cpu_t \<Rightarrow> stop + u64 \<times> cpu_t" where
  "execute_insn d p = desc_rv64 d p (c_insn p) (state_pc (cpu_state p))"

definition fetch_decode :: "insn_desc_t \<Rightarrow> u64 \<Rightarrow> cpu_t \<Rightarrow> cpu_t" where
  "fetch_decode d bits p =
     (let p = p\<lparr>c_insn := bits, c_name := desc_name d,
                insn_count := count_insn (desc_name d) (insn_count p)\<rparr>
      in if desc_name d = ''illegal'' then log_event (PrintIllegal (state_pc (cpu_state p))) p else p)"

definition step_once :: "os_t \<Rightarrow> fpu_t \<Rightarrow> cpu_t \<Rightarrow> stop + cpu_t" where
  "step_once os fpu p =
     (case load_insn (mmu p) (state_pc (cpu_state p)) of
        Inl e \<Rightarrow> Inl (Threw e)
      | Inr bits \<Rightarrow>
          (case decode_insn os fpu bits of
             None \<Rightarrow> Inr p
           | Some d \<Rightarrow>
               (case execute_insn d (fetch_decode d bits p) of
                  Inl s \<Rightarrow> Inl s
                | Inr (npc, p) \<Rightarrow> Inr (set_state_pc p npc))))"

text \<open>
  \<^verbatim>\<open>step(steps)\<close> makes \<open>steps\<close> rounds, or, when \<open>steps\<close> is 0 as in \<^verbatim>\<open>main\<close>, goes on until the
  simulator stops; \<open>None\<close> is a run that never does.
\<close>

partial_function (option) run_forever :: "os_t \<Rightarrow> fpu_t \<Rightarrow> cpu_t \<Rightarrow> stop option" where
  "run_forever os fpu p =
     (case step_once os fpu p of Inl s \<Rightarrow> Some s | Inr p' \<Rightarrow> run_forever os fpu p')"

definition cpu_step :: "os_t \<Rightarrow> fpu_t \<Rightarrow> nat \<Rightarrow> cpu_t \<Rightarrow> (stop + cpu_t) option" where
  "cpu_step os fpu steps p =
     (if steps = 0 then map_option Inl (run_forever os fpu p)
      else Some (iterate (step_once os fpu) steps p))"

subsection \<open>Decoding\<close>

lemma registered_patterns: "map desc_pat (registered os fpu) = patterns"
  by (simp add: registered_def insn_list_def patterns_def)

interpretation itable: decode_table desc_pat "registered os fpu" for os fpu
proof unfold_locales
  have "all_clash (map (trits \<circ> desc_pat) (registered os fpu))"
    using patterns_clash unfolding registered_patterns [of os fpu, symmetric] by simp
  then show "sorted_wrt (\<lambda>d e. \<forall>b. \<not> (matches (desc_pat d) b \<and> matches (desc_pat e) b))
      (registered os fpu)"
    by (rule all_clash_exclusive)
qed

lemma decode_loop_find: "decode_loop b ds = find (\<lambda>d. matches (desc_pat d) b) ds"
  by (induction ds) (auto simp: matches_def)

lemma find_append_Some:
  "find P (xs @ [x]) = (case find P xs of None \<Rightarrow> if P x then Some x else None | Some y \<Rightarrow> Some y)"
  by (induction xs) auto

lemma illegal_matches [simp]: "matches (desc_pat illegal_desc) b"
  by (simp add: matches_def illegal_desc_def)

lemma decode_insn_find:
  "decode_insn os fpu b = Some (case find (\<lambda>d. matches (desc_pat d) b) (registered os fpu) of
     None \<Rightarrow> illegal_desc | Some d \<Rightarrow> d)"
  by (simp add: decode_insn_def instructions_def decode_loop_find find_append_Some split: option.split)

text \<open>
  C4: decoding always finds an entry, for every 64-bit value of the instruction bits: the
  registered instruction whose pattern matches, which is the only one, or the illegal entry
  when none matches. The order in which the instructions were registered plays no role.
\<close>

theorem decode_correct:
  "(decode_insn os fpu b = Some d \<longleftrightarrow>
      (d \<in> set (registered os fpu) \<and> matches (desc_pat d) b)
      \<or> (d = illegal_desc \<and> (\<forall>e \<in> set (registered os fpu). \<not> matches (desc_pat e) b)))
   \<and> decode_insn os fpu b \<noteq> None
   \<and> (set tab = set (registered os fpu) \<longrightarrow> decode_loop b (tab @ [illegal_desc]) = decode_insn os fpu b)"
proof (intro conjI impI)
  show "decode_insn os fpu b = Some d \<longleftrightarrow>
      (d \<in> set (registered os fpu) \<and> matches (desc_pat d) b)
      \<or> (d = illegal_desc \<and> (\<forall>e \<in> set (registered os fpu). \<not> matches (desc_pat e) b))"
  proof (cases "find (\<lambda>d. matches (desc_pat d) b) (registered os fpu)")
    case None
    then have "\<forall>e \<in> set (registered os fpu). \<not> matches (desc_pat e) b"
      by (simp add: find_None_iff)
    with None show ?thesis by (auto simp: decode_insn_find)
  next
    case (Some e)
    then have "e \<in> set (registered os fpu) \<and> matches (desc_pat e) b" by (simp add: itable.find_iff)
    moreover have "d \<in> set (registered os fpu) \<and> matches (desc_pat d) b \<longleftrightarrow> d = e"
      using Some by (auto simp: itable.find_iff [symmetric])
    ultimately show ?thesis using Some by (auto simp: decode_insn_find)
  qed
  show "decode_insn os fpu b \<noteq> None" by (simp add: decode_insn_find)
  show "decode_loop b (tab @ [illegal_desc]) = decode_insn os fpu b"
    if "set tab = set (registered os fpu)"
    using itable.find_reordered [OF that]
    by (simp add: decode_insn_def instructions_def decode_loop_find find_append_Some)
qed
end
