(* ===== verification/Invariants.thy ===== *)
theory Invariants
  imports Cpu
begin

unbundle bit_operations_syntax

text \<open>
  What every instruction keeps: a relation between the machine before and after a handler,
  closed under the operations handlers are made of, so that one proof covers the whole table;
  the alignment of the program counter; and the reasons for which an instruction may stop the
  simulator. The steps inherit them, and the interpretations of \<open>step_system\<close> and
  \<open>step_stop\<close> carry them to runs of any length.
\<close>

subsection \<open>What an operation may change in the memory unit\<close>

definition protected_range :: "mmu_t \<Rightarrow> u64 \<Rightarrow> bool" where
  "protected_range m x \<longleftrightarrow>
     (\<exists>(lo, hi) \<in> set (forbid m). 6 \<le> unat hi - unat lo \<and> lo \<le> x \<and> x \<le> hi)"

definition mmu_evolves :: "mmu_t \<Rightarrow> mmu_t \<Rightarrow> bool" where
  "mmu_evolves m m' \<longleftrightarrow> forbid m' = forbid m \<and> entry m' = entry m \<and> end_first m' = end_first m
     \<and> dom (mem m) \<subseteq> dom (mem m') \<and> (\<forall>x. protected_range m x \<longrightarrow> mem m' x = mem m x)"

lemma mmu_evolves_refl [simp]: "mmu_evolves m m"
  by (simp add: mmu_evolves_def)

lemma mmu_evolves_trans: "mmu_evolves m m' \<Longrightarrow> mmu_evolves m' m'' \<Longrightarrow> mmu_evolves m m''"
  unfolding mmu_evolves_def protected_range_def
  by (elim conjE, intro conjI) (auto dest: subset_trans)

lemma dom_put_list: "dom (mem m) \<subseteq> dom (mem (put_list store_it m a bs))"
proof (induction bs arbitrary: m a)
  case (Cons b bs)
  have "dom (mem m) \<subseteq> dom (mem (store_it m a b))" by (auto simp: store_it_def)
  with Cons [of "store_it m a b" "a + 1"] show ?case by auto
qed simp

lemma mmu_write_evolves: "mmu_write m a v n = Inr m' \<Longrightarrow> n \<le> 8 \<Longrightarrow> mmu_evolves m m'"
  unfolding mmu_evolves_def
proof (intro conjI allI impI)
  assume w: "mmu_write m a v n = Inr m'" and n: "n \<le> 8"
  show "forbid m' = forbid m" "entry m' = entry m" "end_first m' = end_first m" using w by simp_all
  show "dom (mem m) \<subseteq> dom (mem m')" using w by (simp add: mmu_write_ok write_loop_put dom_put_list)
  fix x assume "protected_range m x"
  then obtain lo hi where "(lo, hi) \<in> set (forbid m)" "6 \<le> unat hi - unat lo" "lo \<le> x" "x \<le> hi"
    by (auto simp: protected_range_def)
  with w n show "mem m' x = mem m x" by (blast intro: protected_bytes_kept)
qed


lemma write_bare_evolves: "write_bare m a bs n = Inr m' \<Longrightarrow> n \<le> 8 \<Longrightarrow> mmu_evolves m m'"
  unfolding mmu_evolves_def
proof (intro conjI allI impI)
  assume w: "write_bare m a bs n = Inr m'" and n: "n \<le> 8"
  then have m': "m' = put_list store_it m a (take n bs)"
    by (auto simp: write_bare_def write_bare_loop_put split: if_splits)
  show "forbid m' = forbid m" "entry m' = entry m" "end_first m' = end_first m"
    by (simp_all add: m')
  show "dom (mem m) \<subseteq> dom (mem m')" by (simp add: m' dom_put_list)
  fix x assume "protected_range m x"
  then obtain lo hi where "(lo, hi) \<in> set (forbid m)" "6 \<le> unat hi - unat lo" "lo \<le> x" "x \<le> hi"
    by (auto simp: protected_range_def)
  with w n show "mem m' x = mem m x" by (blast intro: protected_bytes_kept)
qed

lemma write_evolves [keeps]:
  "write_8 m a v = Inr m' \<Longrightarrow> mmu_evolves m m'" "write_16 m a v = Inr m' \<Longrightarrow> mmu_evolves m m'"
  "write_32 m a v = Inr m' \<Longrightarrow> mmu_evolves m m'" "write_64 m a v = Inr m' \<Longrightarrow> mmu_evolves m m'"
  by (auto simp: write_defs intro: mmu_write_evolves)

lemma sim_read_loop_evolves [keeps]: "sim_read_loop a bs m = Inr m' \<Longrightarrow> mmu_evolves m m'"
proof (induction bs arbitrary: a m)
  case (Cons b bs)
  then obtain m1 where "write_8 m a (scast b) = Inr m1" "sim_read_loop (a + 1) bs m1 = Inr m'"
    by (auto split: sum.splits)
  then show ?case using Cons.IH by (blast intro: mmu_evolves_trans write_evolves)
qed simp

subsection \<open>What an instruction may change in the machine\<close>

definition wf_cpu :: "cpu_t \<Rightarrow> bool" where
  "wf_cpu p \<longleftrightarrow> wf_regs (XPR (cpu_state p)) \<and> wf_regs (FPR (cpu_state p))"

definition evolves :: "cpu_t \<Rightarrow> cpu_t \<Rightarrow> bool" where
  "evolves p p' \<longleftrightarrow> wf_cpu p' = wf_cpu p \<and> READ_REG p' 0 = READ_REG p 0
     \<and> mmu_evolves (mmu p) (mmu p') \<and> insn_count p' = insn_count p
     \<and> c_insn p' = c_insn p \<and> c_name p' = c_name p
     \<and> state_pc (cpu_state p') = state_pc (cpu_state p)
     \<and> (\<exists>es. history p' = es @ history p)"

lemma evolves_refl [simp]: "evolves p p"
  by (simp add: evolves_def)

lemma evolves_trans: "evolves p p' \<Longrightarrow> evolves p' p'' \<Longrightarrow> evolves p p''"
  unfolding evolves_def by (elim conjE exE, intro conjI) (auto intro: mmu_evolves_trans)

lemma evolves_WRITE_REG: "evolves p p' \<Longrightarrow> evolves p (WRITE_REG p' r v)"
proof (rule evolves_trans)
  have "regfile_get (regfile_write True rs r v) 0 = regfile_get rs 0" for rs
    by (auto simp: regfile_get_def regfile_write_def unsigned_eq_0_iff)
  then show "evolves p' (WRITE_REG p' r v)"
    by (auto simp: evolves_def WRITE_REG_def wf_cpu_def READ_REG_def)
qed

lemma evolves_WRITE_FREG: "evolves p p' \<Longrightarrow> evolves p (WRITE_FREG p' r v)"
  by (rule evolves_trans) (auto simp: evolves_def WRITE_FREG_def wf_cpu_def READ_REG_def)

lemma evolves_mmu: "evolves p p' \<Longrightarrow> mmu_evolves (mmu p') m \<Longrightarrow> evolves p (p'\<lparr>mmu := m\<rparr>)"
  by (erule evolves_trans) (auto simp: evolves_def wf_cpu_def READ_REG_def)

lemma evolves_log: "evolves p p' \<Longrightarrow> evolves p (log_event e p')"
  by (erule evolves_trans) (auto simp: evolves_def wf_cpu_def READ_REG_def log_event_def)

lemmas evolves_intros = evolves_refl evolves_WRITE_REG evolves_WRITE_FREG evolves_mmu evolves_log

lemma mmu_of_updates [simp]:
  "mmu (WRITE_REG p r v) = mmu p" "mmu (WRITE_FREG p r v) = mmu p" "mmu (log_event e p) = mmu p"
  by (simp_all add: WRITE_REG_def WRITE_FREG_def log_event_def)

lemma trying_Inr: "trying r f = Inr y \<longleftrightarrow> (\<exists>x. r = Inr x \<and> f x = Inr y)"
  by (auto simp: trying_def split: sum.splits)

lemma scall_evolves: "rv64_scall os p insn pc = Inr (npc, p') \<Longrightarrow> evolves p p'"
  by (auto simp: rv64_scall_def SIM_write_def SIM_read_def Let_def trying_Inr
      split: if_splits sum.splits prod.splits option.splits
      intro!: evolves_intros intro: keeps write_bare_evolves)

definition frame_ok :: "insn_func \<Rightarrow> bool" where
  "frame_ok f \<longleftrightarrow> (\<forall>p insn pc npc p'. f p insn pc = Inr (npc, p') \<longrightarrow> evolves p p')"

lemma handlers_frame:
  "d \<in> set (instructions os fpu) \<Longrightarrow> frame_ok (desc_rv64 d)"
  unfolding instructions_def registered_def insn_list_def illegal_desc_def
  by (auto simp: frame_ok_def insn_defs WRITE_RD_def WRITE_FRD_def Let_def trying_Inr
      split: if_splits intro!: evolves_intros intro: keeps scall_evolves)


subsection \<open>Alignment of the program counter\<close>

definition aligned4 :: "u64 \<Rightarrow> bool" where
  "aligned4 x \<longleftrightarrow> take_bit 2 x = 0"

lemma aligned4_iff: "aligned4 x \<longleftrightarrow> even x \<and> \<not> bit x 1"
proof -
  have "take_bit 2 x = 0 \<longleftrightarrow> \<not> bit x 0 \<and> \<not> bit x 1"
  proof
    assume a: "take_bit 2 x = 0"
    have "bit (take_bit 2 x) 0 = bit x 0" "bit (take_bit 2 x) 1 = bit x 1"
      by (simp_all only: bit_take_bit_iff) auto
    with a show "\<not> bit x 0 \<and> \<not> bit x 1" by simp
  next
    assume "\<not> bit x 0 \<and> \<not> bit x 1"
    then show "take_bit 2 x = 0"
      by (intro bit_word_eqI) (auto simp: bit_take_bit_iff less_Suc_eq numeral_2_eq_2)
  qed
  then show ?thesis by (simp add: aligned4_def bit_0)
qed

lemma aligned4_0 [simp]: "aligned4 0"
  by (simp add: aligned4_def)

lemma aligned4_unat: "aligned4 x \<longleftrightarrow> unat x mod 4 = 0"
proof -
  have "unat (take_bit 2 x) = unat x mod 4"
    by (simp add: unsigned_take_bit_eq take_bit_eq_mod unat_mod)
  then show ?thesis by (metis aligned4_def unat_eq_zero)
qed

lemma aligned4_inc: "aligned4 pc \<Longrightarrow> aligned4 (pc + PC_INC)"
proof -
  assume a: "aligned4 pc"
  have "unat (pc + PC_INC) = (unat pc + 4) mod 2 ^ 64"
    by (simp add: PC_INC_def unat_word_ariths)
  also have "\<dots> mod 4 = (unat pc + 4) mod 4" by (rule mod_mod_cancel) simp
  finally show ?thesis using a by (simp add: aligned4_unat)
qed

lemma and_2_iff: "x AND 2 = 0 \<longleftrightarrow> \<not> bit x 1" for x :: u64
  using bit_iff_and_push_bit_not_eq_0 [of x 1] by simp

lemma set_pc_Inr: "set_pc x = Inr y \<longleftrightarrow> \<not> bit x 1 \<and> y = x"
  by (auto simp: set_pc_def and_2_iff)

lemma even_bit_0: "even x \<longleftrightarrow> \<not> bit x 0" for x :: u64
  by (simp add: bit_0)

lemma even_sb_imm: "even (sb_imm b)"
  unfolding even_bit_0 sb_imm_or by (simp add: bit_simps bit_times2)

lemma even_uj_imm: "even (uj_imm b)"
  unfolding even_bit_0 uj_imm_or by (simp add: bit_simps bit_times2)

lemma aligned4_branch: "aligned4 pc \<Longrightarrow> set_pc (branch_target pc insn) = Inr npc \<Longrightarrow> aligned4 npc"
  by (auto simp: set_pc_Inr branch_target_def aligned4_iff even_sb_imm)

lemma aligned4_jump: "aligned4 pc \<Longrightarrow> set_pc (jump_target pc insn) = Inr npc \<Longrightarrow> aligned4 npc"
  by (auto simp: set_pc_Inr jump_target_def aligned4_iff even_uj_imm)

lemma aligned4_jalr: "set_pc (x AND NOT 1) = Inr npc \<Longrightarrow> aligned4 npc"
  by (auto simp: set_pc_Inr aligned4_iff even_and_iff)

definition aligned_ok :: "insn_func \<Rightarrow> bool" where
  "aligned_ok f \<longleftrightarrow> (\<forall>p insn pc npc p'. aligned4 pc \<longrightarrow> f p insn pc = Inr (npc, p') \<longrightarrow> aligned4 npc)"

lemma scall_npc: "rv64_scall os p insn pc = Inr (npc, p') \<Longrightarrow> npc = pc + PC_INC"
  by (auto simp: rv64_scall_def Let_def trying_Inr split: if_splits sum.splits prod.splits)

lemma handlers_aligned:
  "d \<in> set (instructions os fpu) \<Longrightarrow> aligned_ok (desc_rv64 d)"
  unfolding instructions_def registered_def insn_list_def illegal_desc_def
  by (auto simp: aligned_ok_def insn_defs Let_def trying_Inr
      split: if_splits dest!: scall_npc intro: aligned4_inc aligned4_branch aligned4_jump aligned4_jalr)

subsection \<open>Why an instruction may stop the simulator\<close>

definition expected_stop :: "stop \<Rightarrow> bool" where
  "expected_stop s \<longleftrightarrow> (case s of
     Threw trap_illegal_instruction \<Rightarrow> False
   | Threw (trap_instruction_address_misaligned x) \<Rightarrow> bit x 1
   | Threw (invalid_address pc x) \<Rightarrow> unat (x - pc) < 4
   | Threw (no_permission a b) \<Rightarrow> unat (b - a) < 8
   | Exited c p \<Rightarrow> c = 0 \<or> c = 1)"

definition stop_ok :: "insn_func \<Rightarrow> bool" where
  "stop_ok f \<longleftrightarrow> (\<forall>p insn pc s. f p insn pc = Inl s \<longrightarrow> expected_stop s)"

lemma trying_Inl: "trying r f = Inl s \<longleftrightarrow> (\<exists>e. r = Inl e \<and> s = Threw e) \<or> (\<exists>x. r = Inr x \<and> f x = Inl s)"
  by (auto simp: trying_def split: sum.splits)

lemma set_pc_Inl: "set_pc x = Inl e \<longleftrightarrow> bit x 1 \<and> e = trap_instruction_address_misaligned x"
  by (auto simp: set_pc_def and_2_iff)

lemma write_Inl:
  "write_8 m a v = Inl e \<Longrightarrow> expected_stop (Threw e)"
  "write_16 m a v = Inl e \<Longrightarrow> expected_stop (Threw e)"
  "write_32 m a v = Inl e \<Longrightarrow> expected_stop (Threw e)"
  "write_64 m a v = Inl e \<Longrightarrow> expected_stop (Threw e)"
  "write_bare m a bs 8 = Inl e \<Longrightarrow> expected_stop (Threw e)"
  by (auto simp: write_defs mmu_write_def write_bare_def expected_stop_def split: if_splits)

lemma sim_read_loop_Inl: "sim_read_loop a bs m = Inl e \<Longrightarrow> expected_stop (Threw e)"
  by (induction a bs m rule: sim_read_loop.induct) (auto split: sum.splits dest: write_Inl)

lemma shamt_less: "shamt insn < of_nat xlen"
  using unat_shamt [of insn] by (simp add: xlen_def word_less_nat_alt)

lemma scall_stop: "rv64_scall os p insn pc = Inl s \<Longrightarrow> expected_stop s"
  by (auto simp: rv64_scall_def SIM_read_def Let_def trying_Inl
      split: if_splits sum.splits prod.splits dest: write_Inl sim_read_loop_Inl)
    (auto simp: expected_stop_def)

lemma handlers_stop:
  "d \<in> set (instructions os fpu) \<Longrightarrow> stop_ok (desc_rv64 d)"
  unfolding instructions_def registered_def insn_list_def illegal_desc_def
  by (auto simp: stop_ok_def insn_defs Let_def trying_Inl set_pc_Inl shamt_less
      split: if_splits dest: write_Inl scall_stop)
    (auto simp: expected_stop_def)

end
