(* ===== verification/Run.thy ===== *)
theory Run
  imports Invariants "HOL-Library.Multiset"
begin

unbundle bit_operations_syntax

text \<open>
  Steps and runs of the whole processor. One step inherits what every handler keeps; the
  interpretations of \<open>step_system\<close> and \<open>step_stop\<close> on \<open>step_once\<close> carry it to runs of any
  length. Then the loop of \<^verbatim>\<open>step\<close>, the counters of the executed instructions, and a small
  machine at which the theorems are applied.
\<close>

subsection \<open>One step\<close>

definition step_evolves :: "cpu_t \<Rightarrow> cpu_t \<Rightarrow> bool" where
  "step_evolves p p' \<longleftrightarrow> wf_cpu p' = wf_cpu p \<and> READ_REG p' 0 = READ_REG p 0
     \<and> mmu_evolves (mmu p) (mmu p') \<and> (\<exists>es. history p' = es @ history p)"

lemma decoded_in_table: "decode_insn os fpu b = Some d \<Longrightarrow> d \<in> set (instructions os fpu)"
  by (auto simp: decode_insn_find instructions_def itable.find_iff split: option.splits)

lemma decode_not_None [simp]: "decode_insn os fpu b \<noteq> None"
  by (simp add: decode_insn_find)

lemma fetch_decode_simps [simp]:
  "state_pc (cpu_state (fetch_decode d bits p)) = state_pc (cpu_state p)"
  "c_insn (fetch_decode d bits p) = bits" "mmu (fetch_decode d bits p) = mmu p"
  by (simp_all add: fetch_decode_def log_event_def Let_def)

lemma step_once_Inr:
  "step_once os fpu p = Inr p' \<longleftrightarrow> (\<exists>bits d npc p1.
     load_insn (mmu p) (state_pc (cpu_state p)) = Inr bits \<and> decode_insn os fpu bits = Some d
     \<and> desc_rv64 d (fetch_decode d bits p) bits (state_pc (cpu_state p)) = Inr (npc, p1)
     \<and> p' = set_state_pc p1 npc)"
  by (auto simp: step_once_def execute_insn_def split: sum.splits option.splits prod.splits)

lemma step_once_InrE:
  assumes "step_once os fpu p = Inr p'"
  obtains bits d npc p1 where "load_insn (mmu p) (state_pc (cpu_state p)) = Inr bits"
    "decode_insn os fpu bits = Some d" "d \<in> set (instructions os fpu)"
    "desc_rv64 d (fetch_decode d bits p) bits (state_pc (cpu_state p)) = Inr (npc, p1)"
    "p' = set_state_pc p1 npc"
  using assms unfolding step_once_Inr by (blast intro: decoded_in_table)

lemma step_once_InlE:
  assumes "step_once os fpu p = Inl s"
  obtains (fetch) e where "load_insn (mmu p) (state_pc (cpu_state p)) = Inl e" "s = Threw e"
  | (execute) bits d where "load_insn (mmu p) (state_pc (cpu_state p)) = Inr bits"
    "decode_insn os fpu bits = Some d" "d \<in> set (instructions os fpu)"
    "desc_rv64 d (fetch_decode d bits p) bits (state_pc (cpu_state p)) = Inl s"
  using assms that
  by (auto simp: step_once_def execute_insn_def
      intro: decoded_in_table split: sum.splits option.splits prod.splits)

lemma fetch_decode_evolves: "step_evolves p (fetch_decode d bits p)"
  by (auto simp: step_evolves_def fetch_decode_def log_event_def Let_def wf_cpu_def READ_REG_def)

lemma set_state_pc_evolves: "step_evolves p (set_state_pc p v)"
  by (auto simp: step_evolves_def set_state_pc_def wf_cpu_def READ_REG_def)

lemma step_evolves_trans: "step_evolves p p' \<Longrightarrow> step_evolves p' p'' \<Longrightarrow> step_evolves p p''"
  unfolding step_evolves_def
  by (elim conjE exE, intro conjI) (auto intro: mmu_evolves_trans)

lemma step_once_evolves: "step_once os fpu p = Inr p' \<Longrightarrow> step_evolves p p'"
proof (erule step_once_InrE)
  fix bits d npc p1
  assume "d \<in> set (instructions os fpu)"
    and "desc_rv64 d (fetch_decode d bits p) bits (state_pc (cpu_state p)) = Inr (npc, p1)"
    and p': "p' = set_state_pc p1 npc"
  then have "evolves (fetch_decode d bits p) p1"
    using handlers_frame by (auto simp: frame_ok_def)
  then have "step_evolves (fetch_decode d bits p) p1"
    by (auto simp: evolves_def step_evolves_def)
  then show "step_evolves p p'"
    unfolding p' by (blast intro: step_evolves_trans fetch_decode_evolves set_state_pc_evolves)
qed

lemma step_once_mmu: "step_once os fpu p = Inr p' \<Longrightarrow> mmu_evolves (mmu p) (mmu p')"
  by (auto dest: step_once_evolves simp: step_evolves_def)

lemma state_pc_set [simp]: "state_pc (cpu_state (set_state_pc p v)) = v"
  by (simp add: set_state_pc_def)

lemma step_once_aligned:
  "step_once os fpu p = Inr p' \<Longrightarrow> aligned4 (state_pc (cpu_state p)) \<Longrightarrow> aligned4 (state_pc (cpu_state p'))"
  by (elim step_once_InrE) (use handlers_aligned in \<open>fastforce simp: aligned_ok_def\<close>)

lemma load_insn_Inl: "load_insn m PC = Inl e \<Longrightarrow> expected_stop (Threw e)"
  by (auto simp: load_insn_unfold expected_stop_def split: option.splits)

lemma step_once_stop: "step_once os fpu p = Inl s \<Longrightarrow> expected_stop s"
  by (elim step_once_InlE) (use handlers_stop in \<open>auto simp: stop_ok_def dest: load_insn_Inl\<close>)

subsection \<open>Runs\<close>

interpretation run_wf: step_system "step_once os fpu" wf_cpu for os fpu
  by unfold_locales (auto dest: step_once_evolves simp: step_evolves_def)

interpretation run_x0: step_system "step_once os fpu" "\<lambda>p. READ_REG p 0 = v" for os fpu v
  by unfold_locales (auto dest: step_once_evolves simp: step_evolves_def)

interpretation run_mem: step_system "step_once os fpu" "\<lambda>p. mmu_evolves m (mmu p)" for os fpu m
  by unfold_locales (blast intro: mmu_evolves_trans step_once_mmu)

interpretation run_pc: step_system "step_once os fpu" "\<lambda>p. aligned4 (state_pc (cpu_state p))" for os fpu
  by unfold_locales (rule step_once_aligned)

interpretation run_stops: step_stop "step_once os fpu" "\<lambda>_. True" expected_stop for os fpu
  by unfold_locales (auto intro: step_once_stop)

lemma iterate_run_forever:
  "iterate (step_once os fpu) n p = Inl s \<Longrightarrow> run_forever os fpu p = Some s"
proof (induction n arbitrary: p)
  case (Suc n)
  then show ?case by (subst run_forever.simps) (auto split: sum.splits)
qed simp

lemma run_forever_iterate:
  assumes "run_forever os fpu p = Some s"
  shows "\<exists>n. iterate (step_once os fpu) n p = Inl s"
proof (rule run_forever.raw_induct [where P = "\<lambda>os fpu p s. \<exists>n. iterate (step_once os fpu) n p = Inl s",
      OF _ assms])
  fix f os fpu p s
  assume IH: "\<And>os fpu p s. f os fpu p = Some s \<Longrightarrow> \<exists>n. iterate (step_once os fpu) n p = Inl s"
    and eq: "(case step_once os fpu p of Inl s \<Rightarrow> Some s | Inr p' \<Rightarrow> f os fpu p') = Some s"
  show "\<exists>n. iterate (step_once os fpu) n p = Inl s"
  proof (cases "step_once os fpu p")
    case (Inl e)
    with eq have "iterate (step_once os fpu) (Suc 0) p = Inl s" by simp
    then show ?thesis by blast
  next
    case (Inr p')
    with eq IH obtain n where "iterate (step_once os fpu) n p' = Inl s" by fastforce
    with Inr have "iterate (step_once os fpu) (Suc n) p = Inl s" by simp
    then show ?thesis by blast
  qed
qed

subsection \<open>A step whose instruction is known\<close>

lemma decode_known:
  "(name, pat, f) \<in> set (insn_list os fpu) \<Longrightarrow> matches pat b \<Longrightarrow>
   decode_insn os fpu b = Some \<lparr>desc_pat = pat, desc_rv64 = f, desc_name = name\<rparr>"
  using itable.find_matching [of "\<lparr>desc_pat = pat, desc_rv64 = f, desc_name = name\<rparr>" os fpu b]
  by (force simp: decode_insn_find registered_def)

lemma step_once_known:
  assumes "holds_insn (mmu p) (state_pc (cpu_state p)) w"
    and "(name, pat, f) \<in> set (insn_list os fpu)" "matches pat (scast w)" "name \<noteq> ''illegal''"
  shows "step_once os fpu p =
    (case f (p\<lparr>c_insn := scast w, c_name := name, insn_count := count_insn name (insn_count p)\<rparr>)
        (scast w) (state_pc (cpu_state p)) of
       Inl s \<Rightarrow> Inl s | Inr (npc, p') \<Rightarrow> Inr (set_state_pc p' npc))"
  using assms load_insn_holds [OF assms(1)] decode_known [OF assms(2,3)]
  by (simp add: step_once_def execute_insn_def fetch_decode_def)

subsection \<open>A small machine\<close>

text \<open>
  A machine with a given program at address 0x1000, a protected range, and a host that answers
  every call with zero; the theorems are applied to it at concrete inputs.
\<close>

definition demo_os :: os_t where
  "demo_os = \<lparr>os_write = (\<lambda>_ bs. of_nat (length bs)), os_read = (\<lambda>_ _. Some []), os_time = (\<lambda>_ _. 0),
     os_fstat = (\<lambda>_ _. 0), os_gettimeofday = (\<lambda>_. (0, replicate 16 0))\<rparr>"

definition demo_fpu :: fpu_t where
  "demo_fpu = \<lparr>f64_add = (\<lambda>_ _. 0), f64_sub = (\<lambda>_ _. 0), f64_mul = (\<lambda>_ _. 0), f64_div = (\<lambda>_ _. 0),
     f64_muladd = (\<lambda>_ _ _. 0), f64_eq = (\<lambda>_ _. False), f64_le = (\<lambda>_ _. False),
     f64_lt = (\<lambda>_ _. False), f64_rint = (\<lambda>_. 0), f64_trunc = (\<lambda>_. 0), f64_floor = (\<lambda>_. 0),
     f64_ceil = (\<lambda>_. 0), f64_of_u64 = (\<lambda>_. 0), f64_of_i64 = (\<lambda>_. 0), f64_of_i32 = (\<lambda>_. 0),
     f64_to_i64 = (\<lambda>_. 0), f64_to_i32 = (\<lambda>_. 0), f64_to_u32 = (\<lambda>_. 0), f64_to_f32 = (\<lambda>_. 0),
     f32_add = (\<lambda>_ _. 0), f32_sub = (\<lambda>_ _. 0), f32_mul = (\<lambda>_ _. 0), f32_div = (\<lambda>_ _. 0),
     f32_of_i64 = (\<lambda>_. 0), f32_of_i32 = (\<lambda>_. 0), f32_to_f64 = (\<lambda>_. 0)\<rparr>"

definition words_at :: "u64 \<Rightarrow> u32 list \<Rightarrow> u64 \<Rightarrow> u8 option" where
  "words_at a ws x = (let i = unat (x - a)
     in if i < 4 * length ws then Some (ucast (drop_bit (8 * (i mod 4)) (ws ! (i div 4)))) else None)"

definition demo_mmu :: "u32 list \<Rightarrow> mmu_t" where
  "demo_mmu ws = \<lparr>mem = words_at 0x1000 ws, forbid = [(0x1000, 0x10ff)], entry = 0x1000,
     end_first = (\<lambda>_. 0), end_second = 0\<rparr>"

definition demo_cpu :: "u32 list \<Rightarrow> cpu_t" where
  "demo_cpu ws = \<lparr>cpu_state = \<lparr>state_pc = 0x1000, XPR = replicate 32 0, FPR = replicate 32 0,
       fflags = 0, frm = 0\<rparr>, mmu = demo_mmu ws, c_insn = 0, c_name = [], insn_count = [], history = []\<rparr>"

lemmas demo_defs = demo_cpu_def demo_mmu_def words_at_def

lemma demo_holds: "ws \<noteq> [] \<Longrightarrow> holds_insn (mmu (demo_cpu ws)) 0x1000 (hd ws)"
  by (cases ws) (simp_all add: holds_insn_def demo_defs)

lemma demo_addi: "step_once os fpu (demo_cpu [0x00500093]) =
  Inr ((demo_cpu [0x00500093])\<lparr>c_insn := 0x00500093, c_name := ''addi'',
    cpu_state := \<lparr>state_pc = 0x1004, XPR = (replicate 32 0)[1 := 5], FPR = replicate 32 0,
      fflags = 0, frm = 0\<rparr>\<rparr>)"
proof -
  have "(''addi'', pat_addi, rv64_addi) \<in> set (insn_list os fpu)" by (simp add: insn_list_def)
  moreover have "state_pc (cpu_state (demo_cpu [0x00500093])) = 0x1000" by (simp add: demo_cpu_def)
  moreover have "holds_insn (mmu (demo_cpu [0x00500093])) 0x1000 0x00500093"
    using demo_holds [of "[0x00500093]"] by simp
  moreover have "matches pat_addi (scast (0x00500093 :: u32))"
    by (simp add: matches_def pat_addi_def)
  ultimately show ?thesis
    by (subst step_once_known [where w = "0x00500093" and name = "''addi''" and pat = pat_addi and f = rv64_addi])
      (simp_all add: rv64_addi_def WRITE_RD_def WRITE_REG_def RS1_def READ_REG_def regfile_get_def
        regfile_write_def insn_rs1_def insn_rd_def insn_x_def i_imm_def PC_INC_def set_state_pc_def
        demo_cpu_def count_insn_def)
qed

theorem decode_correct_witness:
  "decode_insn demo_os demo_fpu 0x00500093
     = Some \<lparr>desc_pat = pat_addi, desc_rv64 = rv64_addi, desc_name = ''addi''\<rparr>"
proof -
  let ?d = "\<lparr>desc_pat = pat_addi, desc_rv64 = rv64_addi, desc_name = ''addi''\<rparr>"
  have "?d \<in> set (registered demo_os demo_fpu)" by (simp add: registered_def insn_list_def)
  moreover have "matches (desc_pat ?d) 0x00500093" by (simp add: matches_def pat_addi_def)
  ultimately show ?thesis
    using decode_correct [of demo_os demo_fpu "0x00500093" ?d "registered demo_os demo_fpu"] by blast
qed

subsection \<open>Properties of runs\<close>

text \<open>
  C3: over a run of any length, no byte of a protected range of at least seven bytes changes,
  the table of protected ranges stays as it is, and no mapped byte becomes unmapped.
\<close>

theorem run_keeps_protected:
  assumes "iterate (step_once os fpu) n p = Inr p'"
  shows "forbid (mmu p') = forbid (mmu p) \<and> dom (mem (mmu p)) \<subseteq> dom (mem (mmu p'))
    \<and> (\<forall>x. protected_range (mmu p) x \<longrightarrow> mem (mmu p') x = mem (mmu p) x)"
  using run_mem.inv_iterate [OF assms, of "mmu p"] by (simp add: mmu_evolves_def)

lemma demo_addi_iterate:
  "iterate (step_once os fpu) 1 (demo_cpu [0x00500093]) = step_once os fpu (demo_cpu [0x00500093])"
  by (simp add: demo_addi)

lemma demo_protected: "protected_range (mmu (demo_cpu ws)) 0x1003"
  by (simp add: protected_range_def demo_defs)

theorem run_keeps_protected_witness:
  "\<exists>p'. iterate (step_once demo_os demo_fpu) 1 (demo_cpu [0x00500093]) = Inr p'
     \<and> protected_range (mmu (demo_cpu [0x00500093])) 0x1003
     \<and> mem (mmu p') 0x1003 = mem (mmu (demo_cpu [0x00500093])) 0x1003"
proof -
  obtain p' where "iterate (step_once demo_os demo_fpu) 1 (demo_cpu [0x00500093]) = Inr p'"
    unfolding demo_addi_iterate demo_addi by blast
  with run_keeps_protected [OF this] demo_protected show ?thesis by blast
qed

text \<open>
  C11: register zero is hard-wired: over a run of any length it keeps the value it had at the
  start, whatever instructions name it as their destination.
\<close>

theorem run_keeps_x0:
  assumes "iterate (step_once os fpu) n p = Inr p'"
  shows "READ_REG p' 0 = READ_REG p 0"
  using run_x0.inv_iterate [OF assms] by blast

theorem run_keeps_x0_witness:
  "\<exists>p'. iterate (step_once demo_os demo_fpu) 1 (demo_cpu [0x00500093]) = Inr p' \<and> READ_REG p' 0 = 0"
proof -
  obtain p' where "iterate (step_once demo_os demo_fpu) 1 (demo_cpu [0x00500093]) = Inr p'"
    unfolding demo_addi_iterate demo_addi by blast
  moreover have "READ_REG (demo_cpu [0x00500093]) 0 = 0"
    by (simp add: READ_REG_def regfile_get_def demo_cpu_def)
  ultimately show ?thesis using run_keeps_x0 by fastforce
qed

text \<open>
  C10: a program counter that is a multiple of four stays one over a run of any length, so
  an instruction is only ever fetched from an aligned address.
\<close>

theorem run_pc_aligned:
  assumes "iterate (step_once os fpu) n p = Inr p'" "unat (state_pc (cpu_state p)) mod 4 = 0"
  shows "unat (state_pc (cpu_state p')) mod 4 = 0"
  using run_pc.inv_iterate [OF assms(1)] assms(2) by (simp add: aligned4_unat)

theorem run_pc_aligned_witness:
  "\<exists>p'. iterate (step_once demo_os demo_fpu) 1 (demo_cpu [0x00500093]) = Inr p'
     \<and> unat (state_pc (cpu_state p')) mod 4 = 0"
proof -
  obtain p' where p': "iterate (step_once demo_os demo_fpu) 1 (demo_cpu [0x00500093]) = Inr p'"
    unfolding demo_addi_iterate demo_addi by blast
  have a: "unat (state_pc (cpu_state (demo_cpu [0x00500093]))) mod 4 = 0"
    by (simp add: demo_cpu_def)
  show ?thesis by (intro exI conjI, rule p', rule run_pc_aligned [OF p' a])
qed


text \<open>
  C8: the simulator stops only for an expected reason. No instruction raises
  \<open>trap_illegal_instruction\<close>: every shift amount is in range. A misaligned trap names a
  target with bit 1 set; an invalid address is one of the four bytes of a fetch; a refused
  store spans at most eight bytes; and the exit status is 0 or 1.
\<close>

theorem stops_are_expected:
  assumes "cpu_step os fpu 0 p = Some r"
  shows "case r of
      Inl (Threw trap_illegal_instruction) \<Rightarrow> False
    | Inl (Threw (trap_instruction_address_misaligned x)) \<Rightarrow> bit x 1
    | Inl (Threw (invalid_address pc x)) \<Rightarrow> unat (x - pc) < 4
    | Inl (Threw (no_permission a b)) \<Rightarrow> unat (b - a) < 8
    | Inl (Exited c p') \<Rightarrow> c = 0 \<or> c = 1
    | Inr p' \<Rightarrow> False"
proof -
  obtain s where r: "r = Inl s" "run_forever os fpu p = Some s"
    using assms by (auto simp: cpu_step_def)
  then obtain n where "iterate (step_once os fpu) n p = Inl s" using run_forever_iterate by blast
  then have "expected_stop s" using run_stops.iterate_stop by blast
  then show ?thesis unfolding r expected_stop_def by (simp split: stop.splits exn.splits)
qed

theorem stops_are_expected_witness:
  "cpu_step demo_os demo_fpu 0 (demo_cpu []) = Some (Inl (Threw (invalid_address 0x1000 0x1000)))
   \<and> unat (0x1000 - 0x1000 :: u64) < 4"
proof -
  have "load_insn (mmu (demo_cpu [])) (state_pc (cpu_state (demo_cpu [])))
      = Inl (invalid_address 0x1000 0x1000)"
    by (simp add: load_insn_unfold demo_defs)
  then have "step_once demo_os demo_fpu (demo_cpu []) = Inl (Threw (invalid_address 0x1000 0x1000))"
    by (simp add: step_once_def)
  then have *: "cpu_step demo_os demo_fpu 0 (demo_cpu []) = Some (Inl (Threw (invalid_address 0x1000 0x1000)))"
    by (simp add: cpu_step_def run_forever.simps)
  with stops_are_expected [OF *] show ?thesis by simp
qed

subsection \<open>Counters\<close>

definition total_count :: "(string \<times> u32) list \<Rightarrow> u32" where
  "total_count counts = sum_list (map snd counts)"

lemma total_count_insn:
  "name \<in> fst ` set counts \<Longrightarrow> distinct (map fst counts) \<Longrightarrow>
   total_count (count_insn name counts) = total_count counts + 1"
proof (induction counts)
  case (Cons x xs)
  show ?case
  proof (cases "fst x = name")
    case True
    with Cons.prems have "name \<notin> fst ` set xs" by auto
    then have "AList.map_entry name (\<lambda>c. c + 1) xs = xs"
      by (induction xs) (auto simp: AList.map_entry.simps)
    with True show ?thesis by (cases x) (simp add: total_count_def count_insn_def)
  next
    case False
    with Cons show ?thesis by (cases x) (auto simp: total_count_def count_insn_def add.assoc)
  qed
qed simp

lemma count_insn_names [simp]: "map fst (count_insn name counts) = map fst counts"
  by (induction counts) (auto simp: count_insn_def)

lemma count_insn_get: "map_of (count_insn name counts) k =
    (if k = name then map_option (\<lambda>c. c + 1) (map_of counts k) else map_of counts k)"
  by (simp add: count_insn_def map_of_map_entry split: option.split)

definition counts_ok :: "os_t \<Rightarrow> fpu_t \<Rightarrow> (string \<times> u32) list \<Rightarrow> bool" where
  "counts_ok os fpu counts \<longleftrightarrow> distinct (map fst counts)
     \<and> fst ` set counts = desc_name ` set (instructions os fpu)"

lemma foldl_count_insert:
  "distinct (map fst counts) \<Longrightarrow>
   distinct (map fst (foldl (\<lambda>counts d. count_insert (desc_name d) 0 counts) counts ds))
   \<and> fst ` set (foldl (\<lambda>counts d. count_insert (desc_name d) 0 counts) counts ds)
       = fst ` set counts \<union> desc_name ` set ds
   \<and> total_count (foldl (\<lambda>counts d. count_insert (desc_name d) 0 counts) counts ds) = total_count counts"
proof (induction ds arbitrary: counts)
  case (Cons d ds)
  have "distinct (map fst (count_insert (desc_name d) 0 counts))"
    and "fst ` set (count_insert (desc_name d) 0 counts) = insert (desc_name d) (fst ` set counts)"
    and "total_count (count_insert (desc_name d) 0 counts) = total_count counts"
    using Cons.prems
    by (auto simp: count_insert_def total_count_def map_of_eq_None_iff)
  with Cons.IH [of "count_insert (desc_name d) 0 counts"] show ?case by simp
qed simp

lemma initial_counts_ok: "counts_ok os fpu (initial_counts os fpu)"
  "total_count (initial_counts os fpu) = 0"
  using foldl_count_insert [of "[]" "instructions os fpu"]
  by (simp_all add: counts_ok_def initial_counts_def total_count_def)

lemma step_once_counts:
  assumes "step_once os fpu p = Inr p'"
  shows "\<exists>d \<in> set (instructions os fpu). insn_count p' = count_insn (desc_name d) (insn_count p)
    \<and> c_name p' = desc_name d"
proof -
  obtain bits d npc p1 where d: "d \<in> set (instructions os fpu)"
    and x: "desc_rv64 d (fetch_decode d bits p) bits (state_pc (cpu_state p)) = Inr (npc, p1)"
    and p': "p' = set_state_pc p1 npc"
    using assms by (rule step_once_InrE)
  have "evolves (fetch_decode d bits p) p1"
    using x handlers_frame [OF d] by (auto simp: frame_ok_def)
  with p' show ?thesis
    by (intro bexI [OF _ d]) (auto simp: evolves_def set_state_pc_def fetch_decode_def log_event_def Let_def split: if_splits)
qed

interpretation run_counts: step_system "step_once os fpu" "\<lambda>p. counts_ok os fpu (insn_count p)" for os fpu
proof unfold_locales
  fix p p' assume "counts_ok os fpu (insn_count p)" "step_once os fpu p = Inr p'"
  with step_once_counts show "counts_ok os fpu (insn_count p')"
    unfolding counts_ok_def by (metis count_insn_names list.set_map)
qed

lemma step_once_total:
  "step_once os fpu p = Inr p' \<Longrightarrow> counts_ok os fpu (insn_count p) \<Longrightarrow>
   total_count (insn_count p') = total_count (insn_count p) + 1"
  by (drule step_once_counts) (auto simp: counts_ok_def total_count_insn)

lemma iterate_total:
  "iterate (step_once os fpu) n p = Inr p' \<Longrightarrow> counts_ok os fpu (insn_count p) \<Longrightarrow>
   total_count (insn_count p') = total_count (insn_count p) + of_nat n"
proof (induction n arbitrary: p)
  case (Suc n)
  then obtain q where "step_once os fpu p = Inr q" "iterate (step_once os fpu) n q = Inr p'"
    by (auto split: sum.splits)
  with Suc run_counts.inv_step step_once_total show ?case by (fastforce simp: add.assoc)
qed simp

text \<open>
  C28: the counters start as one zero entry for each instruction name and the illegal entry;
  a run keeps exactly these entries, and after a run of \<open>n\<close> rounds they add up to \<open>n\<close>,
  modulo the width of the counters.
\<close>

theorem counters_add_up:
  assumes "insn_count p = initial_counts os fpu" "iterate (step_once os fpu) n p = Inr p'"
  shows "total_count (insn_count p') = of_nat n
    \<and> distinct (map fst (insn_count p'))
    \<and> fst ` set (insn_count p') = desc_name ` set (instructions os fpu)"
proof -
  have ok: "counts_ok os fpu (insn_count p)" by (simp add: assms(1) initial_counts_ok)
  have "counts_ok os fpu (insn_count p')" using assms(2) ok by (rule run_counts.inv_iterate)
  with iterate_total [OF assms(2) ok] show ?thesis
    by (simp add: assms(1) initial_counts_ok counts_ok_def)
qed




lemma demo_counts_step:
  "\<exists>p'. iterate (step_once os fpu) 1 ((demo_cpu [0x00500093])\<lparr>insn_count := c\<rparr>) = Inr p'"
proof -
  let ?p = "(demo_cpu [0x00500093])\<lparr>insn_count := c\<rparr>"
  have "holds_insn (mmu ?p) (state_pc (cpu_state ?p)) 0x00500093"
    using demo_holds [of "[0x00500093]"] by (simp add: demo_cpu_def)
  moreover have "(''addi'', pat_addi, rv64_addi) \<in> set (insn_list os fpu)" by (simp add: insn_list_def)
  moreover have "matches pat_addi (scast (0x00500093 :: u32))" by (simp add: matches_def pat_addi_def)
  ultimately have "\<exists>p'. step_once os fpu ?p = Inr p'"
    by (subst step_once_known [where w = "0x00500093" and name = "''addi''" and pat = pat_addi
          and f = rv64_addi]) (auto simp: rv64_addi_def)
  then show ?thesis by auto
qed

theorem counters_add_up_witness:
  "\<exists>p'. iterate (step_once demo_os demo_fpu) 1
       ((demo_cpu [0x00500093])\<lparr>insn_count := initial_counts demo_os demo_fpu\<rparr>) = Inr p'
     \<and> total_count (insn_count p') = 1"
proof -
  obtain p' where p': "iterate (step_once demo_os demo_fpu) 1
      ((demo_cpu [0x00500093])\<lparr>insn_count := initial_counts demo_os demo_fpu\<rparr>) = Inr p'"
    using demo_counts_step by blast
  have "total_count (insn_count p') = 1"
    using counters_add_up [OF _ p'] by simp
  with p' show ?thesis by blast
qed

lemma step_illegal:
  assumes "holds_insn (mmu p) (state_pc (cpu_state p)) w"
    and "\<forall>e \<in> set (registered os fpu). \<not> matches (desc_pat e) (scast w)"
  shows "step_once os fpu p = Inr (set_state_pc (fetch_decode illegal_desc (scast w) p) 0)"
proof -
  have "find (\<lambda>d. matches (desc_pat d) (scast w)) (registered os fpu) = None"
    using assms(2) by (simp add: find_None_iff)
  then have "decode_insn os fpu (scast w) = Some illegal_desc" by (simp add: decode_insn_find)
  then show ?thesis
    using load_insn_holds [OF assms(1)]
    by (simp add: step_once_def execute_insn_def illegal_desc_def illegal_instruction_def)
qed

text \<open>
  C27: an instruction word that no registered pattern matches is reported and sends the
  program to address 0 with the registers and the memory as they were; when nothing is mapped
  there, the next fetch stops the simulator.
\<close>

theorem illegal_restarts_at_zero:
  assumes "holds_insn (mmu p) (state_pc (cpu_state p)) w"
    and "\<forall>e \<in> set (registered os fpu). \<not> matches (desc_pat e) (scast w)"
  shows "\<exists>p'. step_once os fpu p = Inr p' \<and> cpu_state p' = (cpu_state p)\<lparr>state_pc := 0\<rparr>
    \<and> mmu p' = mmu p \<and> insn_count p' = count_insn ''illegal'' (insn_count p)
    \<and> history p' = PrintIllegal (state_pc (cpu_state p)) # history p
    \<and> (mem (mmu p) 0 = None \<longrightarrow> step_once os fpu p' = Inl (Threw (invalid_address 0 0)))"
proof -
  let ?p = "set_state_pc (fetch_decode illegal_desc (scast w) p) 0"
  have "step_once os fpu p = Inr ?p" using assms by (rule step_illegal)
  moreover have "step_once os fpu ?p = Inl (Threw (invalid_address 0 0))" if "mem (mmu p) 0 = None"
    using that by (simp add: step_once_def load_insn_unfold set_state_pc_def)
  ultimately show ?thesis
    by (intro exI [of _ ?p]) (simp add: set_state_pc_def fetch_decode_def illegal_desc_def log_event_def)
qed

lemma zero_matches_nothing: "e \<in> set (registered os fpu) \<Longrightarrow> \<not> matches (desc_pat e) 0"
proof -
  assume "e \<in> set (registered os fpu)"
  then have "desc_pat e \<in> set patterns" unfolding registered_patterns [of os fpu, symmetric] by simp
  then show ?thesis by (auto simp: patterns_def matches_def pat_defs)
qed

theorem illegal_restarts_at_zero_witness:
  "\<exists>p'. step_once demo_os demo_fpu (demo_cpu [0]) = Inr p'
     \<and> step_once demo_os demo_fpu p' = Inl (Threw (invalid_address 0 0))"
proof -
  have h: "holds_insn (mmu (demo_cpu [0])) (state_pc (cpu_state (demo_cpu [0]))) 0"
    using demo_holds [of "[0]"] by (simp add: demo_cpu_def)
  have "mem (mmu (demo_cpu [0])) 0 = None" by (simp add: demo_defs)
  with illegal_restarts_at_zero [OF h, of demo_os demo_fpu] zero_matches_nothing show ?thesis by auto
qed

end
