(* ===== verification/Elf.thy ===== *)
theory Elf
  imports Mmu
begin

unbundle bit_operations_syntax

text \<open>
  The ELF loader of \<^verbatim>\<open>mmu.h\<close> and \<^verbatim>\<open>mmu.cpp\<close>: the file headers as records, the reads from the file,
  and the construction of the memory unit. A result \<open>None\<close> stands for undefined behaviour of
  the C++ code (it uses an object it has not read from the file, an index outside an array, or
  divides by zero) or for a failing allocation; \<open>Some (Inl c)\<close> is a call of \<^verbatim>\<open>exit(c)\<close>.
\<close>

subsection \<open>Headers\<close>

record elf64_ehdr =
  e_ident :: "u8 list"
  e_type :: u16
  e_machine :: u16
  e_version :: u32
  e_entry :: u64
  e_phoff :: u64
  e_shoff :: u64
  e_flags :: u32
  e_ehsize :: u16
  e_phentsize :: u16
  e_phnum :: u16
  e_shentsize :: u16
  e_shnum :: u16
  e_shstrndx :: u16

record elf64_phdr =
  p_type :: u32
  p_flags :: u32
  p_offset :: u64
  p_vaddr :: u64
  p_paddr :: u64
  p_filesz :: u64
  p_memsz :: u64
  p_align :: u64

record elf64_shdr =
  sh_name :: u32
  sh_type :: u32
  sh_flags :: u64
  sh_addr :: u64
  sh_offset :: u64
  sh_size :: u64
  sh_link :: u32
  sh_info :: u32
  sh_addralign :: u64
  sh_entsize :: u64

record elf64_sym =
  st_name :: u32
  st_info :: u8
  st_other :: u8
  st_shndx :: u16
  st_value :: u64
  st_size :: u64

text \<open>
  \<^verbatim>\<open>fread\<close> copies the bytes of a header into the structure, whose members are laid out without
  padding and read little-endian, as on the hosts the program is built for.
\<close>

definition field :: "u8 list \<Rightarrow> nat \<Rightarrow> nat \<Rightarrow> u64" where
  "field bs off n = le_join (take n (drop off bs))"

definition read_ehdr :: "u8 list \<Rightarrow> elf64_ehdr" where
  "read_ehdr bs = \<lparr>e_ident = take 16 bs, e_type = ucast (field bs 16 2), e_machine = ucast (field bs 18 2),
     e_version = ucast (field bs 20 4), e_entry = field bs 24 8, e_phoff = field bs 32 8,
     e_shoff = field bs 40 8, e_flags = ucast (field bs 48 4), e_ehsize = ucast (field bs 52 2),
     e_phentsize = ucast (field bs 54 2), e_phnum = ucast (field bs 56 2),
     e_shentsize = ucast (field bs 58 2), e_shnum = ucast (field bs 60 2),
     e_shstrndx = ucast (field bs 62 2)\<rparr>"

definition read_phdr :: "u8 list \<Rightarrow> elf64_phdr" where
  "read_phdr bs = \<lparr>p_type = ucast (field bs 0 4), p_flags = ucast (field bs 4 4), p_offset = field bs 8 8,
     p_vaddr = field bs 16 8, p_paddr = field bs 24 8, p_filesz = field bs 32 8,
     p_memsz = field bs 40 8, p_align = field bs 48 8\<rparr>"

definition read_shdr :: "u8 list \<Rightarrow> elf64_shdr" where
  "read_shdr bs = \<lparr>sh_name = ucast (field bs 0 4), sh_type = ucast (field bs 4 4), sh_flags = field bs 8 8,
     sh_addr = field bs 16 8, sh_offset = field bs 24 8, sh_size = field bs 32 8,
     sh_link = ucast (field bs 40 4), sh_info = ucast (field bs 44 4), sh_addralign = field bs 48 8,
     sh_entsize = field bs 56 8\<rparr>"

definition read_sym :: "u8 list \<Rightarrow> elf64_sym" where
  "read_sym bs = \<lparr>st_name = ucast (field bs 0 4), st_info = ucast (field bs 4 1),
     st_other = ucast (field bs 5 1), st_shndx = ucast (field bs 6 2), st_value = field bs 8 8,
     st_size = field bs 16 8\<rparr>"

subsection \<open>The file\<close>

record file_t =
  content :: "u8 list"
  pos :: nat

text \<open>
  \<^verbatim>\<open>fseek\<close> fails for an offset that is negative as a \<^verbatim>\<open>long\<close> and leaves the position. \<^verbatim>\<open>fread\<close>
  delivers the objects the file still has in full, at most the number asked for. One byte at a
  time, it leaves the destination alone at the end of the file.
\<close>

definition fseek :: "file_t \<Rightarrow> u64 \<Rightarrow> file_t" where
  "fseek f off = (if off <s 0 then f else f\<lparr>pos := unat off\<rparr>)"

fun chunks :: "nat \<Rightarrow> nat \<Rightarrow> 'a list \<Rightarrow> 'a list list" where
  "chunks sz 0 xs = []"
| "chunks sz (Suc n) xs =
     (if length xs < sz then [] else take sz xs # chunks sz n (drop sz xs))"

definition fread :: "nat \<Rightarrow> nat \<Rightarrow> file_t \<Rightarrow> u8 list list \<times> file_t" where
  "fread sz n f =
     (let rest = drop (pos f) (content f)
      in (chunks sz n rest, f\<lparr>pos := pos f + min (sz * n) (length rest)\<rparr>))"

definition fread_bytes :: "nat \<Rightarrow> file_t \<Rightarrow> u8 list \<times> file_t" where
  "fread_bytes n f =
     (let rest = drop (pos f) (content f)
      in (take n rest, f\<lparr>pos := pos f + min n (length rest)\<rparr>))"

definition fread_byte :: "u8 option \<Rightarrow> file_t \<Rightarrow> u8 option \<times> file_t" where
  "fread_byte cur f =
     (if pos f < length (content f) then (Some (content f ! pos f), f\<lparr>pos := pos f + 1\<rparr>)
      else (cur, f))"

subsection \<open>Names\<close>

text \<open>
  \<^verbatim>\<open>strcmp\<close> of a constant with the string that starts at an offset of a table compares up to
  the first difference; running off the table is undefined.
\<close>

fun strcmp_eq :: "u8 list \<Rightarrow> u8 list \<Rightarrow> bool option" where
  "strcmp_eq [] bs = Some True"
| "strcmp_eq (c # cs) [] = None"
| "strcmp_eq (c # cs) (b # bs) = (if c \<noteq> b then Some False else strcmp_eq cs bs)"

definition c_string :: "string \<Rightarrow> u8 list" where
  "c_string s = map of_char s @ [0]"

definition name_is :: "string \<Rightarrow> u8 list \<Rightarrow> elf64_shdr \<Rightarrow> bool option" where
  "name_is s tbl h = strcmp_eq (c_string s) (drop (unat (sh_name h)) tbl)"

definition at :: "'a list \<Rightarrow> nat \<Rightarrow> 'a option" where
  "at xs i = (if i < length xs then Some (xs ! i) else None)"

subsection \<open>The memory unit under construction\<close>

text \<open>
  \<^verbatim>\<open>std::map::insert\<close> keeps the entry a key already has.
\<close>

definition map_insert :: "'a \<Rightarrow> 'b \<Rightarrow> ('a \<rightharpoonup> 'b) \<Rightarrow> 'a \<rightharpoonup> 'b" where
  "map_insert k v M = (if M k = None then M(k \<mapsto> v) else M)"

definition forbid_insert :: "u64 \<Rightarrow> u64 \<Rightarrow> (u64 \<times> u64) list \<Rightarrow> (u64 \<times> u64) list" where
  "forbid_insert k v F = (if map_of F k = None then (k, v) # F else F)"

text \<open>
  The loop that copies bytes from the file to consecutive addresses. Its counter is an \<^verbatim>\<open>int\<close>.
\<close>

fun copy_loop :: "nat \<Rightarrow> u64 \<Rightarrow> u8 option \<Rightarrow> file_t \<Rightarrow> (u64 \<rightharpoonup> u8) \<Rightarrow>
    (u8 option \<times> file_t \<times> (u64 \<rightharpoonup> u8)) option" where
  "copy_loop 0 cur_addr cur f M = Some (cur, f, M)"
| "copy_loop (Suc n) cur_addr cur f M =
     (case fread_byte cur f of
        (None, f) \<Rightarrow> None
      | (Some b, f) \<Rightarrow> copy_loop n (cur_addr + 1) (Some b) f (map_insert cur_addr b M))"

definition int_max :: nat where
  "int_max = 2 ^ 31 - 1"

definition load_data :: "elf64_shdr list \<Rightarrow> u8 list \<Rightarrow> nat \<Rightarrow>
    file_t \<times> (u64 \<rightharpoonup> u8) \<times> (u64 \<times> u64) list \<Rightarrow> (file_t \<times> (u64 \<rightharpoonup> u8) \<times> (u64 \<times> u64) list) option" where
  "load_data sec_hdrs sh_str_tbl data_index = (\<lambda>(f, M, F).
     Option.bind (at sec_hdrs data_index) (\<lambda>h.
     Option.bind (name_is ''.rodata'' sh_str_tbl h) (\<lambda>ro.
     Option.bind (if ro then Some True else name_is ''.rodatal'' sh_str_tbl h) (\<lambda>ro.
       if unat (sh_size h) > int_max then None
       else map_option (\<lambda>(cur, f, M).
              (f, M, if ro then forbid_insert (sh_addr h) (sh_addr h + sh_size h) F else F))
            (copy_loop (unat (sh_size h)) (sh_addr h) None (fseek f (sh_offset h)) M)))))"

fun load_prog :: "elf64_phdr list \<Rightarrow> nat \<Rightarrow> nat \<Rightarrow> u8 option \<Rightarrow> file_t \<Rightarrow> (u64 \<rightharpoonup> u8) \<Rightarrow>
    (file_t \<times> (u64 \<rightharpoonup> u8)) option" where
  "load_prog prog_hdrs i 0 cur f M = Some (f, M)"
| "load_prog prog_hdrs i (Suc n) cur f M =
     Option.bind (at prog_hdrs i) (\<lambda>h.
       if unat (p_filesz h) > int_max then None
       else Option.bind (copy_loop (unat (p_filesz h)) (p_vaddr h) cur (fseek f (p_offset h)) M)
              (\<lambda>(cur, f, M). load_prog prog_hdrs (i + 1) n cur f M))"

subsection \<open>Reading the file\<close>

record elf_t =
  elf_header :: elf64_ehdr
  prog_hdrs :: "elf64_phdr list"
  sec_hdrs :: "elf64_shdr list"
  sh_str_tbl :: "u8 list"
  str_tbl :: "u8 list"
  symbol_table :: "elf64_sym list"
  index_strtab :: nat
  index_symtab :: nat

definition read_elf_header :: "file_t \<Rightarrow> (elf64_ehdr \<times> file_t) option" where
  "read_elf_header f = (case fread 64 1 f of
     ([h], f) \<Rightarrow> Some (read_ehdr h, f) | _ \<Rightarrow> None)"

definition read_prog_headers :: "elf64_ehdr \<Rightarrow> file_t \<Rightarrow> elf64_phdr list \<times> file_t" where
  "read_prog_headers e f =
     (let (hs, f) = fread 56 (unat (e_phnum e)) (fseek f (e_phoff e)) in (map read_phdr hs, f))"

definition read_sec_headers :: "elf64_ehdr \<Rightarrow> file_t \<Rightarrow> (elf64_shdr list \<times> u8 list \<times> file_t) option" where
  "read_sec_headers e f =
     (let (hs, f) = fread 64 (unat (e_shnum e)) (fseek f (e_shoff e));
          secs = map read_shdr hs
      in Option.bind (at secs (unat (e_shstrndx e))) (\<lambda>h.
           let (tbl, f) = fread_bytes (unat (sh_size h)) (fseek f (sh_offset h))
           in Some (secs, tbl, f)))"

text \<open>
  The search for the string and the symbol table keeps the last section of each name; an index
  that stays -1 is \<open>None\<close>.
\<close>

fun sym_loop :: "elf64_shdr list \<Rightarrow> u8 list \<Rightarrow> nat \<Rightarrow> nat \<Rightarrow> nat option \<times> nat option \<Rightarrow>
    (nat option \<times> nat option) option" where
  "sym_loop secs tbl i 0 ix = Some ix"
| "sym_loop secs tbl i (Suc n) ix =
     Option.bind (at secs i) (\<lambda>h.
     Option.bind (name_is ''.strtab'' tbl h) (\<lambda>is_str.
       if is_str then sym_loop secs tbl (i + 1) n (Some i, snd ix)
       else Option.bind (name_is ''.symtab'' tbl h) (\<lambda>is_sym.
              sym_loop secs tbl (i + 1) n (if is_sym then (fst ix, Some i) else ix))))"

definition read_sym_tbls :: "elf64_ehdr \<Rightarrow> elf64_shdr list \<Rightarrow> u8 list \<Rightarrow> file_t \<Rightarrow>
    (int + (nat \<times> nat) \<times> u8 list \<times> elf64_sym list \<times> file_t) option" where
  "read_sym_tbls e secs tbl f =
     Option.bind (sym_loop secs tbl 0 (unat (e_shnum e)) (None, None)) (\<lambda>ix.
       case ix of
         (Some i, Some j) \<Rightarrow>
           (let (strs, f) = fread_bytes (unat (sh_size (secs ! i))) (fseek f (sh_offset (secs ! i)));
                h = secs ! j
            in if sh_entsize h = 0 \<or> (ucast (sh_size h div sh_entsize h) :: u32) <s 0 then None
               else (let n = unat (ucast (sh_size h div sh_entsize h) :: u32);
                         (ss, f) = fread 24 n (fseek f (sh_offset h))
                     in Some (Inr ((i, j), strs, map read_sym ss, f))))
       | _ \<Rightarrow> Some (Inl 1))"

text \<open>
  The data sections: each section whose name is one of the four is loaded, but by the index of
  that name among the four, not by the index of the section.
\<close>

definition loader :: "string list" where
  "loader = [''.data'', ''.sdata'', ''.rodata'', ''.rodatal'']"

fun loader_index :: "nat \<Rightarrow> string list \<Rightarrow> u8 list \<Rightarrow> elf64_shdr \<Rightarrow> nat option option" where
  "loader_index j [] tbl h = Some None"
| "loader_index j (s # ss) tbl h =
     Option.bind (name_is s tbl h) (\<lambda>e. if e then Some (Some j) else loader_index (j + 1) ss tbl h)"

fun data_loop :: "elf64_shdr list \<Rightarrow> u8 list \<Rightarrow> nat \<Rightarrow> nat \<Rightarrow> file_t \<times> (u64 \<rightharpoonup> u8) \<times> (u64 \<times> u64) list \<Rightarrow>
    (file_t \<times> (u64 \<rightharpoonup> u8) \<times> (u64 \<times> u64) list) option" where
  "data_loop secs tbl i 0 s = Some s"
| "data_loop secs tbl i (Suc n) s =
     Option.bind (at secs i) (\<lambda>h.
     Option.bind (loader_index 0 loader tbl h) (\<lambda>hit.
     Option.bind (case hit of None \<Rightarrow> Some s | Some j \<Rightarrow> load_data secs tbl j s) (\<lambda>s.
       data_loop secs tbl (i + 1) n s)))"

definition read_elf :: "file_t \<Rightarrow> (int + elf_t \<times> (u64 \<rightharpoonup> u8) \<times> (u64 \<times> u64) list) option" where
  "read_elf f =
     Option.bind (read_elf_header f) (\<lambda>(e, f).
     let (phs, f) = read_prog_headers e f in
     Option.bind (read_sec_headers e f) (\<lambda>(secs, tbl, f).
     Option.bind (read_sym_tbls e secs tbl f) (\<lambda>r.
       case r of
         Inl c \<Rightarrow> Some (Inl c)
       | Inr (ix, strs, syms, f) \<Rightarrow>
           Option.bind (data_loop secs tbl 0 (unat (e_shnum e)) (f, Map.empty, [])) (\<lambda>(f, M, F).
           Option.bind (load_prog phs 0 (unat (e_phnum e)) None f M) (\<lambda>(f, M).
             Some (Inr (\<lparr>elf_header = e, prog_hdrs = phs, sec_hdrs = secs, sh_str_tbl = tbl,
                         str_tbl = strs, symbol_table = syms,
                         index_strtab = fst ix, index_symtab = snd ix\<rparr>, M, F)))))))"

text \<open>
  The constructor opens the file, which may fail, and builds the memory unit. What a read past
  the end of the map finds is a parameter, as in \<^verbatim>\<open>Mmu\<close>.
\<close>

definition mmu_new :: "((u64 \<rightharpoonup> u8) \<Rightarrow> u64) \<Rightarrow> u8 \<Rightarrow> u8 list option \<Rightarrow> (int + elf_t \<times> mmu_t) option" where
  "mmu_new past_first past_second path_content =
     (case path_content of
        None \<Rightarrow> Some (Inl 1)
      | Some bs \<Rightarrow> map_option (map_sum id (\<lambda>(elf, M, F).
          (elf, \<lparr>mem = M, forbid = F, entry = elf64_ehdr.e_entry (elf_header elf),
                 end_first = past_first, end_second = past_second\<rparr>)))
          (read_elf \<lparr>content = bs, pos = 0\<rparr>))"

end
