(* ===== verification/Loader.thy ===== *)
theory Loader
  imports Elf
begin

unbundle bit_operations_syntax

text \<open>
  What the loader of \<^verbatim>\<open>Elf\<close> does: the copies of bytes as maps of addresses, the program
  segments, the data sections and the protected ranges, its failures, and the layout of the
  file headers; with a small file to which the theorems are applied.
\<close>

subsection \<open>Copying bytes\<close>

definition bytes_map :: "u64 \<Rightarrow> u8 list \<Rightarrow> u64 \<rightharpoonup> u8" where
  "bytes_map a bs x = (if unat (x - a) < length bs then Some (bs ! unat (x - a)) else None)"

lemma bytes_map_Nil [simp]: "bytes_map a [] = Map.empty"
  by (simp add: bytes_map_def fun_eq_iff)

lemma unat_next: "x \<noteq> a \<Longrightarrow> unat (x - a) = Suc (unat (x - (a + 1)))" for x a :: u64
proof -
  assume "x \<noteq> a"
  then have "unat (x - a) \<noteq> 0" by (simp add: unsigned_eq_0_iff)
  moreover have "unat (x - (a + 1)) = unat (x - a) - 1"
    using \<open>x \<noteq> a\<close> unat_minus_one [of "x - a"] by (simp add: algebra_simps)
  ultimately show ?thesis by simp
qed

lemma bytes_map_Cons:
  assumes "length bs < 2 ^ 64"
  shows "bytes_map a (b # bs) = (bytes_map (a + 1) bs)(a \<mapsto> b)"
proof
  fix x show "bytes_map a (b # bs) x = ((bytes_map (a + 1) bs)(a \<mapsto> b)) x"
    by (cases "x = a") (simp_all add: bytes_map_def unat_next)
qed

lemma bytes_map_start: "length bs < 2 ^ 64 \<Longrightarrow> bytes_map (a + 1) bs a = None"
  by (simp add: bytes_map_def unsigned_minus_1_eq_mask mask_eq_exp_minus_1)

lemma dom_bytes_map: "dom (bytes_map a bs) = span a (length bs)"
  by (auto simp: bytes_map_def span_def split: if_splits)

lemma map_insert_add: "map_insert k v M = [k \<mapsto> v] ++ M"
  by (rule ext) (auto simp: map_insert_def map_add_def split: option.splits)

text \<open>
  What \<open>n\<close> reads of one byte deliver: the bytes of the file, and after its end the last byte
  again and again.
\<close>

definition delivered :: "nat \<Rightarrow> u8 option \<Rightarrow> file_t \<Rightarrow> u8 list" where
  "delivered n cur f =
     (let r = take n (drop (pos f) (content f))
      in r @ replicate (n - length r) (last (the cur # r)))"

lemma delivered_in: "pos f + n \<le> length (content f) \<Longrightarrow> delivered n cur f = take n (drop (pos f) (content f))"
  by (simp add: delivered_def Let_def)

lemma length_delivered [simp]: "length (delivered n cur f) = n"
  by (simp add: delivered_def Let_def)

lemma delivered_0 [simp]: "delivered 0 cur f = []"
  by (simp add: delivered_def)

lemma delivered_Suc:
  "fread_byte cur f = (Some b, f') \<Longrightarrow> delivered (Suc n) cur f = b # delivered n (Some b) f'"
  by (auto simp: fread_byte_def delivered_def Let_def Cons_nth_drop_Suc [symmetric] split: if_splits)

lemma copy_loop_spec:
  assumes "n \<le> 2 ^ 64" "cur \<noteq> None \<or> pos f < length (content f) \<or> n = 0"
  shows "\<exists>cur' f'. copy_loop n a cur f M = Some (cur', f', bytes_map a (delivered n cur f) ++ M)
    \<and> content f' = content f"
  using assms
proof (induction n arbitrary: a cur f M)
  case (Suc n)
  obtain b f1 where r: "fread_byte cur f = (Some b, f1)" "content f1 = content f"
  proof (cases "pos f < length (content f)")
    case True
    then show ?thesis
      by (intro that [of "content f ! pos f" "f\<lparr>pos := pos f + 1\<rparr>"]) (simp_all add: fread_byte_def)
  next
    case False
    then obtain b where "cur = Some b" using Suc.prems by auto
    with False show ?thesis by (intro that [of b f]) (simp_all add: fread_byte_def)
  qed
  obtain cur' f' where "copy_loop n (a + 1) (Some b) f1 (map_insert a b M)
      = Some (cur', f', bytes_map (a + 1) (delivered n (Some b) f1) ++ map_insert a b M)"
    "content f' = content f1"
    using Suc.IH [of "Some b" f1 "a + 1" "map_insert a b M"] Suc.prems(1) by auto
  moreover have "bytes_map (a + 1) (delivered n (Some b) f1) ++ [a \<mapsto> b]
      = bytes_map a (delivered (Suc n) cur f)"
    using Suc.prems(1) by (simp add: delivered_Suc [OF r(1)] bytes_map_Cons)
  ultimately show ?case using r by (simp add: map_insert_add)
qed (auto simp: delivered_def)

lemma copy_loop_Some:
  assumes "copy_loop n a cur f M = Some (cur', f', M')" "n \<le> 2 ^ 64"
  shows "M' = bytes_map a (delivered n cur f) ++ M \<and> content f' = content f"
proof -
  have "cur \<noteq> None \<or> pos f < length (content f) \<or> n = 0"
    using assms(1) by (cases n) (auto simp: fread_byte_def split: if_splits option.splits)
  from copy_loop_spec [OF assms(2) this, of a M] assms(1) show ?thesis by auto
qed

subsection \<open>Segments\<close>

definition seg_ok :: "u8 list \<Rightarrow> elf64_phdr \<Rightarrow> bool" where
  "seg_ok bs h \<longleftrightarrow> \<not> p_offset h <s 0 \<and> unat (p_offset h) + unat (p_filesz h) \<le> length bs
     \<and> unat (p_filesz h) \<le> int_max"

definition seg_map :: "u8 list \<Rightarrow> elf64_phdr \<Rightarrow> u64 \<rightharpoonup> u8" where
  "seg_map bs h = bytes_map (p_vaddr h) (take (unat (p_filesz h)) (drop (unat (p_offset h)) bs))"

lemma content_fseek [simp]: "content (fseek f off) = content f"
  by (simp add: fseek_def)

lemma pos_fseek: "\<not> off <s 0 \<Longrightarrow> pos (fseek f off) = unat off"
  by (simp add: fseek_def)

lemma copy_seg:
  assumes "seg_ok (content f) h"
  shows "\<exists>cur' f'. copy_loop (unat (p_filesz h)) (p_vaddr h) cur (fseek f (p_offset h)) M
    = Some (cur', f', seg_map (content f) h ++ M) \<and> content f' = content f"
proof -
  let ?f = "fseek f (p_offset h)"
  have "pos ?f + unat (p_filesz h) \<le> length (content ?f)"
    using assms by (simp add: seg_ok_def pos_fseek)
  moreover have "unat (p_filesz h) \<le> 2 ^ 64" using assms by (simp add: seg_ok_def int_max_def)
  moreover from calculation have "cur \<noteq> None \<or> pos ?f < length (content ?f) \<or> unat (p_filesz h) = 0"
    by linarith
  ultimately show ?thesis
    using copy_loop_spec [of "unat (p_filesz h)" cur ?f "p_vaddr h" M] assms
    by (simp add: delivered_in seg_map_def seg_ok_def pos_fseek)
qed

lemma load_prog_spec:
  "list_all (seg_ok (content f)) (drop i hs) \<Longrightarrow> i + n \<le> length hs \<Longrightarrow>
   \<exists>f'. load_prog hs i n cur f M
     = Some (f', foldl (\<lambda>M h. seg_map (content f) h ++ M) M (take n (drop i hs)))"
proof (induction n arbitrary: i cur f M)
  case (Suc n)
  then have i: "i < length hs" by simp
  then have d: "drop i hs = hs ! i # drop (Suc i) hs" by (rule Cons_nth_drop_Suc [symmetric])
  with Suc.prems have ok: "seg_ok (content f) (hs ! i)" "list_all (seg_ok (content f)) (drop (Suc i) hs)"
    by simp_all
  obtain cur' f1 where c: "copy_loop (unat (p_filesz (hs ! i))) (p_vaddr (hs ! i)) cur
      (fseek f (p_offset (hs ! i))) M = Some (cur', f1, seg_map (content f) (hs ! i) ++ M)"
    "content f1 = content f"
    using copy_seg [OF ok(1)] by blast
  have "\<exists>f'. load_prog hs (Suc i) n cur' f1 (seg_map (content f) (hs ! i) ++ M)
      = Some (f', foldl (\<lambda>M h. seg_map (content f1) h ++ M) (seg_map (content f) (hs ! i) ++ M)
          (take n (drop (Suc i) hs)))"
    using Suc.prems(2) ok(2) c(2) by (intro Suc.IH) simp_all
  then show ?case using i c ok(1) by (simp add: at_def d seg_ok_def)
qed simp

subsection \<open>Data sections\<close>

definition sec_span :: "elf64_shdr \<Rightarrow> u64 set" where
  "sec_span h = span (sh_addr h) (unat (sh_size h))"

definition is_ro :: "u8 list \<Rightarrow> elf64_shdr \<Rightarrow> bool" where
  "is_ro tbl h \<longleftrightarrow> name_is ''.rodata'' tbl h = Some True \<or> name_is ''.rodatal'' tbl h = Some True"

lemma load_data_Some:
  assumes "load_data secs tbl j (f, M, F) = Some (f', M', F')"
  shows "j < length secs \<and> content f' = content f
    \<and> (\<exists>bs. length bs = unat (sh_size (secs ! j)) \<and> M' = bytes_map (sh_addr (secs ! j)) bs ++ M)
    \<and> F' = (if is_ro tbl (secs ! j)
            then forbid_insert (sh_addr (secs ! j)) (sh_addr (secs ! j) + sh_size (secs ! j)) F else F)"
proof -
  let ?h = "secs ! j"
  obtain cur where c: "j < length secs" "copy_loop (unat (sh_size ?h)) (sh_addr ?h) None
      (fseek f (sh_offset ?h)) M = Some (cur, f', M')" and sz: "unat (sh_size ?h) \<le> int_max"
    and F': "F' = (if is_ro tbl ?h then forbid_insert (sh_addr ?h) (sh_addr ?h + sh_size ?h) F else F)"
    using assms by (auto simp: load_data_def at_def is_ro_def bind_eq_Some_conv not_less split: if_splits)
  have "unat (sh_size ?h) \<le> 2 ^ 64" using sz by (simp add: int_max_def)
  from copy_loop_Some [OF c(2) this] c(1) F' show ?thesis
    by (intro conjI exI [of _ "delivered (unat (sh_size ?h)) None (fseek f (sh_offset ?h))"]) simp_all
qed

lemma loader_index_less: "loader_index j ss tbl h = Some (Some k) \<Longrightarrow> j \<le> k \<and> k < j + length ss"
  by (induction ss arbitrary: j) (fastforce simp: bind_eq_Some_conv split: if_splits)+

definition forbid_from :: "elf64_shdr list \<Rightarrow> u8 list \<Rightarrow> u64 \<times> u64 \<Rightarrow> bool" where
  "forbid_from secs tbl r \<longleftrightarrow> (\<exists>j < 4. j < length secs \<and> is_ro tbl (secs ! j)
     \<and> r = (sh_addr (secs ! j), sh_addr (secs ! j) + sh_size (secs ! j)))"

lemma data_loop_Some:
  "data_loop secs tbl i n (f, M, F) = Some (f', M', F') \<Longrightarrow> content f' = content f
    \<and> dom M' \<subseteq> dom M \<union> (\<Union>j \<in> {j. j < 4 \<and> j < length secs}. sec_span (secs ! j))
    \<and> (\<forall>r \<in> set F'. r \<in> set F \<or> forbid_from secs tbl r)"
proof (induction n arbitrary: i f M F)
  case (Suc n)
  then obtain hit s where h: "i < length secs" "loader_index 0 loader tbl (secs ! i) = Some hit"
    "(case hit of None \<Rightarrow> Some (f, M, F) | Some j \<Rightarrow> load_data secs tbl j (f, M, F)) = Some s"
    "data_loop secs tbl (i + 1) n s = Some (f', M', F')"
    by (auto simp: at_def bind_eq_Some_conv split: if_splits)
  obtain f1 M1 F1 where s: "s = (f1, M1, F1)" by (cases s)
  have "content f1 = content f \<and> dom M1 \<subseteq> dom M \<union> (\<Union>j \<in> {j. j < 4 \<and> j < length secs}. sec_span (secs ! j))
    \<and> (\<forall>r \<in> set F1. r \<in> set F \<or> forbid_from secs tbl r)"
  proof (cases hit)
    case None
    with h(3) s show ?thesis by simp
  next
    case (Some j)
    then have j: "j < 4" using h(2) loader_index_less [of 0 loader tbl "secs ! i" j] by (simp add: loader_def)
    from Some h(3) s load_data_Some [of secs tbl j f M F f1 M1 F1] j show ?thesis
      by (auto simp: dom_bytes_map sec_span_def forbid_from_def forbid_insert_def split: if_splits)
  qed
  moreover have "content f' = content f1
    \<and> dom M' \<subseteq> dom M1 \<union> (\<Union>j \<in> {j. j < 4 \<and> j < length secs}. sec_span (secs ! j))
    \<and> (\<forall>r \<in> set F'. r \<in> set F1 \<or> forbid_from secs tbl r)"
    using h(4) unfolding s by (rule Suc.IH)
  ultimately show ?case by (elim conjE, intro conjI) (simp, blast, blast)
qed simp

subsection \<open>The memory unit after loading\<close>

lemma content_fread: "fread sz n f = (x, f') \<Longrightarrow> content f' = content f"
  "fread_bytes n f = (y, f') \<Longrightarrow> content f' = content f"
  by (auto simp: fread_def fread_bytes_def Let_def)

lemma length_chunks: "length (chunks sz n xs) \<le> n"
  by (induction sz n xs rule: chunks.induct) auto

lemma load_prog_length: "load_prog hs i n cur f M = Some r \<Longrightarrow> n = 0 \<or> i + n \<le> length hs"
  by (induction n arbitrary: i cur f M)
    (fastforce simp: at_def bind_eq_Some_conv split: if_splits)+

lemma read_sym_tbls_Some:
  assumes "read_sym_tbls e secs tbl f = Some r"
  shows "\<exists>ix. sym_loop secs tbl 0 (unat (e_shnum e)) (None, None) = Some ix \<and>
    (case r of Inl c \<Rightarrow> c = 1 \<and> (fst ix = None \<or> snd ix = None)
     | Inr (ix', strs, syms, f') \<Rightarrow> content f' = content f
         \<and> ix = (Some (fst ix'), Some (snd ix')) \<and> sh_entsize (secs ! snd ix') \<noteq> 0)"
proof (cases "sym_loop secs tbl 0 (unat (e_shnum e)) (None, None)")
  case (Some ix)
  obtain a b where ix: "ix = (a, b)" by (cases ix)
  show ?thesis
  proof (cases "a = None \<or> b = None")
    case True
    with assms Some ix show ?thesis
      by (cases a; cases b) (auto simp: read_sym_tbls_def)
  next
    case False
    then obtain i j where "a = Some i" "b = Some j" by auto
    with assms Some ix show ?thesis
      by (simp add: read_sym_tbls_def Let_def split: prod.split_asm if_split_asm)
        (auto dest!: content_fread)
  qed
qed (use assms in \<open>simp add: read_sym_tbls_def\<close>)

lemma map_sum_InrE: "map_sum f g r = Inr y \<Longrightarrow> (\<And>x. r = Inr x \<Longrightarrow> y = g x \<Longrightarrow> P) \<Longrightarrow> P"
  by (cases r) auto

text \<open>The steps of a successful \<^verbatim>\<open>read_elf\<close>.\<close>

lemma read_elf_InrE:
  assumes "read_elf f = Some (Inr (elf, M, F))"
  obtains e f0 phs f1 secs tbl f2 ix strs syms f3 D f4 f5 where
    "read_elf_header f = Some (e, f0)" "read_prog_headers e f0 = (phs, f1)"
    "read_sec_headers e f1 = Some (secs, tbl, f2)"
    "read_sym_tbls e secs tbl f2 = Some (Inr (ix, strs, syms, f3))"
    "data_loop secs tbl 0 (unat (e_shnum e)) (f3, Map.empty, []) = Some (f4, D, F)"
    "load_prog phs 0 (unat (e_phnum e)) None f4 D = Some (f5, M)"
    "elf = \<lparr>elf_header = e, prog_hdrs = phs, sec_hdrs = secs, sh_str_tbl = tbl,
      str_tbl = strs, symbol_table = syms, index_strtab = fst ix, index_symtab = snd ix\<rparr>"
proof -
  note d = read_elf_def
  obtain e f0 where 1: "read_elf_header f = Some (e, f0)"
    using assms by (cases "read_elf_header f") (auto simp: d)
  obtain phs f1 where 2: "read_prog_headers e f0 = (phs, f1)"
    by (cases "read_prog_headers e f0")
  obtain secs tbl f2 where 3: "read_sec_headers e f1 = Some (secs, tbl, f2)"
    using assms 1 2 by (cases "read_sec_headers e f1") (auto simp: d)
  obtain ix strs syms f3 where 4: "read_sym_tbls e secs tbl f2 = Some (Inr (ix, strs, syms, f3))"
    using assms 1 2 3 by (cases "read_sym_tbls e secs tbl f2") (auto simp: d split: sum.split_asm)
  obtain f4 D F' where 5: "data_loop secs tbl 0 (unat (e_shnum e)) (f3, Map.empty, []) = Some (f4, D, F')"
    using assms 1 2 3 4
    by (cases "data_loop secs tbl 0 (unat (e_shnum e)) (f3, Map.empty, [])") (auto simp: d)
  obtain f5 M' where 6: "load_prog phs 0 (unat (e_phnum e)) None f4 D = Some (f5, M')"
    using assms 1 2 3 4 5 by (cases "load_prog phs 0 (unat (e_phnum e)) None f4 D") (auto simp: d)
  have "elf = \<lparr>elf_header = e, prog_hdrs = phs, sec_hdrs = secs, sh_str_tbl = tbl,
      str_tbl = strs, symbol_table = syms, index_strtab = fst ix, index_symtab = snd ix\<rparr>"
    "M' = M" "F' = F"
    using assms 1 2 3 4 5 6 by (simp_all add: d)
  with 1 2 3 4 5 6 that show thesis by blast
qed

lemma read_prog_headers_length: "read_prog_headers e f = (phs, f') \<Longrightarrow> length phs \<le> unat (e_phnum e)"
  using length_chunks by (auto simp: read_prog_headers_def fread_def Let_def)

lemma read_elf_phnum:
  assumes "read_elf f = Some (Inr (elf, M, F))"
  shows "unat (e_phnum (elf_header elf)) = length (prog_hdrs elf)"
  using assms
proof (rule read_elf_InrE)
  fix e f0 phs f1 f4 D f5 and secs :: "elf64_shdr list" and tbl strs :: "u8 list"
    and ix :: "nat \<times> nat" and syms :: "elf64_sym list"
  assume "read_prog_headers e f0 = (phs, f1)"
    "load_prog phs 0 (unat (e_phnum e)) None f4 D = Some (f5, M)"
    "elf = \<lparr>elf_header = e, prog_hdrs = phs, sec_hdrs = secs, sh_str_tbl = tbl,
      str_tbl = strs, symbol_table = syms, index_strtab = fst ix, index_symtab = snd ix\<rparr>"
  then show ?thesis using load_prog_length read_prog_headers_length by fastforce
qed

lemma read_elf_Some:
  assumes "read_elf f = Some (Inr (elf, M, F))"
  shows "\<exists>f2 f3 D. content f2 = content f
    \<and> data_loop (sec_hdrs elf) (sh_str_tbl elf) 0 (unat (e_shnum (elf_header elf))) (f2, Map.empty, []) = Some (f3, D, F)
    \<and> (\<exists>f4. load_prog (prog_hdrs elf) 0 (length (prog_hdrs elf)) None f3 D = Some (f4, M))"
proof -
  obtain e f0 phs f1 secs tbl f2 ix strs syms f3 D f4 f5 where
    1: "read_elf_header f = Some (e, f0)" and 2: "read_prog_headers e f0 = (phs, f1)" and
    3: "read_sec_headers e f1 = Some (secs, tbl, f2)" and
    4: "read_sym_tbls e secs tbl f2 = Some (Inr (ix, strs, syms, f3))" and
    5: "data_loop secs tbl 0 (unat (e_shnum e)) (f3, Map.empty, []) = Some (f4, D, F)"
    "load_prog phs 0 (unat (e_phnum e)) None f4 D = Some (f5, M)" and
    elf: "elf = \<lparr>elf_header = e, prog_hdrs = phs, sec_hdrs = secs, sh_str_tbl = tbl,
      str_tbl = strs, symbol_table = syms, index_strtab = fst ix, index_symtab = snd ix\<rparr>"
    using assms by (rule read_elf_InrE)
  have "content f0 = content f"
    using 1 by (auto simp: read_elf_header_def dest: content_fread split: list.splits prod.splits)
  moreover have "content f1 = content f0"
    using 2 by (auto simp: read_prog_headers_def fread_def Let_def)
  moreover have "content f2 = content f1"
    using 3 by (auto simp: read_sec_headers_def bind_eq_Some_conv Let_def split: prod.splits
        dest!: content_fread)
  moreover have "content f3 = content f2"
    using read_sym_tbls_Some [OF 4] by auto
  moreover have "unat (e_phnum e) = length phs"
    using read_elf_phnum [OF assms] elf by simp
  ultimately show ?thesis using 5 elf by auto
qed

text \<open>The symbol table that was found is a section that was read, with entries of some size.\<close>

lemma sym_loop_bound: "sym_loop secs tbl i n ix = Some ix' \<Longrightarrow>
  \<forall>k. snd ix = Some k \<longrightarrow> k < length secs \<Longrightarrow> snd ix' = Some k \<Longrightarrow> k < length secs"
proof (induction n arbitrary: i ix)
  case (Suc n)
  have i: "i < length secs" using Suc.prems(1) by (auto simp: at_def split: if_splits)
  obtain ix1 where "sym_loop secs tbl (i + 1) n ix1 = Some ix'" "snd ix1 = snd ix \<or> snd ix1 = Some i"
    using Suc.prems(1) by (cases ix) (auto simp: bind_eq_Some_conv split: if_splits)
  then show ?case using Suc.prems(2,3) i by (intro Suc.IH [of "i + 1" ix1]) auto
qed simp

lemma data_loop_length: "data_loop secs tbl i n s = Some s' \<Longrightarrow> n = 0 \<or> i + n \<le> length secs"
proof (induction n arbitrary: i s)
  case (Suc n)
  then obtain s1 where "data_loop secs tbl (i + 1) n s1 = Some s'" "i < length secs"
    by (auto simp: at_def bind_eq_Some_conv split: if_splits)
  with Suc.IH show ?case by fastforce
qed simp

lemma read_elf_sections:
  assumes "read_elf f = Some (Inr (elf, M, F))"
  shows "unat (e_shnum (elf_header elf)) \<le> length (sec_hdrs elf)
    \<and> index_symtab elf < length (sec_hdrs elf) \<and> sh_entsize (sec_hdrs elf ! index_symtab elf) \<noteq> 0"
  using assms
proof (rule read_elf_InrE)
  fix e secs tbl ix strs syms f2 f3 D f4 and phs :: "elf64_phdr list"
  assume s: "read_sym_tbls e secs tbl f2 = Some (Inr (ix, strs, syms, f3))"
    and d: "data_loop secs tbl 0 (unat (e_shnum e)) (f3, Map.empty, []) = Some (f4, D, F)"
    and elf: "elf = \<lparr>elf_header = e, prog_hdrs = phs, sec_hdrs = secs, sh_str_tbl = tbl,
      str_tbl = strs, symbol_table = syms, index_strtab = fst ix, index_symtab = snd ix\<rparr>"
  have j: "sym_loop secs tbl 0 (unat (e_shnum e)) (None, None) = Some (Some (fst ix), Some (snd ix))"
    "sh_entsize (secs ! snd ix) \<noteq> 0"
    using read_sym_tbls_Some [OF s] by auto
  then have "snd ix < length secs" using sym_loop_bound [OF j(1)] by simp
  with j d elf show ?thesis using data_loop_length [OF d] by auto
qed

lemma seg_foldl: "foldl (\<lambda>M h. g h ++ M) D hs = foldl (\<lambda>M h. g h ++ M) Map.empty hs ++ D"
proof (induction hs rule: rev_induct)
  case (snoc h hs)
  then show ?case by simp
qed simp

lemma loaded_bytes:
  assumes "mmu_new past_first past_second (Some bs) = Some (Inr (elf, m))"
    and "list_all (seg_ok bs) (prog_hdrs elf)"
    and "\<forall>j < 4. j < length (sec_hdrs elf) \<longrightarrow> x \<notin> sec_span (sec_hdrs elf ! j)"
  shows "mem m x = foldl (\<lambda>M h. seg_map bs h ++ M) Map.empty (prog_hdrs elf) x"
proof -
  obtain M F where r: "read_elf \<lparr>content = bs, pos = 0\<rparr> = Some (Inr (elf, M, F))" "mem m = M"
    using assms(1) by (auto simp: mmu_new_def split: sum.split_asm elim!: map_sum_InrE)
  obtain f2 f3 f4 D where d: "content f2 = bs"
    "data_loop (sec_hdrs elf) (sh_str_tbl elf) 0 (unat (e_shnum (elf_header elf))) (f2, Map.empty, []) = Some (f3, D, F)"
    "load_prog (prog_hdrs elf) 0 (length (prog_hdrs elf)) None f3 D = Some (f4, M)"
    using read_elf_Some [OF r(1)] by auto
  from data_loop_Some [OF d(2)] d(1) have D: "content f3 = bs"
    "dom D \<subseteq> (\<Union>j \<in> {j. j < 4 \<and> j < length (sec_hdrs elf)}. sec_span (sec_hdrs elf ! j))" by auto
  have "D x = None" using D(2) assms(3) by auto
  moreover have "M = foldl (\<lambda>M h. seg_map bs h ++ M) D (prog_hdrs elf)"
    using load_prog_spec [of f3 0 "prog_hdrs elf" "length (prog_hdrs elf)" None D] assms(2) d(3) D(1)
    by auto
  ultimately show ?thesis
    unfolding r by (subst (asm) seg_foldl) (simp add: map_add_def)
qed

text \<open>
  C16: when the loader succeeds and every program segment lies in the file, an address that
  none of the first four sections covers holds the byte of the first program segment that
  covers it, and is not mapped if none does. The entry point is the header's.
\<close>

theorem loaded_memory:
  assumes "mmu_new past_first past_second (Some bs) = Some (Inr (elf, m))"
    and "list_all (seg_ok bs) (prog_hdrs elf)"
    and "\<forall>j < 4. j < length (sec_hdrs elf) \<longrightarrow> x \<notin> sec_span (sec_hdrs elf ! j)"
  shows "mem m x = foldl (\<lambda>M h. seg_map bs h ++ M) Map.empty (prog_hdrs elf) x
    \<and> entry m = e_entry (elf_header elf)"
proof
  show "mem m x = foldl (\<lambda>M h. seg_map bs h ++ M) Map.empty (prog_hdrs elf) x"
    using assms by (rule loaded_bytes)
  show "entry m = e_entry (elf_header elf)"
    using assms(1) by (auto simp: mmu_new_def elim!: map_sum_InrE)
qed

text \<open>
  C17: a protected range always comes from a section named \<^verbatim>\<open>.rodata\<close> or \<^verbatim>\<open>.rodatal\<close> whose index is
  less than four, wherever such sections are in the file, and reaches from its address to the
  address one past its last byte.
\<close>

theorem protected_sections:
  assumes "mmu_new past_first past_second (Some bs) = Some (Inr (elf, m))" "(lo, hi) \<in> set (forbid m)"
  shows "\<exists>j < 4. j < length (sec_hdrs elf) \<and> is_ro (sh_str_tbl elf) (sec_hdrs elf ! j)
    \<and> lo = sh_addr (sec_hdrs elf ! j) \<and> hi = lo + sh_size (sec_hdrs elf ! j)"
proof -
  obtain M F where r: "read_elf \<lparr>content = bs, pos = 0\<rparr> = Some (Inr (elf, M, F))" "forbid m = F"
    using assms(1) by (auto simp: mmu_new_def split: sum.split_asm elim!: map_sum_InrE)
  obtain f2 f3 D where
    "data_loop (sec_hdrs elf) (sh_str_tbl elf) 0 (unat (e_shnum (elf_header elf))) (f2, Map.empty, []) = Some (f3, D, F)"
    using read_elf_Some [OF r(1)] by auto
  from data_loop_Some [OF this] assms(2) r(2) show ?thesis by (fastforce simp: forbid_from_def)
qed

subsection \<open>Failing to load\<close>

lemma sym_loop_kept:
  "sym_loop secs tbl i n ix = Some ix' \<Longrightarrow> (fst ix \<noteq> None \<longrightarrow> fst ix' \<noteq> None) \<and> (snd ix \<noteq> None \<longrightarrow> snd ix' \<noteq> None)"
  by (induction secs tbl i n ix rule: sym_loop.induct) (auto simp: bind_eq_Some_conv split: if_splits)

lemma sym_loop_none:
  "sym_loop secs tbl i n ix = Some ix' \<Longrightarrow> i \<le> k \<Longrightarrow> k < i + n \<Longrightarrow>
   (fst ix' = None \<longrightarrow> name_is ''.strtab'' tbl (secs ! k) = Some False)
   \<and> (snd ix' = None \<longrightarrow> name_is ''.strtab'' tbl (secs ! k) = Some True
        \<or> name_is ''.symtab'' tbl (secs ! k) = Some False)"
proof (induction n arbitrary: i ix)
  case (Suc n)
  show ?case
  proof (cases "k = i")
    case True
    with Suc.prems(1) show ?thesis
      by (auto simp: bind_eq_Some_conv at_def split: if_splits dest!: sym_loop_kept)
  next
    case False
    then have "Suc i \<le> k" "k < Suc i + n" using Suc.prems by auto
    moreover obtain ix1 where "sym_loop secs tbl (Suc i) n ix1 = Some ix'"
      using Suc.prems(1) by (cases ix) (auto simp: bind_eq_Some_conv split: if_splits)
    ultimately show ?thesis by (intro Suc.IH)
  qed
qed simp

lemma read_elf_quit: "read_elf f = Some (Inl c) \<Longrightarrow> c = 1"
proof -
  assume r: "read_elf f = Some (Inl c)"
  note d = read_elf_def
  obtain e f0 where 1: "read_elf_header f = Some (e, f0)"
    using r by (cases "read_elf_header f") (auto simp: d)
  obtain phs f1 where 2: "read_prog_headers e f0 = (phs, f1)"
    by (cases "read_prog_headers e f0")
  obtain secs tbl f2 where 3: "read_sec_headers e f1 = Some (secs, tbl, f2)"
    using r 1 2 by (cases "read_sec_headers e f1") (auto simp: d)
  have "read_sym_tbls e secs tbl f2 = Some (Inl c)"
    using r 1 2 3 by (cases "read_sym_tbls e secs tbl f2")
      (auto simp: d bind_eq_Some_conv split: sum.split_asm)
  then show "c = 1" using read_sym_tbls_Some by fastforce
qed


subsection \<open>Writing headers\<close>

definition ehdr_bytes :: "elf64_ehdr \<Rightarrow> u8 list" where
  "ehdr_bytes e = e_ident e @ le_split 2 (ucast (e_type e)) @ le_split 2 (ucast (e_machine e))
     @ le_split 4 (ucast (e_version e)) @ le_split 8 (e_entry e) @ le_split 8 (e_phoff e)
     @ le_split 8 (e_shoff e) @ le_split 4 (ucast (e_flags e)) @ le_split 2 (ucast (e_ehsize e))
     @ le_split 2 (ucast (e_phentsize e)) @ le_split 2 (ucast (e_phnum e))
     @ le_split 2 (ucast (e_shentsize e)) @ le_split 2 (ucast (e_shnum e))
     @ le_split 2 (ucast (e_shstrndx e))"

definition phdr_bytes :: "elf64_phdr \<Rightarrow> u8 list" where
  "phdr_bytes h = le_split 4 (ucast (p_type h)) @ le_split 4 (ucast (p_flags h)) @ le_split 8 (p_offset h)
     @ le_split 8 (p_vaddr h) @ le_split 8 (p_paddr h) @ le_split 8 (p_filesz h)
     @ le_split 8 (p_memsz h) @ le_split 8 (p_align h)"

definition shdr_bytes :: "elf64_shdr \<Rightarrow> u8 list" where
  "shdr_bytes h = le_split 4 (ucast (sh_name h)) @ le_split 4 (ucast (sh_type h)) @ le_split 8 (sh_flags h)
     @ le_split 8 (sh_addr h) @ le_split 8 (sh_offset h) @ le_split 8 (sh_size h)
     @ le_split 4 (ucast (sh_link h)) @ le_split 4 (ucast (sh_info h))
     @ le_split 8 (sh_addralign h) @ le_split 8 (sh_entsize h)"

definition sym_bytes :: "elf64_sym \<Rightarrow> u8 list" where
  "sym_bytes s = le_split 4 (ucast (st_name s)) @ le_split 1 (ucast (st_info s))
     @ le_split 1 (ucast (st_other s)) @ le_split 2 (ucast (st_shndx s)) @ le_split 8 (st_value s)
     @ le_split 8 (st_size s)"

lemma field_skip: "length xs \<le> off \<Longrightarrow> field (xs @ ys) off n = field ys (off - length xs) n"
  by (simp add: field_def)

lemma field_head: "field (le_split n w @ ys) 0 n = take_bit (8 * n) w" "field (le_split n w) 0 n = take_bit (8 * n) w"
  by (simp_all add: field_def le_join_le_split)

lemma take_bit_ucast:
  "(ucast (take_bit 32 (ucast a :: u64)) :: u32) = a" "(ucast (take_bit 16 (ucast b :: u64)) :: u16) = b"
  "(ucast (take_bit 8 (ucast c :: u64)) :: u8) = c" "take_bit 64 d = d" for d :: u64
  by (rule bit_word_eqI; auto simp: bit_simps dest: bit_u64_lt)+

lemma header_bytes:
  "length (e_ident e) = 16 \<Longrightarrow> read_ehdr (ehdr_bytes e) = e \<and> length (ehdr_bytes e) = 64"
  "read_phdr (phdr_bytes p) = p \<and> length (phdr_bytes p) = 56"
  "read_shdr (shdr_bytes s) = s \<and> length (shdr_bytes s) = 64"
  "read_sym (sym_bytes y) = y \<and> length (sym_bytes y) = 24"
proof -
  note d = field_skip field_head take_bit_ucast
  show "read_ehdr (ehdr_bytes e) = e \<and> length (ehdr_bytes e) = 64" if "length (e_ident e) = 16"
    by (intro conjI elf64_ehdr.equality) (simp_all add: read_ehdr_def ehdr_bytes_def d that)
  show "read_phdr (phdr_bytes p) = p \<and> length (phdr_bytes p) = 56"
    by (intro conjI elf64_phdr.equality) (simp_all add: read_phdr_def phdr_bytes_def d)
  show "read_shdr (shdr_bytes s) = s \<and> length (shdr_bytes s) = 64"
    by (intro conjI elf64_shdr.equality) (simp_all add: read_shdr_def shdr_bytes_def d)
  show "read_sym (sym_bytes y) = y \<and> length (sym_bytes y) = 24"
    by (intro conjI elf64_sym.equality)
      (simp_all add: read_sym_def sym_bytes_def d del: le_split.simps One_nat_def)
qed

text \<open>
  C35: the loader's view of the file headers is the ELF layout: a header written field by
  field, little-endian, is read back exactly, for all four kinds of header.
\<close>

theorem header_roundtrip:
  assumes "length (e_ident e) = 16"
  shows "read_ehdr (ehdr_bytes e) = e \<and> length (ehdr_bytes e) = 64
    \<and> read_phdr (phdr_bytes p) = p \<and> length (phdr_bytes p) = 56
    \<and> read_shdr (shdr_bytes s) = s \<and> length (shdr_bytes s) = 64
    \<and> read_sym (sym_bytes y) = y \<and> length (sym_bytes y) = 24"
  using header_bytes assms by blast

subsection \<open>A small file\<close>

text \<open>
  A file with one program segment and three sections, the third of them read-only data.
\<close>

definition demo_ehdr :: elf64_ehdr where
  "demo_ehdr = \<lparr>e_ident = replicate 16 0, e_type = 2, e_machine = 243, e_version = 1,
     e_entry = 0x1000, e_phoff = 64, e_shoff = 120, e_flags = 0, e_ehsize = 64, e_phentsize = 56,
     e_phnum = 1, e_shentsize = 64, e_shnum = 3, e_shstrndx = 1\<rparr>"

definition demo_phdr :: elf64_phdr where
  "demo_phdr = \<lparr>p_type = 1, p_flags = 5, p_offset = 336, p_vaddr = 0x1000, p_paddr = 0x1000,
     p_filesz = 8, p_memsz = 8, p_align = 4\<rparr>"

definition demo_shdr :: "u32 \<Rightarrow> u64 \<Rightarrow> u64 \<Rightarrow> u64 \<Rightarrow> elf64_shdr" where
  "demo_shdr name addr off sz = \<lparr>sh_name = name, sh_type = 0, sh_flags = 0, sh_addr = addr,
     sh_offset = off, sh_size = sz, sh_link = 0, sh_info = 0, sh_addralign = 1, sh_entsize = 24\<rparr>"

definition demo_names :: "u8 list" where
  "demo_names = c_string ''.symtab'' @ c_string ''.strtab'' @ c_string ''.rodata''"

definition demo_secs :: "elf64_shdr list" where
  "demo_secs = [demo_shdr 0 0 0 0, demo_shdr 8 0 312 24, demo_shdr 16 0x2000 312 8]"

text \<open>The program sets register 17 to 93 and makes a system call, which is \<^verbatim>\<open>exit\<close>.\<close>

definition demo_code :: "u8 list" where
  "demo_code = [0x93, 0x08, 0xd0, 0x05, 0x73, 0, 0, 0]"

definition demo_file :: "u8 list" where
  "demo_file = ehdr_bytes demo_ehdr @ phdr_bytes demo_phdr @ concat (map shdr_bytes demo_secs)
     @ demo_names @ demo_code"

lemma lengths:
  "length (ehdr_bytes demo_ehdr) = 64" "length (phdr_bytes p) = 56" "length (shdr_bytes s) = 64"
  "length demo_names = 24"
  by (simp_all add: ehdr_bytes_def phdr_bytes_def shdr_bytes_def demo_names_def c_string_def demo_ehdr_def)

lemma reads:
  "read_ehdr (ehdr_bytes demo_ehdr) = demo_ehdr" "read_phdr (phdr_bytes p) = p"
  "read_shdr (shdr_bytes s) = s"
  using header_bytes by (simp_all add: demo_ehdr_def)

lemma chunks_append: "length x = sz \<Longrightarrow> chunks sz (Suc n) (x @ xs) = x # chunks sz n xs"
  by simp

lemma demo_names_is:
  "name_is ''.strtab'' demo_names (demo_shdr 0 a o1 s) = Some False"
  "name_is ''.symtab'' demo_names (demo_shdr 0 a o1 s) = Some True"
  "name_is ''.strtab'' demo_names (demo_shdr 8 a o1 s) = Some True"
  "name_is ''.strtab'' demo_names (demo_shdr 16 a o1 s) = Some False"
  "name_is ''.symtab'' demo_names (demo_shdr 16 a o1 s) = Some False"
  "name_is ''.data'' demo_names (demo_shdr 0 a o1 s) = Some False"
  "name_is ''.data'' demo_names (demo_shdr 8 a o1 s) = Some False"
  "name_is ''.data'' demo_names (demo_shdr 16 a o1 s) = Some False"
  "name_is ''.sdata'' demo_names (demo_shdr 0 a o1 s) = Some False"
  "name_is ''.sdata'' demo_names (demo_shdr 8 a o1 s) = Some False"
  "name_is ''.sdata'' demo_names (demo_shdr 16 a o1 s) = Some False"
  "name_is ''.rodata'' demo_names (demo_shdr 0 a o1 s) = Some False"
  "name_is ''.rodata'' demo_names (demo_shdr 8 a o1 s) = Some False"
  "name_is ''.rodata'' demo_names (demo_shdr 16 a o1 s) = Some True"
  "name_is ''.rodatal'' demo_names (demo_shdr 0 a o1 s) = Some False"
  "name_is ''.rodatal'' demo_names (demo_shdr 8 a o1 s) = Some False"
  by (simp_all add: name_is_def demo_names_def c_string_def demo_shdr_def)

lemma demo_drops:
  "drop 64 demo_file = phdr_bytes demo_phdr @ concat (map shdr_bytes demo_secs) @ demo_names @ demo_code"
  "drop 120 demo_file = concat (map shdr_bytes demo_secs) @ demo_names @ demo_code"
  "drop 312 demo_file = demo_names @ demo_code" "drop 336 demo_file = demo_code"
  "length demo_file = 344"
  by (simp_all add: demo_file_def lengths demo_secs_def demo_code_def)

lemma demo_seeks:
  "fseek f 64 = f\<lparr>pos := 64\<rparr>" "fseek f 120 = f\<lparr>pos := 120\<rparr>" "fseek f 312 = f\<lparr>pos := 312\<rparr>"
  "fseek f 336 = f\<lparr>pos := 336\<rparr>" "fseek f 0 = f\<lparr>pos := 0\<rparr>"
  by (simp_all add: fseek_def word_sless_alt)

lemma demo_chunks: "chunks 64 3 (concat (map shdr_bytes demo_secs) @ r) = map shdr_bytes demo_secs"
  unfolding numeral_3_eq_3 by (simp add: demo_secs_def lengths)

lemma demo_sym_loop: "sym_loop demo_secs demo_names 0 3 (None, None) = Some (Some 1, Some 0)"
  unfolding numeral_3_eq_3 by (simp add: demo_secs_def at_def demo_names_is)

lemma less_8_cases: "i < 8 \<Longrightarrow> i \<in> {0, 1, 2, 3, 4, 5, 6, 7 :: nat}"
  by auto

lemma demo_seg: "seg_ok demo_file demo_phdr"
  by (simp add: seg_ok_def demo_phdr_def demo_drops int_max_def word_sless_alt)

lemma demo_load_data:
  "\<exists>f M. load_data demo_secs demo_names 2 (\<lparr>content = demo_file, pos = n\<rparr>, Map.empty, [])
     = Some (f, M, [(0x2000, 0x2008)]) \<and> content f = demo_file"
proof -
  obtain cur f M where c: "copy_loop 8 0x2000 None (\<lparr>content = demo_file, pos = 312\<rparr>) Map.empty = Some (cur, f, M)"
    "content f = demo_file"
    using copy_loop_spec [of 8 None "\<lparr>content = demo_file, pos = 312\<rparr>" "0x2000" Map.empty]
    by (auto simp: demo_drops)
  have a: "at demo_secs 2 = Some (demo_shdr 16 0x2000 312 8)" by (simp add: at_def demo_secs_def)
  have b: "unat (sh_size (demo_shdr 16 0x2000 312 8)) = 8" "sh_addr (demo_shdr 16 0x2000 312 8) = 0x2000"
    "sh_offset (demo_shdr 16 0x2000 312 8) = 312" "sh_size (demo_shdr 16 0x2000 312 8) = 8"
    by (simp_all add: demo_shdr_def)
  show ?thesis using c
    by (simp add: load_data_def a demo_names_is b demo_seeks int_max_def forbid_insert_def)
qed

lemma demo_data_loop:
  "\<exists>f M. data_loop demo_secs demo_names 0 3 (\<lparr>content = demo_file, pos = n\<rparr>, Map.empty, [])
     = Some (f, M, [(0x2000, 0x2008)]) \<and> content f = demo_file"
proof -
  have at: "at demo_secs 0 = Some (demo_shdr 0 0 0 0)" "at demo_secs 1 = Some (demo_shdr 8 0 312 24)"
    "at demo_secs 2 = Some (demo_shdr 16 0x2000 312 8)"
    by (simp_all add: at_def demo_secs_def)
  have li: "loader_index 0 loader demo_names (demo_shdr 0 a o1 s) = Some None"
    "loader_index 0 loader demo_names (demo_shdr 8 a o1 s) = Some None"
    "loader_index 0 loader demo_names (demo_shdr 16 a o1 s) = Some (Some 2)" for a o1 s
    by (simp_all add: loader_def demo_names_is)
  show ?thesis
    using demo_load_data [of n] at li
    unfolding numeral_3_eq_3 by (auto simp: numeral_2_eq_2)
qed

lemma demo_read_elf:
  "\<exists>elf M. read_elf \<lparr>content = demo_file, pos = 0\<rparr> = Some (Inr (elf, M, [(0x2000, 0x2008)]))
     \<and> prog_hdrs elf = [demo_phdr] \<and> sec_hdrs elf = demo_secs \<and> elf_header elf = demo_ehdr
     \<and> sh_str_tbl elf = demo_names \<and> index_symtab elf = 0"
proof -
  let ?f = "\<lambda>n. \<lparr>content = demo_file, pos = n\<rparr>"
  have e: "e_phoff demo_ehdr = 64" "e_shoff demo_ehdr = 120" "unat (e_phnum demo_ehdr) = 1"
    "unat (e_shnum demo_ehdr) = 3" "unat (e_shstrndx demo_ehdr) = 1"
    by (simp_all add: demo_ehdr_def)
  have 1: "read_elf_header (?f 0) = Some (demo_ehdr, ?f 64)"
    by (simp add: read_elf_header_def fread_def demo_file_def lengths reads)
  have 2: "read_prog_headers demo_ehdr (?f 64) = ([demo_phdr], ?f 120)"
    by (simp add: read_prog_headers_def fread_def demo_seeks e demo_drops lengths reads)
  have m: "map (read_shdr \<circ> shdr_bytes) demo_secs = demo_secs" by (simp add: demo_secs_def reads)
  have s: "at demo_secs 1 = Some (demo_shdr 8 0 312 24)" "demo_secs ! 1 = demo_shdr 8 0 312 24"
    "demo_secs ! 0 = demo_shdr 0 0 0 0" "length (concat (map shdr_bytes demo_secs)) = 192"
    by (simp_all add: at_def demo_secs_def lengths)
  have h: "sh_size (demo_shdr a b c d) = d" "sh_offset (demo_shdr a b c d) = c"
    "sh_entsize (demo_shdr a b c d) = 24" for a b c d
    by (simp_all add: demo_shdr_def)
  have 3: "read_sec_headers demo_ehdr (?f 120) = Some (demo_secs, demo_names, ?f 336)"
    by (simp add: read_sec_headers_def fread_def fread_bytes_def demo_seeks e demo_drops demo_chunks
        lengths m Let_def s s [unfolded One_nat_def] h del: chunks.simps)
  have 4: "read_sym_tbls demo_ehdr demo_secs demo_names (?f 336) = Some (Inr ((1, 0), demo_names, [], ?f 0))"
    by (simp add: read_sym_tbls_def e demo_sym_loop s s [unfolded One_nat_def] h fread_def fread_bytes_def demo_seeks demo_drops
        lengths)
  obtain f M where 5: "data_loop demo_secs demo_names 0 3 (?f 0, Map.empty, []) = Some (f, M, [(0x2000, 0x2008)])"
    and c: "content f = demo_file"
    using demo_data_loop by blast
  have "\<exists>f'. load_prog [demo_phdr] 0 1 None f M = Some (f', foldl (\<lambda>M h. seg_map (content f) h ++ M) M
      (take 1 (drop 0 [demo_phdr])))"
    using demo_seg c by (intro load_prog_spec) simp_all
  then obtain f' M' where 6: "load_prog [demo_phdr] 0 1 None f M = Some (f', M')" by blast
  show ?thesis using 1 2 3 4 5 6 by (simp add: read_elf_def e del: load_prog.simps)
qed

lemma demo_mmu_new:
  "\<exists>elf m. mmu_new past_first past_second (Some demo_file) = Some (Inr (elf, m))
     \<and> prog_hdrs elf = [demo_phdr] \<and> sec_hdrs elf = demo_secs \<and> elf_header elf = demo_ehdr
     \<and> sh_str_tbl elf = demo_names \<and> index_symtab elf = 0
     \<and> forbid m = [(0x2000, 0x2008)] \<and> end_first m = past_first"
  using demo_read_elf by (auto simp: mmu_new_def)

lemma demo_outside:
  "i < 8 \<Longrightarrow> h \<in> set demo_secs \<Longrightarrow> 0x1000 + of_nat i \<notin> sec_span h"
  by (drule less_8_cases) (auto simp: demo_secs_def sec_span_def span_def demo_shdr_def)

lemma demo_seg_map: "i < 8 \<Longrightarrow> seg_map demo_file demo_phdr (0x1000 + of_nat i) = Some (demo_code ! i)"
  by (drule less_8_cases)
    (auto simp: seg_map_def demo_phdr_def demo_drops bytes_map_def demo_code_def)

lemma demo_loaded:
  assumes "mmu_new past_first past_second (Some demo_file) = Some (Inr (elf, m))" "i < 8"
  shows "mem m (0x1000 + of_nat i) = Some (demo_code ! i)"
proof -
  obtain elf' m' where "mmu_new past_first past_second (Some demo_file) = Some (Inr (elf', m'))"
    and "prog_hdrs elf' = [demo_phdr]" "sec_hdrs elf' = demo_secs"
    using demo_mmu_new by blast
  with assms(1) have e: "prog_hdrs elf = [demo_phdr]" "sec_hdrs elf = demo_secs" by simp_all
  then have "mem m (0x1000 + of_nat i) = foldl (\<lambda>M h. seg_map demo_file h ++ M) Map.empty (prog_hdrs elf) (0x1000 + of_nat i)"
    using demo_outside [OF assms(2)] demo_seg
    by (intro loaded_bytes [OF assms(1)]) (auto dest: nth_mem)
  then show ?thesis using demo_seg_map [OF assms(2)] by (simp add: e)
qed

theorem loaded_memory_witness:
  "\<exists>elf m. mmu_new (\<lambda>_. 0) 0 (Some demo_file) = Some (Inr (elf, m))
     \<and> mem m 0x1000 = Some 0x93 \<and> entry m = 0x1000"
proof -
  obtain elf m where m: "mmu_new (\<lambda>_. 0) 0 (Some demo_file) = Some (Inr (elf, m))"
    and e: "prog_hdrs elf = [demo_phdr]" "sec_hdrs elf = demo_secs" "elf_header elf = demo_ehdr"
    using demo_mmu_new by blast
  have "list_all (seg_ok demo_file) (prog_hdrs elf)" by (simp add: e demo_seg)
  moreover have "\<forall>j < 4. j < length (sec_hdrs elf) \<longrightarrow> 0x1000 \<notin> sec_span (sec_hdrs elf ! j)"
    using demo_outside [of 0] unfolding e by (auto dest: nth_mem)
  moreover have "seg_map demo_file demo_phdr 0x1000 = Some 0x93" "e_entry demo_ehdr = 0x1000"
    using demo_seg_map [of 0] by (simp_all add: demo_ehdr_def demo_code_def)
  ultimately show ?thesis using loaded_memory [OF m, of "0x1000"] m e by auto
qed

theorem protected_sections_witness:
  "\<exists>elf m. mmu_new (\<lambda>_. 0) 0 (Some demo_file) = Some (Inr (elf, m)) \<and> (0x2000, 0x2008) \<in> set (forbid m)
     \<and> (\<exists>j < 4. 0x2008 = 0x2000 + sh_size (sec_hdrs elf ! j))"
proof -
  obtain elf m where m: "mmu_new (\<lambda>_. 0) 0 (Some demo_file) = Some (Inr (elf, m))"
    and f: "(0x2000, 0x2008) \<in> set (forbid m)"
    using demo_mmu_new by fastforce
  from protected_sections [OF m f] m f show ?thesis by blast
qed


theorem header_roundtrip_witness: "read_ehdr (ehdr_bytes demo_ehdr) = demo_ehdr"
  using header_roundtrip [of demo_ehdr] by (simp add: demo_ehdr_def)

end
