(* ===== verification/Boot.thy ===== *)
theory Boot
  imports Run Loader
begin

unbundle bit_operations_syntax

text \<open>
  The constructor of \<^verbatim>\<open>cpu_t\<close> and the function \<^verbatim>\<open>main\<close> of \<^verbatim>\<open>riscv-simulator.cpp\<close>: load the file, set
  the program counter and the stack pointer, clear the first stack slot, register the
  instructions, and step until the simulator stops. The members the constructor does not set,
  most registers among them, keep what the memory held before: the parameter \<open>raw\<close>.
\<close>

definition SP_INIT :: u64 where
  "SP_INIT = 0xfffffffffefffb50"

datatype boot = Quit int | Aborted exn | Booted cpu_t

definition cpu_new :: "os_t \<Rightarrow> fpu_t \<Rightarrow> cpu_t \<Rightarrow> ((u64 \<rightharpoonup> u8) \<Rightarrow> u64) \<Rightarrow> u8 \<Rightarrow> u8 list option \<Rightarrow> boot option" where
  "cpu_new os fpu raw past_first past_second path =
     (case mmu_new past_first past_second path of
        None \<Rightarrow> None
      | Some (Inl c) \<Rightarrow> Some (Quit c)
      | Some (Inr (elf, m)) \<Rightarrow>
          (let p = set_state_pc (raw\<lparr>mmu := m, history := []\<rparr>) (entry m);
               p = WRITE_REG p 2 SP_INIT
           in case write_64 (mmu p) SP_INIT 0 of
                Inl e \<Rightarrow> Some (Aborted e)
              | Inr m \<Rightarrow> Some (Booted (p\<lparr>mmu := m, insn_count := initial_counts os fpu\<rparr>))))"

text \<open>
  The end of the process: a status, an uncaught exception, or none at all.
\<close>

datatype ending = Status int | Uncaught exn | Runs_forever

definition ending_of :: "(stop + cpu_t) option \<Rightarrow> ending" where
  "ending_of r = (case r of
     None \<Rightarrow> Runs_forever
   | Some (Inl (Exited c p)) \<Rightarrow> Status c
   | Some (Inl (Threw e)) \<Rightarrow> Uncaught e
   | Some (Inr p) \<Rightarrow> Status 0)"

definition sim_main :: "os_t \<Rightarrow> fpu_t \<Rightarrow> cpu_t \<Rightarrow> ((u64 \<rightharpoonup> u8) \<Rightarrow> u64) \<Rightarrow> u8 \<Rightarrow> u8 list option \<Rightarrow> ending option" where
  "sim_main os fpu raw past_first past_second path =
     map_option (\<lambda>b. case b of
         Quit c \<Rightarrow> Status c
       | Aborted e \<Rightarrow> Uncaught e
       | Booted p \<Rightarrow> ending_of (cpu_step os fpu 0 p))
       (cpu_new os fpu raw past_first past_second path)"

subsection \<open>The state after construction\<close>

lemma cpu_new_Booted:
  assumes "cpu_new os fpu raw past_first past_second path = Some (Booted p)"
  obtains elf m m' where "mmu_new past_first past_second path = Some (Inr (elf, m))"
    "mmu_write m SP_INIT 0 8 = Inr m'"
    "p = (WRITE_REG (set_state_pc (raw\<lparr>mmu := m, history := []\<rparr>) (entry m)) 2 SP_INIT)
       \<lparr>mmu := m', insn_count := initial_counts os fpu\<rparr>"
proof -
  obtain elf m where m: "mmu_new past_first past_second path = Some (Inr (elf, m))"
    using assms by (auto simp: cpu_new_def split: option.split_asm sum.split_asm)
  then obtain m' where "mmu_write m SP_INIT 0 8 = Inr m'"
    using assms by (cases "mmu_write m SP_INIT 0 8")
      (auto simp: cpu_new_def Let_def write_64_def WRITE_REG_def set_state_pc_def)
  with m assms that show ?thesis
    by (auto simp: cpu_new_def Let_def write_64_def WRITE_REG_def set_state_pc_def)
qed

text \<open>
  C25: the constructed processor starts at the entry point of the file, with the stack pointer
  in register 2 and the counters at zero; every other register, register zero included, holds
  what was in memory before. The first stack slot is zero, provided its eight bytes are clear
  of the past-the-end key, and all other memory is as loaded.
\<close>

theorem boot_state:
  assumes "cpu_new os fpu raw past_first past_second path = Some (Booted p)" "wf_cpu raw"
  shows "\<exists>elf m. mmu_new past_first past_second path = Some (Inr (elf, m))
    \<and> state_pc (cpu_state p) = entry m
    \<and> READ_REG p 2 = SP_INIT
    \<and> (\<forall>r. unat r < 32 \<and> r \<noteq> 2 \<longrightarrow> READ_REG p r = READ_REG raw r)
    \<and> insn_count p = initial_counts os fpu \<and> history p = [] \<and> wf_cpu p
    \<and> forbid (mmu p) = forbid m
    \<and> (\<forall>x. x \<notin> span SP_INIT 8 \<longrightarrow> mem (mmu p) x = mem m x)
    \<and> (mem_clear m (span SP_INIT 8) \<longrightarrow> (\<forall>i < 8. mem (mmu p) (SP_INIT + of_nat i) = Some 0))"
proof -
  obtain elf m m' where m: "mmu_new past_first past_second path = Some (Inr (elf, m))"
    and w: "mmu_write m SP_INIT 0 8 = Inr m'"
    and p: "p = (WRITE_REG (set_state_pc (raw\<lparr>mmu := m, history := []\<rparr>) (entry m)) 2 SP_INIT)
       \<lparr>mmu := m', insn_count := initial_counts os fpu\<rparr>"
    using assms(1) by (rule cpu_new_Booted)
  have r: "READ_REG p r = (if r = 2 then SP_INIT else READ_REG raw r)" if "unat r < 32" for r
    using assms(2) that
    by (auto simp: p READ_REG_def WRITE_REG_def set_state_pc_def wf_cpu_def xregs.get_put)
  have "mem m' (SP_INIT + of_nat i) = Some 0" if "mem_clear m (span SP_INIT 8)" "i < 8" for i
  proof -
    have "m' = put_list store_it m SP_INIT (le_split 8 0)"
      using w by (simp add: mmu_write_ok write_loop_put)
    then show ?thesis
      using mbytes.get_put_list_in [of m "span SP_INIT 8" SP_INIT "le_split 8 0" i] that
      by (simp add: le_split_nth)
  qed
  moreover have "mem m' x = mem m x" if "x \<notin> span SP_INIT 8" for x
    using w that by (simp add: mmu_write_ok write_loop_out)
  moreover have "wf_cpu p" "mmu p = m'" "history p = []" "insn_count p = initial_counts os fpu"
    "state_pc (cpu_state p) = entry m"
    using assms(2) by (simp_all add: p wf_cpu_def WRITE_REG_def set_state_pc_def)
  ultimately show ?thesis using m r w by (intro exI [of _ elf] exI [of _ m]) simp
qed

lemma demo_boot:
  "\<exists>elf m p. mmu_new (\<lambda>_. 0) 0 (Some demo_file) = Some (Inr (elf, m)) \<and> mem_clear m (span SP_INIT 8)
     \<and> cpu_new demo_os demo_fpu (demo_cpu []) (\<lambda>_. 0) 0 (Some demo_file) = Some (Booted p)
     \<and> mmu p = write_loop 8 SP_INIT 0 m \<and> state_pc (cpu_state p) = 0x1000 \<and> READ_REG p 0 = 0"
proof -
  obtain elf m where m: "mmu_new (\<lambda>_. 0) 0 (Some demo_file) = Some (Inr (elf, m))"
    "elf_header elf = demo_ehdr" "forbid m = [(0x2000, 0x2008)]" "end_first m = (\<lambda>_. 0)"
    using demo_mmu_new by blast
  then have e: "entry m = 0x1000" by (auto simp: mmu_new_def demo_ehdr_def elim!: map_sum_InrE)
  have "\<not> ban m SP_INIT" "\<not> ban m (7 + SP_INIT)" by (simp_all add: ban_def m SP_INIT_def)
  then have w: "mmu_write m SP_INIT 0 8 = Inr (write_loop 8 SP_INIT 0 m)" by (simp add: mmu_write_def)
  have "mem_clear m (span SP_INIT 8)" by (simp add: mem_clear_def m span_def SP_INIT_def)
  with m w e show ?thesis
    by (intro exI [of _ elf] exI [of _ m])
      (simp add: cpu_new_def Let_def write_64_def WRITE_REG_def set_state_pc_def READ_REG_def
        regfile_get_def regfile_write_def demo_cpu_def)
qed

theorem boot_state_witness:
  "\<exists>p. cpu_new demo_os demo_fpu (demo_cpu []) (\<lambda>_. 0) 0 (Some demo_file) = Some (Booted p)
     \<and> READ_REG p 2 = SP_INIT \<and> mem (mmu p) SP_INIT = Some 0"
proof -
  obtain elf m p where m: "mmu_new (\<lambda>_. 0) 0 (Some demo_file) = Some (Inr (elf, m))"
    "mem_clear m (span SP_INIT 8)"
    and p: "cpu_new demo_os demo_fpu (demo_cpu []) (\<lambda>_. 0) 0 (Some demo_file) = Some (Booted p)"
    using demo_boot by blast
  have "wf_cpu (demo_cpu [])" by (simp add: wf_cpu_def wf_regs_def demo_cpu_def)
  from boot_state [OF p this] m(1) have "READ_REG p 2 = SP_INIT"
    and "mem_clear m (span SP_INIT 8) \<longrightarrow> (\<forall>i < 8. mem (mmu p) (SP_INIT + of_nat i) = Some 0)"
    by auto
  with m(2) have "READ_REG p 2 = SP_INIT" "mem (mmu p) (SP_INIT + of_nat 0) = Some 0"
    by (blast, blast intro: zero_less_numeral)
  with p show ?thesis by simp
qed

subsection \<open>The end of the process\<close>

definition exit_ok :: "stop \<Rightarrow> bool" where
  "exit_ok s \<longleftrightarrow> (case s of
     Threw e \<Rightarrow> True
   | Exited c p \<Rightarrow> (c = 0 \<and> (\<exists>cs. PrintCounts cs \<in> set (history p))) \<or> c = 1)"

lemma exit_ok_Threw [simp]: "exit_ok (Threw e)"
  by (simp add: exit_ok_def)

lemma scall_exit_ok: "rv64_scall os p insn pc = Inl s \<Longrightarrow> exit_ok s"
  by (auto simp: rv64_scall_def SIM_read_def Let_def trying_Inl log_event_def
      split: if_splits sum.splits prod.splits) (auto simp: exit_ok_def)

lemma handlers_exit_ok:
  "d \<in> set (instructions os fpu) \<Longrightarrow> desc_rv64 d p insn pc = Inl s \<Longrightarrow> exit_ok s"
  unfolding instructions_def registered_def insn_list_def illegal_desc_def
  by (auto simp: insn_defs Let_def trying_Inl split: if_splits dest: scall_exit_ok)

lemma step_once_exit_ok: "step_once os fpu p = Inl s \<Longrightarrow> exit_ok s"
  by (elim step_once_InlE) (auto dest: handlers_exit_ok)

interpretation run_exits: step_stop "step_once os fpu" "\<lambda>_. True" exit_ok for os fpu
  by unfold_locales (auto intro: step_once_exit_ok)

lemma mmu_new_quit: "mmu_new past_first past_second path = Some (Inl c) \<Longrightarrow> c = 1"
proof (cases path)
  case (Some bs)
  assume "mmu_new past_first past_second path = Some (Inl c)"
  then have "read_elf \<lparr>content = bs, pos = 0\<rparr> = Some (Inl c)"
    using Some by (cases "read_elf \<lparr>content = bs, pos = 0\<rparr>")
      (auto simp: mmu_new_def map_sum_def split: sum.split_asm)
  then show ?thesis by (rule read_elf_quit)
qed (simp add: mmu_new_def)

text \<open>
  C26: the process ends with status 0 only through the \<^verbatim>\<open>exit\<close> call of the simulated program,
  after its counters were listed: \<^verbatim>\<open>main\<close> itself never returns. The only other status is 1.
\<close>

theorem main_endings:
  assumes "sim_main os fpu raw past_first past_second path = Some (Status c)"
  shows "(c = 0 \<and> (\<exists>p n p' cs. cpu_new os fpu raw past_first past_second path = Some (Booted p)
            \<and> iterate (step_once os fpu) n p = Inl (Exited 0 p') \<and> PrintCounts cs \<in> set (history p')))
    \<or> c = 1"
proof -
  obtain b where b: "cpu_new os fpu raw past_first past_second path = Some b"
    "Status c = (case b of Quit c \<Rightarrow> Status c | Aborted e \<Rightarrow> Uncaught e
       | Booted p \<Rightarrow> ending_of (cpu_step os fpu 0 p))"
    using assms by (auto simp: sim_main_def)
  show ?thesis
  proof (cases b)
    case (Quit k)
    with b(1) have "mmu_new past_first past_second path = Some (Inl k)"
      by (auto simp: cpu_new_def Let_def split: option.split_asm sum.split_asm)
    with b(2) Quit show ?thesis using mmu_new_quit by auto
  next
    case (Aborted e)
    with b(2) show ?thesis by simp
  next
    case (Booted p)
    with b(2) obtain p' where r: "run_forever os fpu p = Some (Exited c p')"
      by (auto simp: ending_of_def cpu_step_def split: option.split_asm sum.split_asm stop.split_asm)
    then obtain n where n: "iterate (step_once os fpu) n p = Inl (Exited c p')"
      using run_forever_iterate by blast
    then have "exit_ok (Exited c p')" using run_exits.iterate_stop by blast
    with n b(1) Booted show ?thesis by (auto simp: exit_ok_def)
  qed
qed

theorem main_endings_witness:
  "sim_main demo_os demo_fpu (demo_cpu []) (\<lambda>_. 0) 0 None = Some (Status 1)"
proof -
  have "sim_main demo_os demo_fpu (demo_cpu []) (\<lambda>_. 0) 0 None = Some (Status 1)"
    by (simp add: sim_main_def cpu_new_def mmu_new_def)
  with main_endings [OF this] show ?thesis by simp
qed

end
