(* ===== verification/Debug.thy ===== *)
theory Debug
  imports Print Boot "HOL-Library.Sublist"
begin

unbundle bit_operations_syntax

text \<open>
  What the program prints, as functions to strings: the lines of the released build (the
  events of the history and the messages of the exceptions) and the output of the debug builds
  of \<^verbatim>\<open>cpu.h\<close> and \<^verbatim>\<open>mmu.cpp\<close>: the table of instructions, the disassembly, the dumps of registers and
  memory, and the listing of the ELF file. A 64-bit argument of \<^verbatim>\<open>%x\<close> prints its low 32 bits, as
  on the hosts the program is built for; the number of a round is not bounded. The bytes that
  the simulated program writes go to the file descriptor directly and are not part of the text.
\<close>

subsection \<open>Messages\<close>

fun what :: "exn \<Rightarrow> string" where
  "what trap_illegal_instruction = ''ERROR! Trap Illegal Instruction.'' @ nl"
| "what (trap_instruction_address_misaligned pc) = ''ERROR! Instruction address misaligned'' @ nl"
| "what (invalid_address head addr) = ''Segmentation fault!'' @ nl"
| "what (no_permission head addr) = ''Permission denied!''"

text \<open>What the constructor of an exception prints.\<close>

fun exn_text :: "exn \<Rightarrow> string" where
  "exn_text (invalid_address head addr) =
     ''head addr at 0x'' @ fmt_x head @ '', wrong addr at 0x'' @ fmt_x addr @ nl"
| "exn_text (no_permission head addr) =
     ''Error occurs between 0x'' @ fmt_x head @ '' and 0x'' @ fmt_x addr @ nl"
| "exn_text e = []"

definition count_text :: "count_item \<Rightarrow> string" where
  "count_text it = item_name it @ '' '' @ fmt_d (item_count it) @ nl"

fun event_text :: "event \<Rightarrow> string" where
  "event_text (PrintIllegal pc) = fmt_x pc @ nl"
| "event_text (PrintUnknownCall n) = ''Unknown system call! '' @ fmt_x n"
| "event_text (PrintCounts items) = concat (map count_text items)"
| "event_text e = []"

subsection \<open>The processor\<close>

definition desc_text :: "insn_desc_t \<Rightarrow> string" where
  "desc_text d = ''----------------'' @ nl @ ''INSTRUCTION: '' @ desc_name d @ nl
     @ ''MASK/MATCH: '' @ fmt_x (ucast (snd (desc_pat d)) :: u32) @ '' ''
     @ fmt_x (ucast (fst (desc_pat d)) :: u32) @ nl"

definition check_instructions :: "insn_desc_t list \<Rightarrow> string" where
  "check_instructions ds = ''START CHECK INSTRUCTIONS'' @ nl
     @ ''Instruction size: '' @ fmt_nat (length ds) @ nl
     @ concat (map desc_text ds) @ ''END CHECK INSTRUCTIONS'' @ nl @ nl @ nl"

definition register_line :: "cpu_t \<Rightarrow> nat \<Rightarrow> string" where
  "register_line p i = ''R['' @ fmt_nat i @ '']: '' @ fmt_x (READ_REG p (of_nat i))"

definition dump_register_file :: "cpu_t \<Rightarrow> string" where
  "dump_register_file p = concat (map (\<lambda>i. register_line p i @ nl) [0..<32])"

definition disasm :: "cpu_t \<Rightarrow> string" where
  "disasm p = ''Disasm: '' @ c_name p @ nl"

text \<open>With \<^verbatim>\<open>DEBUG_ALL\<close> the search of \<^verbatim>\<open>decode_insn\<close> reports every entry it looks at.\<close>

definition decode_line :: "u64 \<Rightarrow> insn_desc_t \<Rightarrow> string" where
  "decode_line bits p = ''INSN: '' @ desc_name p @ nl
     @ ''HAVE: '' @ fmt_x (ucast (bits AND snd (desc_pat p)) :: u32) @ nl
     @ ''WANT: '' @ fmt_x (ucast (fst (desc_pat p)) :: u32) @ nl"

fun decode_text :: "u64 \<Rightarrow> insn_desc_t list \<Rightarrow> string" where
  "decode_text bits [] = []"
| "decode_text bits (p # ps) =
     (if bits AND snd (desc_pat p) \<noteq> fst (desc_pat p) then decode_line bits p @ decode_text bits ps
      else decode_line bits p)"

subsection \<open>The memory unit\<close>

definition load_insn_text :: "mmu_t \<Rightarrow> u64 \<Rightarrow> string" where
  "load_insn_text m PC = ''LOADING INSN:'' @ nl @ tab @ ''[PC]:'' @ tab @ fmt_x PC @ nl
     @ (case load_insn m PC of Inl e \<Rightarrow> exn_text e | Inr retval \<Rightarrow> tab @ ''[VAL]:'' @ tab @ fmt_x retval @ nl)"

text \<open>
  \<^verbatim>\<open>dump\<close> prints rows of eight bytes. \<open>n\<close> is what is left of the length, \<open>j\<close> the column. It
  returns after the last byte, without ending a row that is not full, and at the first
  address that is not mapped.
\<close>

function dump_loop :: "mmu_t \<Rightarrow> nat \<Rightarrow> nat \<Rightarrow> u64 \<Rightarrow> string" where
  "dump_loop m n j cur_addr =
     (if 8 \<le> j then nl @ (if n = 0 then [] else dump_loop m n 0 cur_addr)
      else if n = 0 then []
      else (case mem m cur_addr of
              None \<Rightarrow> ''Mem['' @ fmt_x cur_addr @ ''] isn't assigned!'' @ nl
            | Some b \<Rightarrow>
                (if j = 0 then ''Mem['' @ fmt_x cur_addr @ ''] = '' @ fmt_x b else '' '' @ fmt_x b)
                @ dump_loop m (n - 1) (j + 1) (cur_addr + 1)))"
  by pat_completeness auto
termination by (relation "measure (\<lambda>(m, n, j, a). 2 * n + (if 8 \<le> j then 1 else 0))") auto

declare dump_loop.simps [simp del]

definition mmu_dump :: "mmu_t \<Rightarrow> u64 \<Rightarrow> nat \<Rightarrow> string" where
  "mmu_dump m addr len = dump_loop m len 0 addr"

subsection \<open>The listing of the ELF file\<close>

text \<open>
  \<^verbatim>\<open>%s\<close> prints the bytes of a table from an offset up to the first zero; a name that does not
  end inside its table is undefined behaviour, as is a header that was not read from the file.
\<close>

fun c_str :: "u8 list \<Rightarrow> string option" where
  "c_str [] = None"
| "c_str (b # bs) = (if b = 0 then Some [] else map_option (Cons (char_of (unat b))) (c_str bs))"

definition field_line :: "string \<Rightarrow> string \<Rightarrow> string" where
  "field_line name v = pad_right 20 name @ tab @ v @ nl"

text \<open>\<^verbatim>\<open>%d\<close> of a 16-bit field prints the field converted to an \<^verbatim>\<open>int\<close>.\<close>

definition fmt_half :: "u16 \<Rightarrow> string" where
  "fmt_half w = fmt_d (ucast w :: u32)"

definition elf_header_text :: "elf64_ehdr \<Rightarrow> string" where
  "elf_header_text h = nl @ nl @ ''Content of ELF header:'' @ nl @ ''e_ident:'' @ nl @ tab
     @ concat (map (\<lambda>b. ''0x'' @ fmt_x b @ ''  '') (e_ident h)) @ nl
     @ field_line ''e_type:'' (tab @ fmt_half (e_type h))
     @ (if e_machine h = 243 then ''e_machine:'' @ tab @ ''RISC-V'' @ nl
        else field_line ''e_machine:'' (fmt_half (e_machine h)))
     @ field_line ''e_version:'' (fmt_d (e_version h))
     @ field_line ''e_entry:'' (''0x'' @ fmt_x (e_entry h))
     @ field_line ''e_phoff:'' (fmt_d (e_phoff h))
     @ field_line ''e_shoff:'' (fmt_d (e_shoff h))
     @ field_line ''e_flags:'' (''0x'' @ fmt_x (e_flags h))
     @ field_line ''e_ehsize:'' (fmt_half (e_ehsize h))
     @ field_line ''e_phentsize:'' (fmt_half (e_phentsize h))
     @ field_line ''e_phnum:'' (fmt_half (e_phnum h))
     @ field_line ''e_shentsize:'' (fmt_half (e_shentsize h))
     @ field_line ''e_shnum:'' (fmt_half (e_shnum h))
     @ field_line ''e_shstrndx:'' (fmt_half (e_shstrndx h))"

text \<open>The columns of a table are separated by two blanks.\<close>

fun columns :: "string list \<Rightarrow> string" where
  "columns [] = []"
| "columns [c] = c"
| "columns (c # cs) = c @ ''  '' @ columns cs"

definition prog_line :: "elf64_phdr \<Rightarrow> string" where
  "prog_line h = columns
     [pad_right 10 (fmt_x (p_type h)), ''0x'' @ pad_zero 6 (fmt_x (p_offset h)),
      ''0x'' @ pad_zero 8 (fmt_x (p_vaddr h)), ''0x'' @ pad_zero 8 (fmt_x (p_paddr h)),
      ''0x'' @ pad_zero 6 (fmt_x (p_filesz h)), ''0x'' @ pad_zero 6 (fmt_x (p_memsz h)),
      pad_right 3 (fmt_x (p_flags h)), ''0x'' @ fmt_x (p_align h)]"

definition sec_line :: "u8 list \<Rightarrow> nat \<Rightarrow> elf64_shdr \<Rightarrow> string option" where
  "sec_line names i h = map_option (\<lambda>name. columns
     [''['' @ pad_left 2 (fmt_nat i) @ '']'', pad_right 20 name, pad_right 20 (fmt_x (sh_type h)),
      pad_zero 8 (fmt_x (sh_addr h)), pad_zero 6 (fmt_x (sh_offset h)), pad_zero 6 (fmt_x (sh_size h)),
      pad_zero 2 (fmt_x (sh_entsize h)), pad_right 3 (fmt_x (sh_flags h)),
      pad_left 2 (fmt_d (sh_link h)), pad_left 3 (fmt_d (sh_info h)), pad_left 2 (fmt_d (sh_addralign h))])
     (c_str (drop (unat (sh_name h)) names))"

definition sym_line :: "u8 list \<Rightarrow> nat \<Rightarrow> elf64_sym \<Rightarrow> string option" where
  "sym_line names i s = map_option (\<lambda>name. columns
     [pad_left 3 (fmt_nat i) @ '':'', pad_left 8 (fmt_x (st_value s)), pad_left 4 (fmt_d (st_size s)),
      pad_right 10 (fmt_x (st_info s)), pad_right 6 (fmt_x (st_info s)), pad_right 10 (fmt_x (st_info s)),
      pad_left 3 (fmt_x (st_shndx s)), name])
     (c_str (drop (unat (st_name s)) names))"

text \<open>The lines of a table of \<open>n\<close> entries; \<open>None\<close> when one of them is undefined.\<close>

definition table_text :: "nat \<Rightarrow> 'a list \<Rightarrow> (nat \<Rightarrow> 'a \<Rightarrow> string option) \<Rightarrow> string option" where
  "table_text n xs line = map_option (\<lambda>ls. concat (map (\<lambda>l. l @ nl) ls))
     (those (map (\<lambda>i. Option.bind (at xs i) (line i)) [0..<n]))"

definition prog_title :: string where
  "prog_title = columns [pad_right 10 ''Type'', pad_right 8 ''Offset'', pad_right 10 ''VirtAddr'',
     pad_right 10 ''PhysAddr'', pad_right 8 ''FileSize'', pad_right 8 ''MemSize'', pad_right 3 ''Flg'',
     ''Align''] @ nl"

definition sec_title :: string where
  "sec_title = columns [pad_left 4 ''[Nr]'', pad_right 20 ''Name'', pad_right 20 ''Type'',
     pad_right 8 ''Addr'', pad_right 6 ''Off'', pad_right 6 ''Size'', pad_left 2 ''ES'',
     pad_left 3 ''Flg'', pad_left 2 ''Lk'', pad_left 3 ''Inf'', pad_left 2 ''Al''] @ nl"

definition sym_title :: string where
  "sym_title = columns [''Num:'', pad_left 8 ''Value'', ''Size'', pad_right 10 ''Type'',
     pad_right 6 ''Bind'', pad_right 10 ''Vis'', ''Ndx'', ''Name''] @ nl"

definition prog_text :: "elf_t \<Rightarrow> string option" where
  "prog_text e =
     (if e_phnum (elf_header e) > 0
      then map_option (\<lambda>t. nl @ nl @ ''Content of Program header:'' @ nl @ prog_title @ t)
             (table_text (unat (e_phnum (elf_header e))) (prog_hdrs e) (\<lambda>i h. Some (prog_line h)))
      else Some (''No prog_header found!!!'' @ nl))"

definition sec_text :: "elf_t \<Rightarrow> string option" where
  "sec_text e =
     (if e_shnum (elf_header e) > 0
      then map_option (\<lambda>t. nl @ nl @ ''Content of section header '' @ nl @ sec_title @ t)
             (table_text (unat (e_shnum (elf_header e))) (sec_hdrs e) (sec_line (sh_str_tbl e)))
      else Some (''No sec_header found!!!'' @ nl))"

text \<open>The number of symbols is an \<^verbatim>\<open>int\<close>.\<close>

definition symbol_count :: "elf64_shdr \<Rightarrow> nat" where
  "symbol_count h = nat (sint (ucast (sh_size h div sh_entsize h) :: u32))"

definition sym_text :: "elf_t \<Rightarrow> string option" where
  "sym_text e =
     Option.bind (at (sec_hdrs e) (index_symtab e)) (\<lambda>h.
       if sh_entsize h = 0 then None
       else map_option (\<lambda>t. nl @ nl @ ''Content of symbol table entry:'' @ nl @ sym_title @ t)
              (table_text (symbol_count h) (symbol_table e) (sym_line (str_tbl e))))"

definition Debug_elf :: "elf_t \<Rightarrow> string option" where
  "Debug_elf e =
     Option.bind (prog_text e) (\<lambda>p.
     Option.bind (sec_text e) (\<lambda>s.
     Option.bind (sym_text e) (\<lambda>y.
       Some (elf_header_text (elf_header e) @ p @ s @ y))))"

subsection \<open>Construction and main\<close>

record debug_build =
  dbg :: bool
  dbg_all :: bool
  dbg_mmu :: bool
  dbg_registers :: bool
  dbg_memory :: "(u64 \<times> nat) option"

definition release_build :: debug_build where
  "release_build = \<lparr>dbg = False, dbg_all = False, dbg_mmu = False, dbg_registers = False, dbg_memory = None\<rparr>"

definition cpu_new_text :: "debug_build \<Rightarrow> os_t \<Rightarrow> fpu_t \<Rightarrow> elf_t \<Rightarrow> string option" where
  "cpu_new_text b os fpu elf =
     (if dbg b then map_option (\<lambda>t. t @ check_instructions (instructions os fpu)) (Debug_elf elf)
      else Some [])"

text \<open>
  \<^verbatim>\<open>main\<close> takes the path from its first argument or asks for it; \<^verbatim>\<open>scanf\<close> stores the word it reads,
  if there is one, in a buffer of 100 bytes. The file of that name is given to \<open>sim_main\<close>.
\<close>

definition main_path :: "string list \<Rightarrow> string option \<Rightarrow> string option" where
  "main_path argv typed =
     (if length argv < 2
      then Option.bind typed (\<lambda>w. if length w < 100 then Some w else None)
      else Some (argv ! 1))"

definition main_text :: "string list \<Rightarrow> string \<Rightarrow> string" where
  "main_text argv path =
     (if length argv < 2 then ''Input Elf File Path:'' @ nl else [])
     @ ''START WITH PATH: '' @ path @ nl @ nl"

subsection \<open>What a run prints\<close>

text \<open>The printed lines of the events by which one history extends another.\<close>

definition new_text :: "event list \<Rightarrow> event list \<Rightarrow> string" where
  "new_text old now = concat (map event_text (rev (take (length now - length old) now)))"

definition stop_text :: "cpu_t \<Rightarrow> stop \<Rightarrow> string" where
  "stop_text p s = (case s of
     Threw e \<Rightarrow> exn_text e
   | Exited c p' \<Rightarrow> new_text (history p) (history p'))"

definition if_text :: "bool \<Rightarrow> string \<Rightarrow> string" where
  "if_text c s = (if c then s else [])"

definition round_text :: "debug_build \<Rightarrow> os_t \<Rightarrow> fpu_t \<Rightarrow> nat \<Rightarrow> cpu_t \<Rightarrow> string" where
  "round_text b os fpu n p =
     (let m = mmu p; pc = state_pc (cpu_state p)
      in if_text (dbg b) (''------'' @ nl @ ''STEP: '' @ fmt_nat n @ nl)
       @ (case load_insn m pc of
            Inl e \<Rightarrow> if dbg_mmu b then load_insn_text m pc else exn_text e
          | Inr bits \<Rightarrow>
              if_text (dbg_mmu b) (load_insn_text m pc)
              @ if_text (dbg_all b) (decode_text bits (instructions os fpu))
              @ (case decode_insn os fpu bits of
                   None \<Rightarrow> []
                 | Some d \<Rightarrow>
                     (let p = fetch_decode d bits p
                      in if_text (dbg b) (disasm p)
                       @ if_text (desc_name d = ''illegal'') (fmt_x pc @ nl)
                       @ (case execute_insn d p of
                            Inl s \<Rightarrow> stop_text p s
                          | Inr (npc, p') \<Rightarrow>
                              new_text (history p) (history p')
                              @ if_text (dbg_registers b) (dump_register_file p')
                              @ (case dbg_memory b of
                                   None \<Rightarrow> []
                                 | Some (addr, len) \<Rightarrow> mmu_dump (mmu p') addr len))))))"

fun run_text :: "debug_build \<Rightarrow> os_t \<Rightarrow> fpu_t \<Rightarrow> nat \<Rightarrow> nat \<Rightarrow> cpu_t \<Rightarrow> string" where
  "run_text b os fpu 0 k p = []"
| "run_text b os fpu (Suc n) k p =
     round_text b os fpu k p
     @ (case step_once os fpu p of Inl s \<Rightarrow> [] | Inr p' \<Rightarrow> run_text b os fpu n (k + 1) p')"

lemma new_text_append [simp]: "new_text h (es @ h) = concat (map event_text (rev es))"
  by (simp add: new_text_def)

lemma new_text_append' [simp]: "new_text (h1 # h) (es @ h1 # h) = concat (map event_text (rev es))"
  by (simp add: new_text_def)

lemma handler_history:
  assumes "d \<in> set (instructions os fpu)" "desc_rv64 d p insn pc = Inr (npc, p')"
  shows "\<exists>es. history p' = es @ history p"
  using assms handlers_frame by (auto simp: frame_ok_def evolves_def)

lemma fetch_decode_history:
  "history (fetch_decode d bits p) =
     (if desc_name d = ''illegal'' then PrintIllegal (state_pc (cpu_state p)) # history p else history p)"
  by (simp add: fetch_decode_def log_event_def Let_def)

lemma round_text_release:
  assumes "step_once os fpu p = Inr p'"
  shows "\<exists>es. history p' = es @ history p
    \<and> round_text release_build os fpu k p = concat (map event_text (rev es))"
proof -
  obtain bits d npc p1 where l: "load_insn (mmu p) (state_pc (cpu_state p)) = Inr bits"
    "decode_insn os fpu bits = Some d" "d \<in> set (instructions os fpu)"
    "desc_rv64 d (fetch_decode d bits p) bits (state_pc (cpu_state p)) = Inr (npc, p1)"
    "p' = set_state_pc p1 npc"
    using assms by (rule step_once_InrE)
  obtain es where es: "history p1 = es @ history (fetch_decode d bits p)"
    using handler_history [OF l(3,4)] by blast
  have h: "history p' = history p1" by (simp add: l(5) set_state_pc_def)
  show ?thesis
    using l es h
    by (auto simp: round_text_def release_build_def if_text_def Let_def execute_insn_def fetch_decode_history)
qed

lemma run_text_release:
  assumes "iterate (step_once os fpu) n p = Inr p'"
  shows "\<exists>es. history p' = es @ history p
    \<and> run_text release_build os fpu n k p = concat (map event_text (rev es))"
  using assms
proof (induction n arbitrary: p k)
  case (Suc n)
  then obtain p1 where p1: "step_once os fpu p = Inr p1" "iterate (step_once os fpu) n p1 = Inr p'"
    by (auto split: sum.splits)
  from round_text_release [OF p1(1)] Suc.IH [OF p1(2)] p1(1) show ?case
    by simp (metis append.assoc concat_append map_append rev_append)
qed simp

lemma subseq_infix: "subseq (s @ t) (u1 @ u2 @ u3 @ u4 @ s @ t @ v)"
proof -
  have "subseq (s @ t) ((u1 @ u2 @ u3 @ u4) @ (s @ t) @ v)"
    by (rule list_emb_append2, rule list_emb_prefix) simp
  then show ?thesis by simp
qed

lemma round_text_subseq: "subseq (round_text release_build os fpu k p) (round_text b os fpu k p)"
proof -
  have d: "if_text False u = []" for u by (simp add: if_text_def)
  have l: "subseq (exn_text e) (load_insn_text m pc)" if "load_insn m pc = Inl e" for m pc e
    unfolding load_insn_text_def that sum.case by (intro list_emb_append2) simp
  note tail = subseq_infix [of _ _ _ _ _ _ "[]", simplified]
  show ?thesis
  proof (cases "load_insn (mmu p) (state_pc (cpu_state p))")
    case (Inl e)
    then show ?thesis using l by (auto simp: round_text_def release_build_def d Let_def intro!: list_emb_append2)
  next
    case (Inr bits)
    obtain i where i: "decode_insn os fpu bits = Some i" using decode_not_None by blast
    show ?thesis
    proof (cases "execute_insn i (fetch_decode i bits p)")
      case (Inl s)
      with Inr i show ?thesis by (simp add: round_text_def release_build_def d tail Let_def)
    next
      case (Inr r)
      obtain npc p' where "r = (npc, p')" by (cases r)
      with Inr \<open>load_insn _ _ = Inr bits\<close> i show ?thesis
        by (simp add: round_text_def release_build_def d subseq_infix Let_def)
    qed
  qed
qed

lemma run_text_subseq: "subseq (run_text release_build os fpu n k p) (run_text b os fpu n k p)"
proof (induction n arbitrary: k p)
  case (Suc n)
  then show ?case by (auto intro!: list_emb_append_mono round_text_subseq split: sum.split)
qed simp

lemma run_text_add:
  "run_text b os fpu (n + m) k p = run_text b os fpu n k p
     @ (case iterate (step_once os fpu) n p of Inl s \<Rightarrow> [] | Inr p' \<Rightarrow> run_text b os fpu m (k + n) p')"
proof (induction n arbitrary: k p)
  case (Suc n)
  then show ?case by (cases "step_once os fpu p") (auto split: sum.split)
qed simp

lemma illegal_named:
  "d \<in> set (instructions os fpu) \<Longrightarrow> desc_name d = ''illegal'' \<Longrightarrow> d = illegal_desc"
  by (auto simp: instructions_def registered_def insn_list_def)

lemma round_text_stop:
  assumes "step_once os fpu p = Inl s"
  shows "round_text release_build os fpu k p = stop_text p s"
  using assms
proof (cases rule: step_once_InlE)
  case (fetch e)
  then show ?thesis by (simp add: round_text_def release_build_def if_text_def stop_text_def Let_def)
next
  case (execute bits d)
  have "desc_name d \<noteq> ''illegal''"
    using execute(4) illegal_named [OF execute(3)]
    by (auto simp: illegal_desc_def illegal_instruction_def)
  with execute show ?thesis
    by (simp add: round_text_def release_build_def if_text_def stop_text_def execute_insn_def
        fetch_decode_history Let_def split: stop.split)
qed


lemma demo_illegal:
  "step_once os fpu (demo_cpu [0]) = Inr (set_state_pc (fetch_decode illegal_desc 0 (demo_cpu [0])) 0)"
  using step_illegal [of "demo_cpu [0]" 0 os fpu] demo_holds [of "[0]"] zero_matches_nothing
  by (simp add: demo_cpu_def)


end
