(* ===== verification/Dumps.thy ===== *)
theory Dumps
  imports Debug
begin

unbundle bit_operations_syntax

text \<open>
  What the dumps and listings say: readers for the printed registers, memory, instruction table,
  counters and program headers, and the proofs that they give back what was printed.
\<close>

subsection \<open>Reading the dumps back\<close>

definition read_register_line :: "string \<Rightarrow> (nat \<times> u64) option" where
  "read_register_line l = (case split_on CHR '' '' l of
     [h, v] \<Rightarrow> Option.bind (read_num 10 (butlast (butlast (drop 2 h)))) (\<lambda>i. map_option (Pair i) (read_x v))
   | _ \<Rightarrow> None)"

lemma read_register_line [simp]: "read_register_line (register_line p i) = Some (i, READ_REG p (of_nat i))"
proof -
  have "split_on CHR '' '' (register_line p i)
      = [''R['' @ fmt_nat i @ '']:'', fmt_x (READ_REG p (of_nat i))]"
    using split_on_append [of "CHR '' ''" "''R['' @ fmt_nat i @ '']:''" "fmt_x (READ_REG p (of_nat i))"]
    by (simp add: register_line_def)
  then show ?thesis by (simp add: read_register_line_def butlast_append dec_nat.read_print)
qed

lemma register_line_clean [simp]: "CHR 0x0A \<notin> set (register_line p i)"
  by (simp add: register_line_def)

lemma register_lines: "text_lines (dump_register_file p) = map (register_line p) [0..<32]"
  unfolding dump_register_file_def by (rule text_lines_concat) simp

lemma register_dump_read:
  "map read_register_line (text_lines (dump_register_file p))
     = map (\<lambda>i. Some (i, XPR (cpu_state p) ! i)) [0..<32]"
  unfolding register_lines
  by (simp add: READ_REG_def regfile_get_def unat_of_nat take_bit_nat_eq_self del: upt_Suc)

lemma register_dump_inj:
  assumes "wf_cpu p" "wf_cpu q" "dump_register_file q = dump_register_file p"
  shows "XPR (cpu_state q) = XPR (cpu_state p)"
proof -
  have "map (\<lambda>i. Some (i, XPR (cpu_state q) ! i)) [0..<32] = map (\<lambda>i. Some (i, XPR (cpu_state p) ! i)) [0..<32]"
    using register_dump_read [of p] register_dump_read [of q] assms(3) by simp
  then have "\<forall>i < 32. XPR (cpu_state q) ! i = XPR (cpu_state p) ! i"
    by (simp add: map_eq_conv del: upt_Suc)
  with assms show ?thesis by (intro nth_equalityI) (auto simp: wf_cpu_def wf_regs_def)
qed

definition read_row :: "string \<Rightarrow> (u64 option \<times> u8 option) list" where
  "read_row l = (case split_on CHR '' '' l of
     h # e # vs \<Rightarrow> map (\<lambda>(i, v). (map_option (\<lambda>a. a + of_nat i) (read_x (butlast (drop 4 h))), read_x v))
                    (enumerate 0 vs)
   | _ \<Rightarrow> [])"

definition read_dump :: "string \<Rightarrow> (u64 option \<times> u8 option) list" where
  "read_dump s = concat (map read_row (split_on CHR 0x0A s))"

definition cells :: "u64 \<Rightarrow> u8 list \<Rightarrow> (u64 option \<times> u8 option) list" where
  "cells a bs = map (\<lambda>i. (Some (a + of_nat i), Some (bs ! i))) [0..<length bs]"

lemma cells_Nil [simp]: "cells a [] = []"
  by (simp add: cells_def)

lemma cells_Cons [simp]: "cells a (b # bs) = (Some a, Some b) # cells (a + 1) bs"
  unfolding cells_def
  by (rule nth_equalityI) (auto simp: nth_Cons' of_nat_diff simp del: upt_Suc)

lemma read_dump_Nil [simp]: "read_dump [] = []"
  by (simp add: read_dump_def read_row_def)

lemma read_dump_row: "CHR 0x0A \<notin> set l \<Longrightarrow> read_dump l = read_row l"
  by (simp add: read_dump_def)

lemma read_dump_rows: "CHR 0x0A \<notin> set l \<Longrightarrow> read_dump (l @ nl @ s) = read_row l @ read_dump s"
  by (simp add: read_dump_def nl_def)

lemma split_on_snoc: "c \<notin> set v \<Longrightarrow> split_on c (l @ c # v) = split_on c l @ [v]"
  by (induction l) (auto split: list.split)

text \<open>A row under construction: its address, its bytes so far.\<close>

definition row_to :: "string \<Rightarrow> nat \<Rightarrow> u64 \<Rightarrow> bool" where
  "row_to l j a \<longleftrightarrow> CHR 0x0A \<notin> set l \<and> (\<exists>h e vs. split_on CHR '' '' l = h # e # vs \<and> length vs = j
     \<and> read_x (butlast (drop 4 h)) = Some (a - of_nat j))"

lemma row_to_start: "row_to (''Mem['' @ fmt_x a @ ''] = '' @ fmt_x (b :: u8)) 1 (a + 1)"
  "read_row (''Mem['' @ fmt_x a @ ''] = '' @ fmt_x (b :: u8)) = [(Some a, Some b)]"
proof -
  have "split_on CHR '' '' (''Mem['' @ fmt_x a @ ''] = '' @ fmt_x b)
      = [''Mem['' @ fmt_x a @ '']'', ''='', fmt_x b]"
    using split_on_append [of "CHR '' ''" "''Mem['' @ fmt_x a @ '']''" "''= '' @ fmt_x b"]
      split_on_append [of "CHR '' ''" "''=''" "fmt_x b"] by simp
  then show "row_to (''Mem['' @ fmt_x a @ ''] = '' @ fmt_x b) 1 (a + 1)"
    "read_row (''Mem['' @ fmt_x a @ ''] = '' @ fmt_x b) = [(Some a, Some b)]"
    by (simp_all add: row_to_def read_row_def butlast_append)
qed

lemma row_to_next:
  assumes "row_to l j a"
  shows "row_to (l @ '' '' @ fmt_x (b :: u8)) (Suc j) (a + 1)"
    "read_row (l @ '' '' @ fmt_x b) = read_row l @ [(Some a, Some b)]"
  using assms split_on_snoc [of "CHR '' ''" "fmt_x b" l]
  by (auto simp: row_to_def read_row_def enumerate_append_eq)

lemma dump_loop_cells:
  assumes "\<forall>i < length bs. mem m (a + of_nat i) = Some (bs ! i)"
    and "j = 0 \<and> l = [] \<or> 0 < j \<and> j \<le> 8 \<and> row_to l j a"
  shows "read_dump (l @ dump_loop m (length bs) j a) = read_row l @ cells a bs"
  using assms
proof (induction bs arbitrary: a j l)
  case Nil
  then show ?case
    by (subst dump_loop.simps) (auto simp: read_dump_row read_dump_rows [of l "[]", simplified] read_row_def row_to_def)
next
  case (Cons b bs)
  have m: "mem m a = Some b" "\<forall>i < length bs. mem m (a + 1 + of_nat i) = Some (bs ! i)"
    using Cons.prems(1) by (auto simp: add.assoc dest: spec [of _ 0] spec [of _ "Suc i" for i])
  let ?s = "''Mem['' @ fmt_x a @ ''] = '' @ fmt_x b"
  have start: "read_dump (dump_loop m (length (b # bs)) 0 a) = cells a (b # bs)"
    using Cons.IH [OF m(2), of 1 ?s] row_to_start [of a b] m(1)
    by (subst dump_loop.simps) simp
  show ?case
  proof (cases "j = 0")
    case True
    with Cons.prems(2) start show ?thesis by (simp add: read_row_def)
  next
    case False
    with Cons.prems(2) have row: "0 < j" "j \<le> 8" "row_to l j a" by auto
    show ?thesis
    proof (cases "j = 8")
      case True
      with row start show ?thesis
        by (subst dump_loop.simps) (simp add: read_dump_rows row_to_def)
    next
      case False
      with row have "read_dump ((l @ '' '' @ fmt_x b) @ dump_loop m (length bs) (Suc j) (a + 1))
          = read_row (l @ '' '' @ fmt_x b) @ cells (a + 1) bs"
        using row_to_next(1) [OF row(3), of b] by (intro Cons.IH m(2)) auto
      with row False show ?thesis
        using row_to_next(2) [OF row(3), of b] m(1) by (subst dump_loop.simps) simp
    qed
  qed
qed

lemma dump_loop_stops:
  assumes "\<forall>i < k. mem m (a + of_nat i) \<noteq> None" "mem m (a + of_nat k) = None" "k < n" "j \<le> 8"
  shows "dump_loop m n j a = dump_loop m k j a @ ''Mem['' @ fmt_x (a + of_nat k) @ ''] isn't assigned!'' @ nl"
  using assms
proof (induction k arbitrary: n a j)
  case 0
  then show ?case by (subst (1 2) dump_loop.simps) (auto simp: dump_loop.simps)
next
  case (Suc k)
  then obtain b where b: "mem m a = Some b" by (auto dest: spec [of _ 0])
  have "dump_loop m (n - 1) (Suc i) (a + 1) = dump_loop m k (Suc i) (a + 1)
      @ ''Mem['' @ fmt_x (a + 1 + of_nat k) @ ''] isn't assigned!'' @ nl" if "i < 8" for i
    using Suc.prems that by (intro Suc.IH) (auto simp: add.assoc dest: spec [of _ "Suc i" for i])
  then have short: "dump_loop m n i a = dump_loop m (Suc k) i a
      @ ''Mem['' @ fmt_x (a + of_nat (Suc k)) @ ''] isn't assigned!'' @ nl" if "i < 8" for i
    using that b Suc.prems(3) by (subst (1 2) dump_loop.simps) (simp add: add.assoc)
  show ?case
  proof (cases "j = 8")
    case True
    then show ?thesis using short [of 0] Suc.prems(3) by (subst (1 2) dump_loop.simps) simp
  next
    case False
    with Suc.prems(4) short show ?thesis by simp
  qed
qed

lemma memory_dump_read:
  assumes "\<forall>i < length bs. mem m (a + of_nat i) = Some (bs ! i)"
  shows "read_dump (mmu_dump m a (length bs)) = cells a bs"
  using dump_loop_cells [OF assms, of 0 "[]"] by (simp add: mmu_dump_def read_row_def)

lemma memory_dump_stops:
  assumes "\<forall>i < length bs. mem m (a + of_nat i) = Some (bs ! i)"
    and "mem m (a + of_nat (length bs)) = None" "length bs < n"
  shows "mmu_dump m a n = mmu_dump m a (length bs)
    @ ''Mem['' @ fmt_x (a + of_nat (length bs)) @ ''] isn't assigned!'' @ nl"
  using dump_loop_stops [of "length bs" m a n 0] assms by (auto simp: mmu_dump_def)

text \<open>
  C37: the dumps of the debug builds can be read back. The 32 lines of the registers give every
  register with its number, so that two machines with the same dump have the same registers;
  the rows of mapped memory give every address with its byte, and at the first address that is
  not mapped the dump stops with a message after the bytes before it.
\<close>

theorem dumps_readable:
  assumes "wf_cpu p" and "\<forall>i < length bs. mem (mmu p) (a + of_nat i) = Some (bs ! i)"
  shows "map read_register_line (text_lines (dump_register_file p))
      = map (\<lambda>i. Some (i, XPR (cpu_state p) ! i)) [0..<32]
    \<and> (wf_cpu q \<and> dump_register_file q = dump_register_file p \<longrightarrow> XPR (cpu_state q) = XPR (cpu_state p))
    \<and> read_dump (mmu_dump (mmu p) a (length bs)) = cells a bs
    \<and> (mem (mmu p) (a + of_nat (length bs)) = None \<and> length bs < n \<longrightarrow>
         mmu_dump (mmu p) a n = mmu_dump (mmu p) a (length bs)
           @ ''Mem['' @ fmt_x (a + of_nat (length bs)) @ ''] isn't assigned!'' @ nl)"
  using register_dump_read register_dump_inj [OF assms(1)] memory_dump_read [OF assms(2)]
    memory_dump_stops [OF assms(2)] by blast

theorem dumps_readable_witness:
  "map read_register_line (text_lines (dump_register_file (demo_cpu [0x00500093]))) ! 3 = Some (3, 0)
   \<and> XPR (cpu_state (demo_cpu [0])) = XPR (cpu_state (demo_cpu [0x00500093]))
   \<and> read_dump (mmu_dump (mmu (demo_cpu [0x00500093])) 0x1000 4)
     = [(Some 0x1000, Some 0x93), (Some 0x1001, Some 0), (Some 0x1002, Some 0x50), (Some 0x1003, Some 0)]
   \<and> mmu_dump (mmu (demo_cpu [0x00500093])) 0x1000 100
     = mmu_dump (mmu (demo_cpu [0x00500093])) 0x1000 4 @ ''Mem['' @ fmt_x (0x1004 :: u64) @ ''] isn't assigned!'' @ nl"
proof -
  let ?p = "demo_cpu [0x00500093]" and ?bs = "[0x93, 0, 0x50, 0] :: u8 list"
  have w: "wf_cpu (demo_cpu ws)" for ws by (simp add: wf_cpu_def wf_regs_def demo_cpu_def)
  have m: "\<forall>i < length ?bs. mem (mmu ?p) (0x1000 + of_nat i) = Some (?bs ! i)"
    by (simp add: All_less_Suc demo_defs)
  have e: "mem (mmu ?p) (0x1000 + of_nat (length ?bs)) = None" by (simp add: demo_defs)
  have l: "length ?bs = 4" by simp
  have d: "dump_register_file (demo_cpu [0]) = dump_register_file ?p"
    by (simp add: dump_register_file_def register_line_def READ_REG_def demo_cpu_def)
  have x: "XPR (cpu_state ?p) ! 3 = 0" by (simp add: demo_cpu_def)
  show ?thesis
    using dumps_readable [OF w m, of "demo_cpu [0]" 100] w d e x unfolding l by simp
qed

subsection \<open>The instruction table and the counters\<close>

definition read_pattern :: "string \<Rightarrow> pattern option" where
  "read_pattern l = (case split_on CHR '' '' l of
     [h, w1, w2] \<Rightarrow>
       Option.bind (read_x w1) (\<lambda>k. map_option (\<lambda>c. (ucast (c :: u32), ucast (k :: u32))) (read_x w2))
   | _ \<Rightarrow> None)"

fun read_entries :: "string list \<Rightarrow> (string \<times> pattern option) list" where
  "read_entries (a # b # c # ls) =
     (if a = ''----------------'' then (drop 13 b, read_pattern c) # read_entries ls else [])"
| "read_entries ls = []"

definition read_table :: "string \<Rightarrow> (string \<times> pattern option) list" where
  "read_table s = read_entries (drop 2 (text_lines s))"

definition read_count :: "string \<Rightarrow> count_item option" where
  "read_count l = (case split_on CHR '' '' l of
     [name, c] \<Rightarrow> map_option (Item name) (read_d c)
   | _ \<Rightarrow> None)"

definition plain_name :: "string \<Rightarrow> bool" where
  "plain_name s \<longleftrightarrow> CHR '' '' \<notin> set s \<and> CHR 0x0A \<notin> set s"

lemma table_plain: "d \<in> set (instructions os fpu) \<Longrightarrow> plain_name (desc_name d)"
  unfolding instructions_def registered_def insn_list_def illegal_desc_def
  by (auto simp: plain_name_def)

lemma narrow_patterns:
  "d \<in> set (instructions os fpu) \<Longrightarrow>
   (ucast (ucast (fst (desc_pat d)) :: u32) = fst (desc_pat d)) \<and> (ucast (ucast (snd (desc_pat d)) :: u32) = snd (desc_pat d))"
proof -
  assume "d \<in> set (instructions os fpu)"
  then have "desc_pat d \<in> set patterns \<or> desc_pat d = (0, 0)"
    unfolding registered_patterns [of os fpu, symmetric] by (auto simp: instructions_def illegal_desc_def)
  then show ?thesis by (auto simp: patterns_def pat_defs)
qed

lemma entry_lines:
  assumes "plain_name (desc_name d)"
  shows "text_lines (desc_text d @ s) = [''----------------'', ''INSTRUCTION: '' @ desc_name d,
     ''MASK/MATCH: '' @ fmt_x (ucast (snd (desc_pat d)) :: u32) @ '' ''
       @ fmt_x (ucast (fst (desc_pat d)) :: u32)] @ text_lines s"
proof -
  have l: "CHR 0x0A \<notin> set l \<Longrightarrow> text_lines ((l @ nl) @ s) = l # text_lines s" for l s
    by simp
  have "desc_text d @ s = (''----------------'' @ nl) @ ((''INSTRUCTION: '' @ desc_name d) @ nl)
      @ ((''MASK/MATCH: '' @ fmt_x (ucast (snd (desc_pat d)) :: u32) @ '' ''
       @ fmt_x (ucast (fst (desc_pat d)) :: u32)) @ nl) @ s"
    by (simp add: desc_text_def)
  then show ?thesis
    using assms by (simp only: plain_name_def) ((subst l, simp)+, simp)
qed

lemma read_pattern_line: "read_pattern (''MASK/MATCH: '' @ fmt_x (k :: u32) @ '' '' @ fmt_x (c :: u32))
   = Some (ucast c, ucast k)"
  using split_on_append [of "CHR '' ''" "''MASK/MATCH:''" "fmt_x k @ '' '' @ fmt_x c"]
    split_on_append [of "CHR '' ''" "fmt_x k" "fmt_x c"]
  by (simp add: read_pattern_def)

lemma read_entries_listing:
  assumes "\<forall>d \<in> set ds. plain_name (desc_name d)
    \<and> ucast (ucast (fst (desc_pat d)) :: u32) = fst (desc_pat d)
    \<and> ucast (ucast (snd (desc_pat d)) :: u32) = snd (desc_pat d)"
  shows "read_entries (text_lines (concat (map desc_text ds) @ ''END CHECK INSTRUCTIONS'' @ nl @ s))
    = map (\<lambda>d. (desc_name d, Some (desc_pat d))) ds"
  using assms
proof (induction ds)
  case Nil
  have "text_lines (''END CHECK INSTRUCTIONS'' @ nl @ s) = ''END CHECK INSTRUCTIONS'' # text_lines s"
    by (rule text_lines_line) simp
  then show ?case
    by (cases "text_lines s" rule: read_entries.cases) simp_all
next
  case (Cons d ds)
  then show ?case
    using read_pattern_line by (simp add: entry_lines)
qed

lemma count_lines:
  assumes "\<forall>it \<in> set items. plain_name (item_name it)"
  shows "map read_count (text_lines (concat (map count_text items))) = map Some items"
proof -
  let ?l = "\<lambda>it. item_name it @ '' '' @ fmt_d (item_count it)"
  have "count_text = (\<lambda>it. ?l it @ nl)" by (simp add: count_text_def fun_eq_iff)
  then have "text_lines (concat (map count_text items)) = map ?l items"
    using assms text_lines_concat [of items ?l] by (simp add: plain_name_def)
  moreover have "read_count (?l it) = Some it" if "plain_name (item_name it)" for it
    using that split_on_append [of "CHR '' ''" "item_name it" "fmt_d (item_count it)"]
    by (simp add: read_count_def plain_name_def)
  ultimately show ?thesis using assms by simp
qed

text \<open>
  C38: the listing of the instruction table gives back the name, mask and match of every entry,
  and the counters that the exit call prints are read back from its lines.
\<close>

theorem listings_readable:
  "read_table (check_instructions (instructions os fpu))
     = map (\<lambda>d. (desc_name d, Some (desc_pat d))) (instructions os fpu)
   \<and> (fst ` set counts \<subseteq> desc_name ` set (instructions os fpu) \<longrightarrow>
        map read_count (text_lines (event_text (PrintCounts (print_count counts))))
          = map Some (print_count counts))"
proof
  let ?t = "concat (map desc_text (instructions os fpu)) @ ''END CHECK INSTRUCTIONS'' @ nl @ nl @ nl"
  have "text_lines (check_instructions (instructions os fpu))
      = ''START CHECK INSTRUCTIONS'' # (''Instruction size: '' @ fmt_nat (length (instructions os fpu))) # text_lines ?t"
    using text_lines_line [of "''START CHECK INSTRUCTIONS''"]
      text_lines_line [of "''Instruction size: '' @ fmt_nat (length (instructions os fpu))" ?t]
    by (simp add: check_instructions_def)
  then have "read_table (check_instructions (instructions os fpu)) = read_entries (text_lines ?t)"
    by (simp add: read_table_def)
  also have "\<dots> = map (\<lambda>d. (desc_name d, Some (desc_pat d))) (instructions os fpu)"
    using table_plain narrow_patterns by (intro read_entries_listing) blast
  finally show "read_table (check_instructions (instructions os fpu))
     = map (\<lambda>d. (desc_name d, Some (desc_pat d))) (instructions os fpu)" .
  show "fst ` set counts \<subseteq> desc_name ` set (instructions os fpu) \<longrightarrow>
      map read_count (text_lines (event_text (PrintCounts (print_count counts)))) = map Some (print_count counts)"
  proof
    assume "fst ` set counts \<subseteq> desc_name ` set (instructions os fpu)"
    then have "\<forall>it \<in> set (print_count counts). plain_name (item_name it)"
      using table_plain by (force simp: print_count_def)
    then show "map read_count (text_lines (event_text (PrintCounts (print_count counts)))) = map Some (print_count counts)"
      by (simp add: count_lines)
  qed
qed

theorem listings_readable_witness:
  "map read_count (text_lines (event_text (PrintCounts (print_count [(''add'', 2), (''illegal'', 1)]))))
     = map Some (print_count [(''add'', 2), (''illegal'', 1)])"
proof -
  have "{''add'', ''illegal''} \<subseteq> desc_name ` set (instructions demo_os demo_fpu)"
    by (simp add: instructions_def registered_def insn_list_def illegal_desc_def)
  then show ?thesis
    using listings_readable [of demo_os demo_fpu "[(''add'', 2), (''illegal'', 1)]"] by simp
qed

subsection \<open>The program headers\<close>

definition blank_words :: "string \<Rightarrow> string list" where
  "blank_words s = filter (\<lambda>w. w \<noteq> []) (split_on CHR '' '' s)"

lemma split_on_sep: "split_on c (s @ c # t) = split_on c s @ split_on c t"
  by (induction s) (auto split: list.split)

lemma words_sep: "blank_words (s @ CHR '' '' # t) = blank_words s @ blank_words t"
  by (simp add: blank_words_def split_on_sep)

lemma words_clean: "CHR '' '' \<notin> set s \<Longrightarrow> s \<noteq> [] \<Longrightarrow> blank_words s = [s]"
  by (simp add: blank_words_def)

lemma words_blank [simp]: "blank_words (CHR '' '' # t) = blank_words t" "blank_words [] = []"
  using words_sep [of "[]" t] by (simp_all add: blank_words_def)

lemma words_blanks: "blank_words (replicate n CHR '' '') = []"
  by (induction n) simp_all

lemma words_pad: "blank_words (pad_right n s) = blank_words s" "blank_words (pad_left n s) = blank_words s"
proof -
  show "blank_words (pad_right n s) = blank_words s"
    by (cases "n - length s") (simp_all add: pad_right_def words_sep words_blanks)
  have "blank_words (replicate k CHR '' '' @ s) = blank_words s" for k
    by (induction k) simp_all
  then show "blank_words (pad_left n s) = blank_words s" by (simp add: pad_left_def)
qed

lemma words_columns: "blank_words (columns cs) = concat (map blank_words cs)"
  by (induction cs rule: columns.induct) (simp_all add: words_sep)

definition read_prog_line :: "string \<Rightarrow> elf64_phdr option" where
  "read_prog_line l = (case blank_words l of
     [t, ofs, va, pa, fs, ms, g, al] \<Rightarrow>
       Option.bind (read_x t) (\<lambda>t. Option.bind (read_x (drop 2 ofs)) (\<lambda>ofs.
       Option.bind (read_x (drop 2 va)) (\<lambda>va. Option.bind (read_x (drop 2 pa)) (\<lambda>pa.
       Option.bind (read_x (drop 2 fs)) (\<lambda>fs. Option.bind (read_x (drop 2 ms)) (\<lambda>ms.
       Option.bind (read_x g) (\<lambda>g. map_option (\<lambda>al.
         \<lparr>p_type = t, p_flags = g, p_offset = ofs, p_vaddr = va, p_paddr = pa, p_filesz = fs,
          p_memsz = ms, p_align = al\<rparr>) (read_x (drop 2 al)))))))))
   | _ \<Rightarrow> None)"

lemma fmt_x_nonempty [simp]: "fmt_x w \<noteq> []"
  by (simp add: fmt_x_def)

lemma words_hex: "blank_words (fmt_x w) = [fmt_x w]"
  "blank_words (CHR ''0'' # CHR ''x'' # pad_zero n (fmt_x w)) = [''0x'' @ pad_zero n (fmt_x w)]"
  "blank_words (CHR ''0'' # CHR ''x'' # fmt_x w) = [''0x'' @ fmt_x w]"
  using words_clean [of "fmt_x w"] words_clean [of "''0x'' @ pad_zero n (fmt_x w)"]
    words_clean [of "''0x'' @ fmt_x w"] by simp_all

lemma read_prog_line: "read_prog_line (prog_line h) = Some h"
  by (simp add: read_prog_line_def prog_line_def words_columns words_pad words_hex del: columns.simps)

lemma pad_clean [simp]:
  "c \<noteq> CHR '' '' \<Longrightarrow> c \<in> set (pad_right n s) \<longleftrightarrow> c \<in> set s"
  "c \<noteq> CHR '' '' \<Longrightarrow> c \<in> set (pad_left n s) \<longleftrightarrow> c \<in> set s"
  by (auto simp: pad_right_def pad_left_def)

lemma prog_line_clean: "CHR 0x0A \<notin> set (prog_line h)"
  by (simp add: prog_line_def)

lemma those_Some: "those xs = Some ys \<longleftrightarrow> xs = map Some ys"
  by (induction xs arbitrary: ys) (auto split: option.splits simp: map_eq_Cons_conv)

lemma those_defined: "(\<forall>x \<in> set xs. x \<noteq> None) \<longleftrightarrow> those xs \<noteq> None"
  by (induction xs) (auto split: option.splits)

lemma table_text_defined:
  "table_text n xs line \<noteq> None \<longleftrightarrow> n \<le> length xs \<and> (\<forall>i < n. line i (xs ! i) \<noteq> None)"
proof -
  have "table_text n xs line \<noteq> None
      \<longleftrightarrow> (\<forall>x \<in> set (map (\<lambda>i. Option.bind (at xs i) (line i)) [0..<n]). x \<noteq> None)"
    unfolding those_defined by (simp add: table_text_def)
  also have "\<dots> \<longleftrightarrow> (\<forall>i < n. i < length xs \<and> line i (xs ! i) \<noteq> None)"
    by (auto simp: at_def split: if_splits)
  finally have "table_text n xs line \<noteq> None \<longleftrightarrow> (\<forall>i < n. i < length xs \<and> line i (xs ! i) \<noteq> None)" .
  then show ?thesis by (metis leI not_less_iff_gr_or_eq order_less_le_trans)
qed

lemma prog_table: "n = length hs \<Longrightarrow>
  table_text n hs (\<lambda>i h. Some (prog_line h)) = Some (concat (map (\<lambda>h. prog_line h @ nl) hs))"
proof -
  assume "n = length hs"
  then have "map (\<lambda>i. Option.bind (at hs i) (\<lambda>h. Some (prog_line h))) [0..<n] = map Some (map prog_line hs)"
    by (intro nth_equalityI) (simp_all add: at_def)
  then have "those (map (\<lambda>i. Option.bind (at hs i) (\<lambda>h. Some (prog_line h))) [0..<n]) = Some (map prog_line hs)"
    by (simp only: those_Some)
  then show ?thesis by (simp add: table_text_def o_def)
qed

text \<open>
  C39: after the loader has succeeded, the listing of the ELF file is defined exactly when every
  section and symbol name ends inside its table and all symbols were read; and the program
  headers are read back from its lines.
\<close>

theorem elf_listing:
  assumes "mmu_new past_first past_second (Some bs) = Some (Inr (elf, m))"
  shows "(Debug_elf elf \<noteq> None \<longleftrightarrow>
      (\<forall>i < unat (e_shnum (elf_header elf)). c_str (drop (unat (sh_name (sec_hdrs elf ! i))) (sh_str_tbl elf)) \<noteq> None)
      \<and> symbol_count (sec_hdrs elf ! index_symtab elf) \<le> length (symbol_table elf)
      \<and> (\<forall>i < symbol_count (sec_hdrs elf ! index_symtab elf).
           c_str (drop (unat (st_name (symbol_table elf ! i))) (str_tbl elf)) \<noteq> None))
    \<and> (\<forall>t. Debug_elf elf = Some t \<and> prog_hdrs elf \<noteq> [] \<longrightarrow>
         (\<exists>pre post ls. t = pre @ prog_title @ concat (map (\<lambda>l. l @ nl) ls) @ post
            \<and> map read_prog_line ls = map Some (prog_hdrs elf)))"
proof -
  obtain M F where "read_elf \<lparr>content = bs, pos = 0\<rparr> = Some (Inr (elf, M, F))"
    using assms by (auto simp: mmu_new_def elim!: map_sum_InrE)
  note r = read_elf_phnum [OF this] read_elf_sections [OF this]
  let ?p = "map (\<lambda>h. prog_line h @ nl) (prog_hdrs elf)"
  have "w > 0 \<longleftrightarrow> 0 < unat w" for w :: u16 by (simp add: word_less_nat_alt)
  with r(1) have z: "e_phnum (elf_header elf) > 0 \<longleftrightarrow> prog_hdrs elf \<noteq> []"
    "e_shnum (elf_header elf) > 0 \<longleftrightarrow> 0 < unat (e_shnum (elf_header elf))"
    by auto
  have p: "prog_text elf = Some (if prog_hdrs elf = [] then ''No prog_header found!!!'' @ nl
      else (nl @ nl @ ''Content of Program header:'' @ nl) @ prog_title @ concat ?p)"
    using prog_table [OF r(1)] by (simp add: prog_text_def z)
  have s: "sec_text elf \<noteq> None \<longleftrightarrow> (\<forall>i < unat (e_shnum (elf_header elf)).
      c_str (drop (unat (sh_name (sec_hdrs elf ! i))) (sh_str_tbl elf)) \<noteq> None)"
    using r(2) table_text_defined [of "unat (e_shnum (elf_header elf))" "sec_hdrs elf" "sec_line (sh_str_tbl elf)"]
    by (auto simp: sec_text_def z sec_line_def)
  have y: "sym_text elf \<noteq> None \<longleftrightarrow>
      symbol_count (sec_hdrs elf ! index_symtab elf) \<le> length (symbol_table elf)
      \<and> (\<forall>i < symbol_count (sec_hdrs elf ! index_symtab elf).
           c_str (drop (unat (st_name (symbol_table elf ! i))) (str_tbl elf)) \<noteq> None)"
    using r(2) table_text_defined [of "symbol_count (sec_hdrs elf ! index_symtab elf)" "symbol_table elf" "sym_line (str_tbl elf)"]
    by (auto simp: sym_text_def at_def sym_line_def)
  have "Debug_elf elf \<noteq> None \<longleftrightarrow> sec_text elf \<noteq> None \<and> sym_text elf \<noteq> None"
    using p by (cases "sec_text elf"; cases "sym_text elf") (simp_all add: Debug_elf_def)
  moreover have "\<exists>pre post ls. t = pre @ prog_title @ concat (map (\<lambda>l. l @ nl) ls) @ post
      \<and> map read_prog_line ls = map Some (prog_hdrs elf)"
    if t: "Debug_elf elf = Some t" and ne: "prog_hdrs elf \<noteq> []" for t
  proof -
    obtain s' y' where "t = elf_header_text (elf_header elf)
        @ ((nl @ nl @ ''Content of Program header:'' @ nl) @ prog_title @ concat ?p) @ s' @ y'"
      using t p ne by (auto simp: Debug_elf_def bind_eq_Some_conv)
    then have "t = (elf_header_text (elf_header elf) @ nl @ nl @ ''Content of Program header:'' @ nl)
        @ prog_title @ concat (map (\<lambda>l. l @ nl) (map prog_line (prog_hdrs elf))) @ s' @ y'"
      by (simp add: o_def)
    moreover have "map read_prog_line (map prog_line (prog_hdrs elf)) = map Some (prog_hdrs elf)"
      by (simp add: read_prog_line)
    ultimately show ?thesis by blast
  qed
  ultimately show ?thesis using s y by blast
qed

theorem elf_listing_witness:
  "\<exists>elf m t. mmu_new (\<lambda>_. 0) 0 (Some demo_file) = Some (Inr (elf, m)) \<and> Debug_elf elf = Some t"
proof -
  obtain elf m where m: "mmu_new (\<lambda>_. 0) 0 (Some demo_file) = Some (Inr (elf, m))"
    and e: "sec_hdrs elf = demo_secs" "elf_header elf = demo_ehdr" "sh_str_tbl elf = demo_names"
      "index_symtab elf = 0"
    using demo_mmu_new by blast
  have "symbol_count (demo_secs ! 0) = 0" by (simp add: symbol_count_def demo_secs_def demo_shdr_def)
  moreover have "c_str (drop (unat (sh_name (demo_secs ! i))) demo_names) \<noteq> None" if "i < 3" for i
  proof -
    have "i = 0 \<or> i = 1 \<or> i = 2" using that by auto
    then show ?thesis by (auto simp: demo_secs_def demo_shdr_def demo_names_def c_string_def)
  qed
  moreover have "unat (e_shnum demo_ehdr) = 3" by (simp add: demo_ehdr_def)
  ultimately have "Debug_elf elf \<noteq> None" using elf_listing [OF m] by (simp add: e)
  with m show ?thesis by blast
qed

end
