(* ===== verification/Spec.thy ===== *)
theory Spec
  imports Isa
begin

unbundle bit_operations_syntax

text \<open>
  An abstract machine for the 64-bit integer instructions, written from the instruction set
  and not from the simulator: values are computed over the integers and then reduced to the
  width of a register, registers are a function of their number, memory is a function of the
  address. The theory \<^verbatim>\<open>Refinement\<close> shows that the simulator implements it.
\<close>

subsection \<open>Instructions\<close>

type_synonym reg5 = "5 word"

datatype rop = ADD | SUB | SLL | SLT | SLTU | XOR_op | SRL | SRA | OR_op | AND_op
  | MUL | MULH | MULHSU | MULHU | DIV | DIVU | REM | REMU
  | ADDW | SUBW | SLLW | SRLW | SRAW | MULW | DIVW | DIVUW | REMW | REMUW

datatype iop = ADDI | SLTI | SLTIU | XORI | ORI | ANDI | ADDIW

datatype shop = SLLI | SRLI | SRAI

datatype shwop = SLLIW | SRLIW | SRAIW

datatype bop = BEQ | BNE | BLT | BGE | BLTU | BGEU

datatype lop = LB | LH | LW | LD | LBU | LHU | LWU

datatype sop = SB | SH | SW | SD

datatype insn =
    RType rop reg5 reg5 reg5
  | IType iop reg5 reg5 "12 word"
  | ShiftI shop reg5 reg5 "6 word"
  | ShiftIW shwop reg5 reg5 "5 word"
  | Load lop reg5 reg5 "12 word"
  | Store sop reg5 reg5 "12 word"
  | Branch bop reg5 reg5 "13 word"
  | Lui reg5 "20 word"
  | Auipc reg5 "20 word"
  | Jal reg5 "21 word"
  | Jalr reg5 reg5 "12 word"

subsection \<open>Encoding\<close>

fun rop_code :: "rop \<Rightarrow> 7 word \<times> 3 word \<times> 7 word" where
  "rop_code ADD = (0, 0, 0x33)" | "rop_code SUB = (0x20, 0, 0x33)"
| "rop_code SLL = (0, 1, 0x33)" | "rop_code SLT = (0, 2, 0x33)" | "rop_code SLTU = (0, 3, 0x33)"
| "rop_code XOR_op = (0, 4, 0x33)" | "rop_code SRL = (0, 5, 0x33)"
| "rop_code SRA = (0x20, 5, 0x33)" | "rop_code OR_op = (0, 6, 0x33)" | "rop_code AND_op = (0, 7, 0x33)"
| "rop_code MUL = (1, 0, 0x33)" | "rop_code MULH = (1, 1, 0x33)" | "rop_code MULHSU = (1, 2, 0x33)"
| "rop_code MULHU = (1, 3, 0x33)" | "rop_code DIV = (1, 4, 0x33)" | "rop_code DIVU = (1, 5, 0x33)"
| "rop_code REM = (1, 6, 0x33)" | "rop_code REMU = (1, 7, 0x33)"
| "rop_code ADDW = (0, 0, 0x3b)" | "rop_code SUBW = (0x20, 0, 0x3b)" | "rop_code SLLW = (0, 1, 0x3b)"
| "rop_code SRLW = (0, 5, 0x3b)" | "rop_code SRAW = (0x20, 5, 0x3b)" | "rop_code MULW = (1, 0, 0x3b)"
| "rop_code DIVW = (1, 4, 0x3b)" | "rop_code DIVUW = (1, 5, 0x3b)" | "rop_code REMW = (1, 6, 0x3b)"
| "rop_code REMUW = (1, 7, 0x3b)"

fun iop_code :: "iop \<Rightarrow> 3 word \<times> 7 word" where
  "iop_code ADDI = (0, 0x13)" | "iop_code SLTI = (2, 0x13)" | "iop_code SLTIU = (3, 0x13)"
| "iop_code XORI = (4, 0x13)" | "iop_code ORI = (6, 0x13)" | "iop_code ANDI = (7, 0x13)"
| "iop_code ADDIW = (0, 0x1b)"

fun shop_code :: "shop \<Rightarrow> 6 word \<times> 3 word" where
  "shop_code SLLI = (0, 1)" | "shop_code SRLI = (0, 5)" | "shop_code SRAI = (0x10, 5)"

fun shwop_code :: "shwop \<Rightarrow> 7 word \<times> 3 word" where
  "shwop_code SLLIW = (0, 1)" | "shwop_code SRLIW = (0, 5)" | "shwop_code SRAIW = (0x20, 5)"

fun lop_code :: "lop \<Rightarrow> 3 word" where
  "lop_code LB = 0" | "lop_code LH = 1" | "lop_code LW = 2" | "lop_code LD = 3"
| "lop_code LBU = 4" | "lop_code LHU = 5" | "lop_code LWU = 6"

fun sop_code :: "sop \<Rightarrow> 3 word" where
  "sop_code SB = 0" | "sop_code SH = 1" | "sop_code SW = 2" | "sop_code SD = 3"

fun bop_code :: "bop \<Rightarrow> 3 word" where
  "bop_code BEQ = 0" | "bop_code BNE = 1" | "bop_code BLT = 4" | "bop_code BGE = 5"
| "bop_code BLTU = 6" | "bop_code BGEU = 7"

fun encode :: "insn \<Rightarrow> u32" where
  "encode (RType x rd rs1 rs2) =
     (case rop_code x of (f7, f3, opc) \<Rightarrow> enc_R f7 rs2 rs1 f3 rd opc)"
| "encode (IType x rd rs1 imm) = (case iop_code x of (f3, opc) \<Rightarrow> enc_I imm rs1 f3 rd opc)"
| "encode (ShiftI x rd rs1 sh) =
     (case shop_code x of (f6, f3) \<Rightarrow> enc_I (word_cat f6 sh) rs1 f3 rd 0x13)"
| "encode (ShiftIW x rd rs1 sh) = (case shwop_code x of (f7, f3) \<Rightarrow> enc_R f7 sh rs1 f3 rd 0x1b)"
| "encode (Load x rd rs1 imm) = enc_I imm rs1 (lop_code x) rd 0x03"
| "encode (Store x rs1 rs2 imm) = enc_S imm rs2 rs1 (sop_code x) 0x23"
| "encode (Branch x rs1 rs2 imm) = enc_B imm rs2 rs1 (bop_code x) 0x63"
| "encode (Lui rd imm) = enc_U imm rd 0x37"
| "encode (Auipc rd imm) = enc_U imm rd 0x17"
| "encode (Jal rd imm) = enc_J imm rd 0x6f"
| "encode (Jalr rd rs1 imm) = enc_I imm rs1 0 rd 0x67"

subsection \<open>Results\<close>

text \<open>
  \<open>sw\<close> and \<open>uw\<close> read the lower half of a register as a signed and as an unsigned number;
  \<open>w_result\<close> is the register value of a 32-bit result, sign-extended.
\<close>

definition sw :: "u64 \<Rightarrow> int" where
  "sw a = signed_take_bit 31 (uint a)"

definition uw :: "u64 \<Rightarrow> int" where
  "uw a = uint a mod 2 ^ 32"

definition w_result :: "int \<Rightarrow> u64" where
  "w_result x = word_of_int (signed_take_bit 31 x)"

fun rop_sem :: "rop \<Rightarrow> u64 \<Rightarrow> u64 \<Rightarrow> u64" where
  "rop_sem ADD a b = word_of_int (sint a + sint b)"
| "rop_sem SUB a b = word_of_int (sint a - sint b)"
| "rop_sem SLL a b = word_of_int (uint a * 2 ^ (unat b mod 64))"
| "rop_sem SLT a b = of_bool (sint a < sint b)"
| "rop_sem SLTU a b = of_bool (uint a < uint b)"
| "rop_sem XOR_op a b = a XOR b"
| "rop_sem SRL a b = word_of_int (uint a div 2 ^ (unat b mod 64))"
| "rop_sem SRA a b = word_of_int (sint a div 2 ^ (unat b mod 64))"
| "rop_sem OR_op a b = a OR b"
| "rop_sem AND_op a b = a AND b"
| "rop_sem MUL a b = word_of_int (sint a * sint b)"
| "rop_sem MULH a b = word_of_int (sint a * sint b div 2 ^ 64)"
| "rop_sem MULHSU a b = word_of_int (sint a * uint b div 2 ^ 64)"
| "rop_sem MULHU a b = word_of_int (uint a * uint b div 2 ^ 64)"
| "rop_sem DIV a b = (if b = 0 then - 1 else word_of_int (sint a sdiv sint b))"
| "rop_sem DIVU a b = (if b = 0 then - 1 else word_of_int (uint a div uint b))"
| "rop_sem REM a b = (if b = 0 then a else word_of_int (sint a smod sint b))"
| "rop_sem REMU a b = (if b = 0 then a else word_of_int (uint a mod uint b))"
| "rop_sem ADDW a b = w_result (sint a + sint b)"
| "rop_sem SUBW a b = w_result (sint a - sint b)"
| "rop_sem SLLW a b = w_result (uint a * 2 ^ (unat b mod 32))"
| "rop_sem SRLW a b = w_result (uw a div 2 ^ (unat b mod 32))"
| "rop_sem SRAW a b = w_result (sw a div 2 ^ (unat b mod 32))"
| "rop_sem MULW a b = w_result (sint a * sint b)"
| "rop_sem DIVW a b = (if sw b = 0 then - 1 else w_result (sw a sdiv sw b))"
| "rop_sem DIVUW a b = (if uw b = 0 then - 1 else w_result (uw a div uw b))"
| "rop_sem REMW a b = (if sw b = 0 then w_result (sw a) else w_result (sw a smod sw b))"
| "rop_sem REMUW a b = (if uw b = 0 then w_result (uw a) else w_result (uw a mod uw b))"

text \<open>The operand \<open>i\<close> is the immediate, sign-extended to the width of a register.\<close>

fun iop_sem :: "iop \<Rightarrow> u64 \<Rightarrow> u64 \<Rightarrow> u64" where
  "iop_sem ADDI a i = word_of_int (sint a + sint i)"
| "iop_sem SLTI a i = of_bool (sint a < sint i)"
| "iop_sem SLTIU a i = of_bool (uint a < uint i)"
| "iop_sem XORI a i = a XOR i"
| "iop_sem ORI a i = a OR i"
| "iop_sem ANDI a i = a AND i"
| "iop_sem ADDIW a i = w_result (sint a + sint i)"

fun shop_sem :: "shop \<Rightarrow> u64 \<Rightarrow> nat \<Rightarrow> u64" where
  "shop_sem SLLI a n = word_of_int (uint a * 2 ^ n)"
| "shop_sem SRLI a n = word_of_int (uint a div 2 ^ n)"
| "shop_sem SRAI a n = word_of_int (sint a div 2 ^ n)"

fun shwop_sem :: "shwop \<Rightarrow> u64 \<Rightarrow> nat \<Rightarrow> u64" where
  "shwop_sem SLLIW a n = w_result (uint a * 2 ^ n)"
| "shwop_sem SRLIW a n = w_result (uw a div 2 ^ n)"
| "shwop_sem SRAIW a n = w_result (sw a div 2 ^ n)"

fun bop_sem :: "bop \<Rightarrow> u64 \<Rightarrow> u64 \<Rightarrow> bool" where
  "bop_sem BEQ a b = (a = b)"
| "bop_sem BNE a b = (a \<noteq> b)"
| "bop_sem BLT a b = (sint a < sint b)"
| "bop_sem BGE a b = (sint a \<ge> sint b)"
| "bop_sem BLTU a b = (uint a < uint b)"
| "bop_sem BGEU a b = (uint a \<ge> uint b)"

fun lop_width :: "lop \<Rightarrow> nat" where
  "lop_width LB = 1" | "lop_width LH = 2" | "lop_width LW = 4" | "lop_width LD = 8"
| "lop_width LBU = 1" | "lop_width LHU = 2" | "lop_width LWU = 4"

definition lop_signed :: "lop \<Rightarrow> bool" where
  "lop_signed x \<longleftrightarrow> x \<in> {LB, LH, LW, LD}"

fun sop_width :: "sop \<Rightarrow> nat" where
  "sop_width SB = 1" | "sop_width SH = 2" | "sop_width SW = 4" | "sop_width SD = 8"

subsection \<open>Machine\<close>

record isa_t =
  ipc :: u64
  ireg :: "reg5 \<Rightarrow> u64"
  imem :: "u64 \<rightharpoonup> u8"

fun le_val :: "u8 list \<Rightarrow> int" where
  "le_val [] = 0"
| "le_val (b # bs) = uint b + 256 * le_val bs"

fun bytes_at :: "(u64 \<rightharpoonup> u8) \<Rightarrow> u64 \<Rightarrow> nat \<Rightarrow> u8 list option" where
  "bytes_at M a 0 = Some []"
| "bytes_at M a (Suc n) =
     (case (M a, bytes_at M (a + 1) n) of (Some b, Some bs) \<Rightarrow> Some (b # bs) | _ \<Rightarrow> None)"

fun store_bytes :: "(u64 \<rightharpoonup> u8) \<Rightarrow> u64 \<Rightarrow> nat \<Rightarrow> int \<Rightarrow> u64 \<rightharpoonup> u8" where
  "store_bytes M a 0 v = M"
| "store_bytes M a (Suc n) v = store_bytes (M(a \<mapsto> word_of_int v)) (a + 1) n (v div 256)"

definition lop_value :: "lop \<Rightarrow> u8 list \<Rightarrow> u64" where
  "lop_value x bs = word_of_int
     (if lop_signed x then signed_take_bit (8 * lop_width x - 1) (le_val bs) else le_val bs)"

definition set_ireg :: "reg5 \<Rightarrow> u64 \<Rightarrow> isa_t \<Rightarrow> isa_t" where
  "set_ireg rd v s = (if rd = 0 then s else s\<lparr>ireg := (ireg s)(rd := v)\<rparr>)"

definition next_pc :: "isa_t \<Rightarrow> isa_t" where
  "next_pc s = s\<lparr>ipc := ipc s + 4\<rparr>"

text \<open>
  A jump to an address that is not a multiple of four traps, and so does a load from an
  address that is not mapped.
\<close>

datatype trap = Misaligned u64 | Unmapped u64

definition jump_to :: "u64 \<Rightarrow> isa_t \<Rightarrow> trap + isa_t" where
  "jump_to t s = (if uint t mod 4 = 0 then Inr (s\<lparr>ipc := t\<rparr>) else Inl (Misaligned t))"

fun exec :: "insn \<Rightarrow> isa_t \<Rightarrow> trap + isa_t" where
  "exec (RType x rd rs1 rs2) s = Inr (next_pc (set_ireg rd (rop_sem x (ireg s rs1) (ireg s rs2)) s))"
| "exec (IType x rd rs1 imm) s = Inr (next_pc (set_ireg rd (iop_sem x (ireg s rs1) (scast imm)) s))"
| "exec (ShiftI x rd rs1 sh) s = Inr (next_pc (set_ireg rd (shop_sem x (ireg s rs1) (unat sh)) s))"
| "exec (ShiftIW x rd rs1 sh) s = Inr (next_pc (set_ireg rd (shwop_sem x (ireg s rs1) (unat sh)) s))"
| "exec (Load x rd rs1 imm) s =
     (case bytes_at (imem s) (ireg s rs1 + scast imm) (lop_width x) of
        None \<Rightarrow> Inl (Unmapped (ireg s rs1 + scast imm))
      | Some bs \<Rightarrow> Inr (next_pc (set_ireg rd (lop_value x bs) s)))"
| "exec (Store x rs1 rs2 imm) s = Inr (next_pc (s\<lparr>imem :=
     store_bytes (imem s) (ireg s rs1 + scast imm) (sop_width x) (uint (ireg s rs2))\<rparr>))"
| "exec (Branch x rs1 rs2 imm) s =
     (if bop_sem x (ireg s rs1) (ireg s rs2) then jump_to (ipc s + scast (imm AND NOT 1)) s
      else Inr (next_pc s))"
| "exec (Lui rd imm) s = Inr (next_pc (set_ireg rd (word_of_int (sint imm * 2 ^ 12)) s))"
| "exec (Auipc rd imm) s = Inr (next_pc (set_ireg rd (ipc s + word_of_int (sint imm * 2 ^ 12)) s))"
| "exec (Jal rd imm) s =
     map_sum id (set_ireg rd (ipc s + 4)) (jump_to (ipc s + scast (imm AND NOT 1)) s)"
| "exec (Jalr rd rs1 imm) s =
     map_sum id (set_ireg rd (ipc s + 4)) (jump_to ((ireg s rs1 + scast imm) AND NOT 1) s)"

end
