(* ===== verification/Values.thy ===== *)
theory Values
  imports Spec Func_Mul
begin

unbundle bit_operations_syntax

text \<open>
  Values: the operations of the handlers on 64-bit words (shifts by a masked amount, high
  halves of products, truncating divisions, results of 32 bits) rewritten to the integers of
  \<^verbatim>\<open>Spec\<close>.
\<close>

subsection \<open>Values\<close>

lemma w_result_sext32: "w_result k = sext32 (word_of_int k)"
  by (rule word64_eqI) (simp add: w_result_def sext32_def bit_simps bit_signed_take_bit_iff min_def)

lemma sint_ucast32: "sint (ucast a :: u32) = sw a"
  by (simp add: sw_def sint_uint unsigned_ucast_eq signed_take_bit_take_bit)

lemma uint_ucast32: "uint (ucast a :: u32) = uw a"
  by (simp only: uw_def unsigned_ucast_eq take_bit_eq_mod) simp

lemma sext32_sint: "sint (sext32 a) = sw a"
  by (simp add: sext32_def sint_scast_up sint_ucast32)

lemma zext32_uint: "uint (zext32 a) = uw a"
proof -
  have "uint (ucast (y :: u32) :: u64) = uint y" for y by (rule uint_up_ucast) (simp add: is_up)
  then show ?thesis by (simp add: zext32_def uint_ucast32)
qed

lemma unat_and_mask: "unat (b AND mask n) = unat b mod 2 ^ n" for b :: u64
  by (simp only: take_bit_eq_mask [symmetric] unsigned_take_bit_eq) (simp only: take_bit_eq_mod)

lemma xlen_mask: "of_nat xlen - 1 = (63 :: u64)"
  by (simp add: xlen_def)

lemma shift_amounts: "unat (b AND 63) = unat b mod 64" "unat (b AND 0x1F) = unat b mod 32" for b :: u64
  using unat_and_mask [of b 6] unat_and_mask [of b 5] by (simp_all add: mask_eq_exp_minus_1)

lemma all_ones: "(0xFFFFFFFFFFFFFFFF :: u64) = - 1"
  by simp

lemma push_bit_int: "push_bit n a = word_of_int (uint a * 2 ^ n)" for a :: u64
  by (simp add: push_bit_eq_mult)

lemma of_uintI: "uint x = k \<Longrightarrow> x = word_of_int k" for x :: "'a :: len word"
  by auto

lemma of_sintI: "sint x = k \<Longrightarrow> x = word_of_int k" for x :: "'a :: len word"
  by auto

lemma uint_drop_bit: "uint (drop_bit n a) = uint a div 2 ^ n" for a :: "'a :: len word"
  by (simp only: unsigned_drop_bit_eq) (simp add: drop_bit_eq_div bintr_uint)

lemma sint_signed_drop_bit: "sint (signed_drop_bit n a) = sint a div 2 ^ n" for a :: "'a :: len word"
  by (simp only: sint_signed_drop_bit_eq drop_bit_eq_div)

lemma drop_bit_int: "drop_bit n a = word_of_int (uint a div 2 ^ n)" for a :: u64
  by (rule of_uintI) (rule uint_drop_bit)

lemma signed_drop_bit_int: "signed_drop_bit n a = word_of_int (sint a div 2 ^ n)" for a :: u64
  by (rule of_sintI) (rule sint_signed_drop_bit)

lemma add_int: "a + b = word_of_int (sint a + sint b)" for a b :: u64
  by simp

lemma sub_int: "a - b = word_of_int (sint a - sint b)" for a b :: u64
  by simp

lemma mul_int: "a * b = word_of_int (sint a * sint b)" for a b :: u64
  by simp

lemma high_products:
  "mulh a b = word_of_int (sint a * sint b div 2 ^ 64)"
  "mulhsu a b = word_of_int (sint a * uint b div 2 ^ 64)"
  "mulhu a b = word_of_int (uint a * uint b div 2 ^ 64)"
  by (rule of_sintI, rule sint_mulh, rule of_sintI, rule sint_mulhsu, rule of_uintI, rule uint_mulhu)

lemma div_overflow: "word_of_int (sint a sdiv sint b) = a" "word_of_int (sint a smod sint b) = 0"
  if "a = 0x8000000000000000" "b = - 1" for a b :: u64
  using that by (simp_all add: signed_divide_int_def signed_modulo_int_def)

lemma word_udiv_int: "x div y = word_of_int (uint x div uint y)" "x mod y = word_of_int (uint x mod uint y)"
  for x y :: u64
  by (simp_all add: word_div_def word_mod_def)

lemma w_result_word: "w_result (uint x) = sext32 x" "w_result (sint x) = sext32 x"
  by (simp_all add: w_result_sext32)

lemma sext32_zero_iff: "sext32 b = 0 \<longleftrightarrow> sw b = 0"
  by (metis sext32_sint sint_0 signed_eq_0_iff)

lemma zext32_zero_iff: "zext32 b = 0 \<longleftrightarrow> uw b = 0"
  by (metis zext32_uint unsigned_eq_0_iff)

lemma w_result_shift:
  "sext32 (ucast (drop_bit n (ucast a :: u32))) = w_result (uw a div 2 ^ n)"
  "sext32 (scast (signed_drop_bit n (ucast a :: u32))) = w_result (sw a div 2 ^ n)"
  "sext32 (push_bit n a) = w_result (uint a * 2 ^ n)"
proof -
  have u: "uint (drop_bit n (ucast a :: u32)) = uw a div 2 ^ n"
    by (simp only: uint_drop_bit uint_ucast32)
  have "word_of_int (uint (drop_bit n (ucast a :: u32))) = (ucast (drop_bit n (ucast a :: u32)) :: u64)" by simp
  then show "sext32 (ucast (drop_bit n (ucast a :: u32))) = w_result (uw a div 2 ^ n)"
    by (simp only: w_result_sext32 u)
  have s: "sint (signed_drop_bit n (ucast a :: u32)) = sw a div 2 ^ n"
    by (simp only: sint_signed_drop_bit sint_ucast32)
  have "word_of_int (sint (signed_drop_bit n (ucast a :: u32)))
      = (scast (signed_drop_bit n (ucast a :: u32)) :: u64)" by simp
  then show "sext32 (scast (signed_drop_bit n (ucast a :: u32))) = w_result (sw a div 2 ^ n)"
    by (simp only: w_result_sext32 s)
  show "sext32 (push_bit n a) = w_result (uint a * 2 ^ n)"
    by (simp only: w_result_sext32 push_bit_int)
qed

lemma w_result_parts: "w_result (sw a) = sext32 a" "w_result (uw a) = sext32 (zext32 a)"
proof -
  have "w_result (sw a) = sext32 (word_of_int (sint (sext32 a)))"
    by (simp only: w_result_sext32 sext32_sint)
  also have "\<dots> = sext32 a"
    by (rule word64_eqI) (simp add: sext32_def bit_simps min_def)
  finally show "w_result (sw a) = sext32 a" .
  have "w_result (uw a) = sext32 (word_of_int (uint (zext32 a)))"
    by (simp only: w_result_sext32 zext32_uint)
  then show "w_result (uw a) = sext32 (zext32 a)" by simp
qed

lemma w_divisions:
  "sext32 (c_div (sext32 a) (sext32 b)) = w_result (sw a sdiv sw b)"
  "sext32 (c_mod (sext32 a) (sext32 b)) = w_result (sw a smod sw b)"
  "sext32 (zext32 a div zext32 b) = w_result (uw a div uw b)"
  "sext32 (zext32 a mod zext32 b) = w_result (uw a mod uw b)"
  by (simp_all only: c_div_def c_mod_def word_udiv_int w_result_sext32 sext32_sint zext32_uint)

lemma w_arith:
  "sext32 (a + b) = w_result (sint a + sint b)" "sext32 (a - b) = w_result (sint a - sint b)"
  "sext32 (a * b) = w_result (sint a * sint b)"
  by (simp_all only: w_result_sext32 add_int sub_int mul_int)

end
