(* ===== verification/Formats.thy ===== *)
theory Formats
  imports Run Values
begin

unbundle bit_operations_syntax

text \<open>
  The registered handler of each instruction of \<^verbatim>\<open>Spec\<close>: it is in the table of the simulator,
  its pattern matches every encoding of the instruction, and the handlers of the
  register-register instructions compute the results of \<^verbatim>\<open>Spec\<close>.
\<close>

subsection \<open>Register-register instructions\<close>

fun rop_entry :: "rop \<Rightarrow> string \<times> pattern \<times> insn_func" where
  "rop_entry ADD = (''add'', pat_add, rv64_add)" | "rop_entry SUB = (''sub'', pat_sub, rv64_sub)"
| "rop_entry SLL = (''sll'', pat_sll, rv64_sll)" | "rop_entry SLT = (''slt'', pat_slt, rv64_slt)"
| "rop_entry SLTU = (''sltu'', pat_sltu, rv64_sltu)"
| "rop_entry XOR_op = (''xor'', pat_xor, rv64_xor)" | "rop_entry SRL = (''srl'', pat_srl, rv64_srl)"
| "rop_entry SRA = (''sra'', pat_sra, rv64_sra)" | "rop_entry OR_op = (''or'', pat_or, rv64_or)"
| "rop_entry AND_op = (''and'', pat_and, rv64_and)" | "rop_entry MUL = (''mul'', pat_mul, rv64_mul)"
| "rop_entry MULH = (''mulh'', pat_mulh, rv64_mulh)"
| "rop_entry MULHSU = (''mulhsu'', pat_mulhsu, rv64_mulhsu)"
| "rop_entry MULHU = (''mulhu'', pat_mulhu, rv64_mulhu)"
| "rop_entry DIV = (''div'', pat_div, rv64_div)" | "rop_entry DIVU = (''divu'', pat_divu, rv64_divu)"
| "rop_entry REM = (''rem'', pat_rem, rv64_rem)" | "rop_entry REMU = (''remu'', pat_remu, rv64_remu)"
| "rop_entry ADDW = (''addw'', pat_addw, rv64_addw)" | "rop_entry SUBW = (''subw'', pat_subw, rv64_subw)"
| "rop_entry SLLW = (''sllw'', pat_sllw, rv64_sllw)" | "rop_entry SRLW = (''srlw'', pat_srlw, rv64_srlw)"
| "rop_entry SRAW = (''sraw'', pat_sraw, rv64_sraw)" | "rop_entry MULW = (''mulw'', pat_mulw, rv64_mulw)"
| "rop_entry DIVW = (''divw'', pat_divw, rv64_divw)"
| "rop_entry DIVUW = (''divuw'', pat_divuw, rv64_divuw)"
| "rop_entry REMW = (''remw'', pat_remw, rv64_remw)"
| "rop_entry REMUW = (''remuw'', pat_remuw, rv64_remuw)"

definition rop_ok :: "rop \<Rightarrow> bool" where
  "rop_ok x \<longleftrightarrow> x \<noteq> SLTU \<and> x \<noteq> SLLW"

lemmas rop_handlers = rv64_add_def rv64_sub_def rv64_sll_def rv64_slt_def rv64_xor_def rv64_srl_def
  rv64_sra_def rv64_or_def rv64_and_def rv64_mul_def rv64_mulh_def rv64_mulhsu_def rv64_mulhu_def
  rv64_div_def rv64_divu_def rv64_rem_def rv64_remu_def rv64_addw_def rv64_subw_def rv64_srlw_def
  rv64_sraw_def rv64_mulw_def rv64_divw_def rv64_divuw_def rv64_remw_def rv64_remuw_def

lemma div_result:
  "(if b = 0 then 0xFFFFFFFFFFFFFFFF else if a = 0x8000000000000000 \<and> b = - 1 then a else c_div a b)
     = rop_sem DIV a b"
  "(if b = 0 then a else if a = 0x8000000000000000 \<and> b = - 1 then 0 else c_mod a b) = rop_sem REM a b"
  using div_overflow [of a b] by (auto simp: c_div_def c_mod_def)

lemma rop_result:
  assumes "rop_ok x" "rop_entry x = (name, pat, f)"
  shows "f p insn pc = Inr (pc + 4, WRITE_RD p insn (rop_sem x (RS1 p insn) (RS2 p insn)))"
proof -
  note [simp] = PC_INC_def rop_handlers Let_def xlen_mask shift_amounts all_ones
  show ?thesis
  proof (cases x)
    case DIV
    then show ?thesis using assms div_result(1) [of "RS2 p insn" "RS1 p insn"]
      by (auto simp del: rop_sem.simps split: if_splits)
  next
    case REM
    then show ?thesis using assms div_result(2) [of "RS2 p insn" "RS1 p insn"]
      by (auto simp del: rop_sem.simps split: if_splits)
  qed (use assms in \<open>auto simp: rop_ok_def word_sless_alt push_bit_int drop_bit_int
      signed_drop_bit_int high_products word_udiv_int w_arith w_divisions w_result_shift w_result_parts
      sext32_zero_iff zext32_zero_iff zext32_uint w_result_sext32 [symmetric] xlen_def\<close>)
qed

lemma rop_entry_in: "rop_entry x \<in> set (insn_list os fpu)"
  by (cases x) (simp_all add: insn_list_def)

lemma entry_names: "(name, pat, f) \<in> set (insn_list os fpu) \<Longrightarrow> name \<noteq> ''illegal''"
  by (auto simp: insn_list_def)

text \<open>The pattern of a format looks only at the constant fields of an instruction.\<close>

lemma pattern_masks:
  "(0xfe00707f :: u64) = mask 7 OR push_bit 12 (mask 3) OR push_bit 25 (mask 7)"
  "(0xfc00707f :: u64) = mask 7 OR push_bit 12 (mask 3) OR push_bit 26 (mask 6)"
  "(0x707f :: u64) = mask 7 OR push_bit 12 (mask 3)" "(0x7f :: u64) = mask 7"
  by (simp_all add: mask_eq_exp_minus_1)

lemma masked_eqI:
  fixes w v :: u32 and x :: u64
  assumes "\<And>n. 32 \<le> n \<Longrightarrow> \<not> bit x n" "\<And>n. n < 32 \<Longrightarrow> bit w n \<and> bit x n \<longleftrightarrow> bit v n"
  shows "scast w AND x = ucast v"
proof (rule word64_eqI)
  fix n :: nat assume "n < 64"
  with assms [of n] show "bit (scast w AND x) n = bit (ucast v :: u64) n"
    by (cases "n < 31"; cases "n = 31") (auto simp: bit_simps min_def dest: bit_u32_lt)
qed

lemma matches_R: "matches (m, 0xfe00707f) (scast (enc_R f7 rs2 rs1 f3 rd opc)) \<longleftrightarrow>
    ucast (enc_R f7 0 0 f3 0 opc) = m"
proof -
  have "scast (enc_R f7 rs2 rs1 f3 rd opc) AND 0xfe00707f = (ucast (enc_R f7 0 0 f3 0 opc) :: u64)"
    unfolding pattern_masks by (rule masked_eqI) (auto simp: bit_simps bit_enc dest: bit_imp_le_length)
  then show ?thesis by (simp add: matches_def)
qed

lemma matches_SB: "matches (m, 0x707f) (scast (enc_R f7 rs2 rs1 f3 rd opc)) \<longleftrightarrow>
    ucast (enc_R 0 0 0 f3 0 opc) = m"
proof -
  have "scast (enc_R f7 rs2 rs1 f3 rd opc) AND 0x707f = (ucast (enc_R 0 0 0 f3 0 opc) :: u64)"
    unfolding pattern_masks by (rule masked_eqI) (auto simp: bit_simps bit_enc dest: bit_imp_le_length)
  then show ?thesis by (simp add: matches_def)
qed

lemma matches_I: "matches (m, 0x707f) (scast (enc_I imm rs1 f3 rd opc)) \<longleftrightarrow>
    ucast (enc_I 0 0 f3 0 opc) = m"
proof -
  have "scast (enc_I imm rs1 f3 rd opc) AND 0x707f = (ucast (enc_I 0 0 f3 0 opc) :: u64)"
    unfolding pattern_masks by (rule masked_eqI) (auto simp: bit_simps bit_enc dest: bit_imp_le_length)
  then show ?thesis by (simp add: matches_def)
qed

lemma matches_sh: "matches (m, 0xfc00707f) (scast (enc_I (word_cat f6 sh) rs1 f3 rd opc)) \<longleftrightarrow>
    ucast (enc_I (word_cat f6 (0 :: 6 word)) 0 f3 0 opc) = m"
  for f6 :: "6 word" and sh :: "6 word"
proof -
  have "scast (enc_I (word_cat f6 sh) rs1 f3 rd opc) AND 0xfc00707f
      = (ucast (enc_I (word_cat f6 (0 :: 6 word)) 0 f3 0 opc) :: u64)"
    unfolding pattern_masks by (rule masked_eqI) (auto simp: bit_simps bit_enc dest: bit_imp_le_length)
  then show ?thesis by (simp add: matches_def)
qed

lemma matches_U: "matches (m, 0x7f) (scast (enc_U imm rd opc)) \<longleftrightarrow> ucast (ucast opc :: u32) = m"
proof -
  have "scast (enc_U imm rd opc) AND 0x7f = (ucast (ucast opc :: u32) :: u64)"
    unfolding pattern_masks by (rule masked_eqI) (auto simp: bit_simps bit_enc dest: bit_imp_le_length)
  then show ?thesis by (simp add: matches_def)
qed

lemma matches_J: "matches (m, 0x7f) (scast (enc_J imm rd opc)) \<longleftrightarrow> ucast (ucast opc :: u32) = m"
proof -
  have "scast (enc_J imm rd opc) AND 0x7f = (ucast (ucast opc :: u32) :: u64)"
    unfolding pattern_masks by (rule masked_eqI) (auto simp: bit_simps bit_enc dest: bit_imp_le_length)
  then show ?thesis by (simp add: matches_def)
qed

lemma rop_matches:
  "rop_entry x = (name, pat, f) \<Longrightarrow> rop_code x = (f7, f3, opc) \<Longrightarrow>
   matches pat (scast (enc_R f7 rs2 rs1 f3 rd opc))"
  by (cases x) (auto simp: pat_defs matches_R, simp_all add: enc_R_def)

subsection \<open>Immediates, loads, stores, branches\<close>

fun iop_entry :: "iop \<Rightarrow> string \<times> pattern \<times> insn_func" where
  "iop_entry ADDI = (''addi'', pat_addi, rv64_addi)" | "iop_entry SLTI = (''slti'', pat_slti, rv64_slti)"
| "iop_entry SLTIU = (''sltiu'', pat_sltiu, rv64_sltiu)"
| "iop_entry XORI = (''xori'', pat_xori, rv64_xori)" | "iop_entry ORI = (''ori'', pat_ori, rv64_ori)"
| "iop_entry ANDI = (''andi'', pat_andi, rv64_andi)"
| "iop_entry ADDIW = (''addiw'', pat_addiw, rv64_addiw)"

fun shop_entry :: "shop \<Rightarrow> string \<times> pattern \<times> insn_func" where
  "shop_entry SLLI = (''slli'', pat_slli, rv64_slli)" | "shop_entry SRLI = (''srli'', pat_srli, rv64_srli)"
| "shop_entry SRAI = (''srai'', pat_srai, rv64_srai)"

fun shwop_entry :: "shwop \<Rightarrow> string \<times> pattern \<times> insn_func" where
  "shwop_entry SLLIW = (''slliw'', pat_slliw, rv64_slliw)"
| "shwop_entry SRLIW = (''srliw'', pat_srliw, rv64_srliw)"
| "shwop_entry SRAIW = (''sraiw'', pat_sraiw, rv64_sraiw)"

fun lop_entry :: "lop \<Rightarrow> string \<times> pattern \<times> insn_func" where
  "lop_entry LB = (''lb'', pat_lb, rv64_lb)" | "lop_entry LH = (''lh'', pat_lh, rv64_lh)"
| "lop_entry LW = (''lw'', pat_lw, rv64_lw)" | "lop_entry LD = (''ld'', pat_ld, rv64_ld)"
| "lop_entry LBU = (''lbu'', pat_lbu, rv64_lbu)" | "lop_entry LHU = (''lhu'', pat_lhu, rv64_lhu)"
| "lop_entry LWU = (''lwu'', pat_lwu, rv64_lwu)"

fun sop_entry :: "sop \<Rightarrow> string \<times> pattern \<times> insn_func" where
  "sop_entry SB = (''sb'', pat_sb, rv64_sb)" | "sop_entry SH = (''sh'', pat_sh, rv64_sh)"
| "sop_entry SW = (''sw'', pat_sw, rv64_sw)" | "sop_entry SD = (''sd'', pat_sd, rv64_sd)"

fun bop_entry :: "bop \<Rightarrow> string \<times> pattern \<times> insn_func" where
  "bop_entry BEQ = (''beq'', pat_beq, rv64_beq)" | "bop_entry BNE = (''bne'', pat_bne, rv64_bne)"
| "bop_entry BLT = (''blt'', pat_blt, rv64_blt)" | "bop_entry BGE = (''bge'', pat_bge, rv64_bge)"
| "bop_entry BLTU = (''bltu'', pat_bltu, rv64_bltu)" | "bop_entry BGEU = (''bgeu'', pat_bgeu, rv64_bgeu)"

fun insn_entry :: "insn \<Rightarrow> string \<times> pattern \<times> insn_func" where
  "insn_entry (RType x _ _ _) = rop_entry x"
| "insn_entry (IType x _ _ _) = iop_entry x"
| "insn_entry (ShiftI x _ _ _) = shop_entry x"
| "insn_entry (ShiftIW x _ _ _) = shwop_entry x"
| "insn_entry (Load x _ _ _) = lop_entry x"
| "insn_entry (Store x _ _ _) = sop_entry x"
| "insn_entry (Branch x _ _ _) = bop_entry x"
| "insn_entry (Lui _ _) = (''lui'', pat_lui, rv64_lui)"
| "insn_entry (Auipc _ _) = (''auipc'', pat_auipc, rv64_auipc)"
| "insn_entry (Jal _ _) = (''jal'', pat_jal, rv64_jal)"
| "insn_entry (Jalr _ _ _) = (''jalr'', pat_jalr, rv64_jalr)"

lemma iop_entry_in: "iop_entry x \<in> set (insn_list os fpu)"
  by (cases x) (simp_all add: insn_list_def)

lemma shop_entry_in: "shop_entry x \<in> set (insn_list os fpu)"
  by (cases x) (simp_all add: insn_list_def)

lemma shwop_entry_in: "shwop_entry x \<in> set (insn_list os fpu)"
  by (cases x) (simp_all add: insn_list_def)

lemma lop_entry_in: "lop_entry x \<in> set (insn_list os fpu)"
  by (cases x) (simp_all add: insn_list_def)

lemma sop_entry_in: "sop_entry x \<in> set (insn_list os fpu)"
  by (cases x) (simp_all add: insn_list_def)

lemma bop_entry_in: "bop_entry x \<in> set (insn_list os fpu)"
  by (cases x) (simp_all add: insn_list_def)

lemmas entries_in = rop_entry_in iop_entry_in shop_entry_in shwop_entry_in lop_entry_in sop_entry_in
  bop_entry_in

lemma insn_entry_in: "insn_entry i \<in> set (insn_list os fpu)"
  by (cases i) (simp_all add: entries_in, simp_all add: insn_list_def)

lemma iop_matches: "iop_entry x = (n, pat, f) \<Longrightarrow> iop_code x = (f3, opc) \<Longrightarrow>
    matches pat (scast (enc_I imm rs1 f3 rd opc))"
  by (cases x) (auto simp: pat_defs matches_I, simp_all add: enc_I_def)

lemmas matches_sh_0 = matches_sh [of _ 0, simplified]

lemma shop_matches: "shop_entry x = (n, pat, f) \<Longrightarrow> shop_code x = (f6, f3) \<Longrightarrow>
    matches pat (scast (enc_I (word_cat f6 (sh :: 6 word)) rs1 f3 rd 0x13))"
  by (cases x) (auto simp: pat_defs matches_sh matches_sh_0, simp_all add: enc_I_def word_cat_eq)

lemma shwop_matches: "shwop_entry x = (n, pat, f) \<Longrightarrow> shwop_code x = (f7, f3) \<Longrightarrow>
    matches pat (scast (enc_R f7 sh rs1 f3 rd 0x1b))"
  by (cases x) (auto simp: pat_defs matches_R, simp_all add: enc_R_def)

lemma lop_matches: "lop_entry x = (n, pat, f) \<Longrightarrow> matches pat (scast (enc_I imm rs1 (lop_code x) rd 0x03))"
  by (cases x) (auto simp: pat_defs matches_I, simp_all add: enc_I_def)

lemma sop_matches: "sop_entry x = (n, pat, f) \<Longrightarrow> matches pat (scast (enc_R f7 rs2 rs1 (sop_code x) rd 0x23))"
  by (cases x) (auto simp: pat_defs matches_SB, simp_all add: enc_R_def)

lemma bop_matches: "bop_entry x = (n, pat, f) \<Longrightarrow> matches pat (scast (enc_R f7 rs2 rs1 (bop_code x) rd 0x63))"
  by (cases x) (auto simp: pat_defs matches_SB, simp_all add: enc_R_def)

lemmas entry_matches = rop_matches iop_matches shop_matches shwop_matches lop_matches sop_matches
  bop_matches

lemma encode_matches: "insn_entry i = (name, pat, f) \<Longrightarrow> matches pat (scast (encode i))"
  by (cases i)
    (auto simp: enc_S_def enc_B_def entry_matches pat_defs matches_U matches_J matches_I
      split: prod.splits, simp_all add: enc_I_def)

end
