(* ===== verification/Refinement.thy ===== *)
theory Refinement
  imports Formats
begin

unbundle bit_operations_syntax

text \<open>
  The simulator implements the abstract machine of \<^verbatim>\<open>Spec\<close>. A machine is abstracted to its
  program counter, its integer registers and its memory; a contract for the handlers that
  compute a register value is interpreted on every group of them; one step of \<^verbatim>\<open>cpu_t\<close> on an
  encoded instruction is one step of the abstract machine, and a run of the abstract machine is
  a run of the simulator.
\<close>

subsection \<open>Fields of an encoded instruction\<close>

lemma fields_UJ [simp]:
  "insn_rd (scast (enc_U imm rd opc)) = ucast rd" "insn_rd (scast (enc_J immj rd opc)) = ucast rd"
  by (rule word64_eqI; auto simp: fields_defs bit_insn_x bit_enc bit_simps min_def
    dest: bit_imp_le_length)+

lemma unat_ucast_up: "LENGTH('a) \<le> 64 \<Longrightarrow> unat (ucast (x :: 'a :: len word) :: u64) = unat x"
proof -
  assume "LENGTH('a) \<le> 64"
  moreover have "unat x < 2 ^ LENGTH('a)" by (rule unsigned_less)
  ultimately have "unat x < 2 ^ 64"
    using power_increasing [of "LENGTH('a)" 64 "2 :: nat"] by linarith
  then show ?thesis by (simp add: unsigned_ucast_eq take_bit_nat_eq_self)
qed

lemma shamt_take_bit: "shamt insn = take_bit 6 (i_imm insn)"
  by (simp add: shamt_def take_bit_eq_mask mask_eq_exp_minus_1)

lemma shamt_I: "unat (shamt (scast (enc_I (word_cat f6 sh) rs1 f3 rd opc))) = unat sh"
  for f6 sh :: "6 word"
proof -
  have "shamt (scast (enc_I (word_cat f6 sh) rs1 f3 rd opc)) = ucast sh"
    unfolding shamt_take_bit i_imm_enc_I
    by (rule word64_eqI) (auto simp: bit_simps min_def dest: bit_imp_le_length)
  then show ?thesis by (simp add: unat_ucast_up)
qed

lemma shamt_R: "unat (shamt (scast (enc_R f7 sh rs1 f3 rd opc))) = unat sh" if "\<not> bit f7 0"
proof -
  have "shamt (scast (enc_R f7 sh rs1 f3 rd opc)) = ucast sh"
    unfolding shamt_take_bit i_imm_def
  proof (rule word64_eqI)
    fix n show "bit (take_bit 6 (signed_drop_bit 20 (scast (enc_R f7 sh rs1 f3 rd opc)) :: u64)) n
        = bit (ucast sh :: u64) n"
      using that by (cases "n = 5") (auto simp: bit_simps bit_enc min_def dest: bit_imp_le_length)
  qed
  then show ?thesis by (simp add: unat_ucast_up)
qed

subsection \<open>Memory\<close>

lemma le_join_int: "le_join bs = word_of_int (le_val bs)"
proof (induction bs)
  case (Cons b bs)
  have "ucast b OR push_bit 8 (le_join bs) = ucast b + push_bit 8 (le_join bs)"
    by (rule disjunctive_add [symmetric]) (auto simp: bit_simps dest: bit_u8_lt)
  then show ?case by (simp add: Cons push_bit_eq_mult mult.commute)
qed simp

lemma signed_take_bit_int:
  "k < 64 \<Longrightarrow> signed_take_bit k (word_of_int v :: u64) = word_of_int (signed_take_bit k v)"
  by (rule word64_eqI) (auto simp: bit_simps min_def)

lemma bytes_at_length: "bytes_at M a n = Some bs \<Longrightarrow> length bs = n"
  by (induction M a n arbitrary: bs rule: bytes_at.induct) (auto split: option.splits)

lemma bytes_at_found: "bytes_at (mem m) a n = Some bs \<Longrightarrow> found m a n = bs"
proof (induction n arbitrary: a bs)
  case (Suc n)
  then show ?case by (auto simp: found_Suc find_it_def split: option.splits)
qed simp

lemma load_value:
  assumes "bytes_at (mem m) a (lop_width x) = Some bs"
  shows "mmu_read m a (lop_signed x) (lop_width x) = lop_value x bs"
proof -
  have w: "lop_width x \<in> {1, 2, 4, 8}" by (cases x) simp_all
  then have "8 * lop_width x - 1 < 64" by auto
  with bytes_at_found [OF assms] show ?thesis
    by (cases "lop_signed x")
      (simp_all add: lop_value_def mmu_read_signed [OF w] mmu_read_unsigned le_join_int signed_take_bit_int)
qed

lemma write_loop_store:
  "mem_clear m A \<Longrightarrow> span a n \<subseteq> A \<Longrightarrow> n \<le> 8 \<Longrightarrow>
   mem (write_loop n a v m) = store_bytes (mem m) a n (uint v)"
  unfolding write_loop_put
proof (induction n arbitrary: m a v)
  case (Suc n)
  then have *: "a \<in> A" "span (a + 1) n \<subseteq> A" by (simp_all add: span_Suc)
  have v: "uint v div 256 = uint (drop_bit 8 v)" by (simp add: uint_drop_bit del: unsigned_drop_bit_eq)
  have c: "mem_clear (store_it m a (ucast v)) A" using Suc.prems(1) *(1) by (rule mbytes.clear_put)
  have u: "(ucast v :: u8) = word_of_int (uint v)" by simp
  have "mem (store_it m a (ucast v)) = (mem m)(a \<mapsto> ucast v)"
    using store_it_clear [OF Suc.prems(1) *(1)] by simp
  moreover have "n \<le> 8" using Suc.prems(3) by simp
  ultimately show ?case using Suc.IH [OF c *(2)]
    by (simp only: le_split.simps put_list.simps store_bytes.simps v u)
qed simp

subsection \<open>The abstraction\<close>

definition isa_of :: "cpu_t \<Rightarrow> isa_t" where
  "isa_of p = \<lparr>ipc = state_pc (cpu_state p), ireg = (\<lambda>r. READ_REG p (ucast r)), imem = mem (mmu p)\<rparr>"

lemma isa_of_simps [simp]:
  "ipc (isa_of p) = state_pc (cpu_state p)" "ireg (isa_of p) r = READ_REG p (ucast r)"
  "imem (isa_of p) = mem (mmu p)"
  by (simp_all add: isa_of_def)

lemma isa_of_WRITE_REG: "wf_cpu p \<Longrightarrow> isa_of (WRITE_REG p (ucast rd) v) = set_ireg rd v (isa_of p)"
proof -
  assume "wf_cpu p"
  moreover have "unat (ucast r :: u64) < 32" for r :: reg5
    using unsigned_less [of r] by (simp add: unat_ucast_up)
  moreover have "(ucast rd :: u64) = ucast r \<longleftrightarrow> rd = r" "(ucast rd :: u64) = 0 \<longleftrightarrow> rd = 0" for r
    by (simp_all add: word_unat_eq_iff unat_ucast_up)
  ultimately have "ireg (isa_of (WRITE_REG p (ucast rd) v)) r = ireg (set_ireg rd v (isa_of p)) r" for r
    by (auto simp: wf_cpu_def READ_REG_def WRITE_REG_def set_ireg_def xregs.get_put)
  then show ?thesis
    by (intro isa_t.equality ext) (simp_all add: isa_of_def WRITE_REG_def set_ireg_def)
qed

lemma isa_of_set_pc: "isa_of (set_state_pc p v) = (isa_of p)\<lparr>ipc := v\<rparr>"
  by (simp add: isa_of_def set_state_pc_def READ_REG_def)

lemma isa_of_mmu: "isa_of (p\<lparr>mmu := m\<rparr>) = (isa_of p)\<lparr>imem := mem m\<rparr>"
  by (simp add: isa_of_def READ_REG_def)

text \<open>
  A handler \<open>f\<close> at the instruction and program counter given implements an abstract outcome
  when it returns a machine with that abstraction, or throws the corresponding exception. What
  the abstraction does not show stays as it is: floating-point registers, counters, history.
\<close>

definition same_rest :: "cpu_t \<Rightarrow> cpu_t \<Rightarrow> bool" where
  "same_rest p p' \<longleftrightarrow> FPR (cpu_state p') = FPR (cpu_state p) \<and> history p' = history p \<and> wf_cpu p' = wf_cpu p"

definition outcome_ok :: "cpu_t \<Rightarrow> trap + isa_t \<Rightarrow> stop + u64 \<times> cpu_t \<Rightarrow> bool" where
  "outcome_ok p s r \<longleftrightarrow> (case s of
     Inr s' \<Rightarrow> (\<exists>npc p'. r = Inr (npc, p') \<and> isa_of (set_state_pc p' npc) = s' \<and> same_rest p p')
   | Inl (Misaligned t) \<Rightarrow> r = Inl (Threw (trap_instruction_address_misaligned t))
   | Inl (Unmapped a) \<Rightarrow> True)"

text \<open>
  The contract of the instructions that compute a register value: the handler writes
  \<open>result\<close> to the destination and goes on to the next instruction.
\<close>

locale reg_compute =
  fixes handler :: "'op \<Rightarrow> insn_func" and valid :: "'op \<Rightarrow> bool"
    and result :: "'op \<Rightarrow> cpu_t \<Rightarrow> insn_t \<Rightarrow> u64 \<Rightarrow> u64"
  assumes handler_eq: "valid x \<Longrightarrow> handler x p insn pc = Inr (pc + 4, WRITE_RD p insn (result x p insn pc))"
begin

lemma implements:
  assumes "valid x" "wf_cpu p" "insn_rd insn = ucast rd" "pc = state_pc (cpu_state p)"
    and "result x p insn pc = v"
  shows "outcome_ok p (Inr (next_pc (set_ireg rd v (isa_of p)))) (handler x p insn pc)"
  using assms(2) unfolding handler_eq [OF assms(1)] outcome_ok_def
  by (simp add: WRITE_RD_def assms(3,4) assms(5) [symmetric] isa_of_set_pc isa_of_WRITE_REG next_pc_def set_ireg_def)
    (simp add: same_rest_def WRITE_REG_def wf_cpu_def)

end

abbreviation entry_handler :: "string \<times> pattern \<times> insn_func \<Rightarrow> insn_func" where
  "entry_handler e \<equiv> snd (snd e)"

interpretation rops: reg_compute "\<lambda>x. entry_handler (rop_entry x)" rop_ok
  "\<lambda>x p insn pc. rop_sem x (RS1 p insn) (RS2 p insn)"
  by unfold_locales (rule rop_result, assumption, simp add: prod_eq_iff)

interpretation iops: reg_compute "\<lambda>x. entry_handler (iop_entry x)" "\<lambda>_. True"
  "\<lambda>x p insn pc. iop_sem x (RS1 p insn) (i_imm insn)"
proof unfold_locales
  fix x p insn pc
  show "entry_handler (iop_entry x) p insn pc =
      Inr (pc + 4, WRITE_RD p insn (iop_sem x (RS1 p insn) (i_imm insn)))"
    by (cases x) (simp_all add: insn_defs PC_INC_def Let_def word_sless_alt word_less_alt
        w_arith [symmetric] ac_simps)
qed

interpretation shops: reg_compute "\<lambda>x. entry_handler (shop_entry x)" "\<lambda>_. True"
  "\<lambda>x p insn pc. shop_sem x (RS1 p insn) (unat (shamt insn))"
proof unfold_locales
  fix x p insn pc
  show "entry_handler (shop_entry x) p insn pc =
      Inr (pc + 4, WRITE_RD p insn (shop_sem x (RS1 p insn) (unat (shamt insn))))"
    using shamt_less [of insn]
    by (cases x) (simp_all add: insn_defs PC_INC_def Let_def push_bit_int drop_bit_int signed_drop_bit_int)
qed

interpretation shwops: reg_compute "\<lambda>x. entry_handler (shwop_entry x)" "\<lambda>_. True"
  "\<lambda>x p insn pc. shwop_sem x (RS1 p insn) (unat (shamt insn))"
proof unfold_locales
  fix x p insn pc
  show "entry_handler (shwop_entry x) p insn pc =
      Inr (pc + 4, WRITE_RD p insn (shwop_sem x (RS1 p insn) (unat (shamt insn))))"
    by (cases x) (simp_all add: insn_defs PC_INC_def Let_def w_result_shift)
qed

interpretation lops: reg_compute "\<lambda>x. entry_handler (lop_entry x)" "\<lambda>_. True"
  "\<lambda>x p insn pc. mmu_read (mmu p) (RS1 p insn + i_imm insn) (lop_signed x) (lop_width x)"
proof unfold_locales
  fix x p insn pc
  show "entry_handler (lop_entry x) p insn pc = Inr (pc + 4, WRITE_RD p insn
      (mmu_read (mmu p) (RS1 p insn + i_imm insn) (lop_signed x) (lop_width x)))"
    by (cases x) (simp_all add: insn_defs PC_INC_def Let_def read_defs lop_signed_def)
qed

interpretation uppers: reg_compute "\<lambda>add. if add then rv64_auipc else rv64_lui" "\<lambda>_. True"
  "\<lambda>add p insn pc. if add then u_imm insn + pc else u_imm insn"
  by unfold_locales (simp add: insn_defs PC_INC_def Let_def)

subsection \<open>Stores, branches and jumps\<close>

lemma mem_clear_mapped: "A \<subseteq> dom (mem m) \<Longrightarrow> mem_clear m A"
  by (auto simp: mem_clear_def)

definition store_ok :: "mmu_t \<Rightarrow> u64 \<Rightarrow> nat \<Rightarrow> bool" where
  "store_ok m a n \<longleftrightarrow> \<not> ban m a \<and> \<not> ban m (a + of_nat n - 1) \<and> mem_clear m (span a n)"

lemma sop_handler:
  "entry_handler (sop_entry x) p insn pc =
     trying (mmu_write (mmu p) (RS1 p insn + s_imm insn) (RS2 p insn) (sop_width x))
       (\<lambda>m. Inr (pc + 4, p\<lparr>mmu := m\<rparr>))"
  by (cases x) (simp_all add: insn_defs PC_INC_def Let_def write_defs)

lemma sop_width_le: "sop_width x \<le> 8"
  by (cases x) simp_all

lemma sop_implements:
  assumes "RS1 p insn + s_imm insn = a" "store_ok (mmu p) a (sop_width x)" "pc = state_pc (cpu_state p)"
  shows "outcome_ok p
    (Inr (next_pc ((isa_of p)\<lparr>imem := store_bytes (mem (mmu p)) a (sop_width x) (uint (RS2 p insn))\<rparr>)))
    (entry_handler (sop_entry x) p insn pc)"
proof -
  let ?m = "write_loop (sop_width x) a (RS2 p insn) (mmu p)"
  have "mmu_write (mmu p) a (RS2 p insn) (sop_width x) = Inr ?m"
    using assms(2) by (simp add: store_ok_def mmu_write_ok)
  moreover have "mem ?m = store_bytes (mem (mmu p)) a (sop_width x) (uint (RS2 p insn))"
    using assms(2) sop_width_le by (intro write_loop_store) (auto simp: store_ok_def)
  ultimately show ?thesis
    by (simp add: outcome_ok_def sop_handler assms(1,3) trying_def isa_of_set_pc isa_of_mmu next_pc_def
        same_rest_def wf_cpu_def)
qed

lemma bop_handler:
  "entry_handler (bop_entry x) p insn pc =
     (if bop_sem x (RS1 p insn) (RS2 p insn)
      then trying (set_pc (branch_target pc insn)) (\<lambda>npc. Inr (npc, p)) else Inr (pc + 4, p))"
  by (cases x) (simp_all add: insn_defs PC_INC_def Let_def word_sless_alt word_sle_eq word_less_alt word_le_def)

lemma jump_implements:
  assumes "even t" "isa_of q = g (isa_of p)" "same_rest p q"
    and "\<And>s. g (s\<lparr>ipc := t\<rparr>) = (g s)\<lparr>ipc := t\<rparr>"
  shows "outcome_ok p (map_sum id g (jump_to t (isa_of p))) (trying (set_pc t) (\<lambda>npc. Inr (npc, q)))"
proof -
  have "uint t mod 4 = 0 \<longleftrightarrow> \<not> bit t 1"
  proof -
    have "uint t mod 4 = int (unat t mod 4)" by (simp add: zmod_int)
    then show ?thesis using assms(1) by (simp add: aligned4_unat [symmetric] aligned4_iff)
  qed
  then show ?thesis
    using assms(2-)
    by (auto simp: outcome_ok_def jump_to_def set_pc_def and_2_iff trying_def isa_of_set_pc)
qed

definition insn_ok :: "insn \<Rightarrow> bool" where
  "insn_ok i \<longleftrightarrow> (case i of RType x _ _ _ \<Rightarrow> rop_ok x | _ \<Rightarrow> True)"

definition may_store :: "cpu_t \<Rightarrow> insn \<Rightarrow> bool" where
  "may_store p i \<longleftrightarrow> (case i of
     Store x rs1 rs2 imm \<Rightarrow> store_ok (mmu p) (READ_REG p (ucast rs1) + scast imm) (sop_width x)
   | _ \<Rightarrow> True)"

lemma same_rest_WRITE_REG: "same_rest p (WRITE_REG p r v)"
  by (simp add: same_rest_def WRITE_REG_def wf_cpu_def)

lemma fields_S [simp]:
  "insn_rs1 (scast (enc_S imm rs2 rs1 f3 opc)) = ucast rs1"
  "insn_rs2 (scast (enc_S imm rs2 rs1 f3 opc)) = ucast rs2"
  "insn_rs1 (scast (enc_B immb rs2 rs1 f3 opc)) = ucast rs1"
  "insn_rs2 (scast (enc_B immb rs2 rs1 f3 opc)) = ucast rs2"
  by (simp_all add: enc_S_def enc_B_def)

lemma u_imm_int: "u_imm (scast (enc_U imm rd opc)) = word_of_int (sint imm * 2 ^ 12)"
  by (simp add: u_imm_enc_U push_bit_eq_mult)

lemma even_imm: "even (scast (imm AND NOT 1) :: u64)" for imm :: "'a :: len word"
  unfolding even_bit_0 bit_signed_iff bit_and_iff bit_not_iff by simp

lemma even_target: "aligned4 pc \<Longrightarrow> even (pc + scast (imm AND NOT 1) :: u64)" for imm :: "'a :: len word"
  using even_imm [of imm] by (simp add: aligned4_iff)

lemma handler_implements:
  assumes wf: "wf_cpu p" and al: "aligned4 (state_pc (cpu_state p))"
    and ok: "insn_ok i" and st: "may_store p i"
  shows "outcome_ok p (exec i (isa_of p))
    (entry_handler (insn_entry i) p (scast (encode i)) (state_pc (cpu_state p)))"
proof (cases i)
  case (RType x rd rs1 rs2)
  then show ?thesis using wf ok
    by (auto simp: insn_ok_def RS1_def RS2_def split: prod.split
        intro!: rops.implements [unfolded RS1_def RS2_def])
next
  case (IType x rd rs1 imm)
  then show ?thesis using wf
    by (auto simp: RS1_def i_imm_enc_I split: prod.split intro!: iops.implements [unfolded RS1_def])
next
  case (ShiftI x rd rs1 sh)
  then show ?thesis using wf
    by (auto simp: RS1_def shamt_I split: prod.split intro!: shops.implements [unfolded RS1_def])
next
  case (ShiftIW x rd rs1 sh)
  moreover have "shwop_code x = (f7, f3) \<Longrightarrow> \<not> bit f7 0" for f7 f3
    by (cases x) auto
  ultimately show ?thesis using wf
    by (auto simp: RS1_def shamt_R split: prod.split intro!: shwops.implements [unfolded RS1_def])
next
  case (Load x rd rs1 imm)
  then show ?thesis using wf
    by (auto simp: RS1_def i_imm_enc_I load_value outcome_ok_def [of _ "Inl _"] split: option.split
        intro!: lops.implements [unfolded RS1_def])
next
  case (Store x rs1 rs2 imm)
  then show ?thesis using st
    using sop_implements [of p "scast (encode i)" "READ_REG p (ucast rs1) + scast imm" x]
    by (simp add: may_store_def RS1_def RS2_def s_imm_enc_S)
next
  case (Branch x rs1 rs2 imm)
  let ?t = "state_pc (cpu_state p) + scast (imm AND NOT 1)"
  have "outcome_ok p (map_sum id id (jump_to ?t (isa_of p))) (trying (set_pc ?t) (\<lambda>npc. Inr (npc, p)))"
    using even_target [OF al] by (rule jump_implements) (simp_all add: same_rest_def)
  then show ?thesis using Branch
    by (auto simp: bop_handler branch_target_def sb_imm_enc_B RS1_def RS2_def sum.map_id
        outcome_ok_def [of _ "Inr _"] isa_of_set_pc next_pc_def same_rest_def)
next
  case (Lui rd imm)
  then show ?thesis using wf uppers.implements [where x = False and p = p and insn = "scast (encode i)" and rd = rd]
    by (simp add: u_imm_int)
next
  case (Auipc rd imm)
  then show ?thesis using wf uppers.implements [where x = True and p = p and insn = "scast (encode i)" and rd = rd]
    by (simp add: u_imm_int add.commute)
next
  case (Jal rd imm)
  let ?pc = "state_pc (cpu_state p)" and ?i = "scast (encode i)"
  have "outcome_ok p (map_sum id (set_ireg rd (?pc + 4)) (jump_to (?pc + scast (imm AND NOT 1)) (isa_of p)))
      (trying (set_pc (?pc + scast (imm AND NOT 1))) (\<lambda>npc. Inr (npc, WRITE_RD p ?i (?pc + 4))))"
    using even_target [OF al] by (rule jump_implements)
      (use Jal wf in \<open>simp_all add: WRITE_RD_def isa_of_WRITE_REG same_rest_WRITE_REG set_ireg_def\<close>)
  then show ?thesis using Jal
    by (simp add: rv64_jal_def Let_def PC_INC_def jump_target_def uj_imm_enc_J)
next
  case (Jalr rd rs1 imm)
  let ?pc = "state_pc (cpu_state p)" and ?i = "scast (encode i)"
    and ?t = "(READ_REG p (ucast rs1) + scast imm) AND NOT 1"
  have "even ?t" by (simp add: even_and_iff)
  then have "outcome_ok p (map_sum id (set_ireg rd (?pc + 4)) (jump_to ?t (isa_of p)))
      (trying (set_pc ?t) (\<lambda>npc. Inr (npc, WRITE_RD p ?i (?pc + 4))))"
    by (rule jump_implements)
      (use Jalr wf in \<open>simp_all add: WRITE_RD_def isa_of_WRITE_REG same_rest_WRITE_REG set_ireg_def\<close>)
  then show ?thesis using Jalr
    by (simp add: rv64_jalr_def Let_def PC_INC_def RS1_def i_imm_enc_I)
qed

subsection \<open>The simulator implements the abstract machine\<close>

lemma step_once_encoded:
  assumes "holds_insn (mmu p) (state_pc (cpu_state p)) (encode i)"
  shows "\<exists>name. step_once os fpu p =
    (case entry_handler (insn_entry i) (p\<lparr>c_insn := scast (encode i), c_name := name,
        insn_count := count_insn name (insn_count p)\<rparr>) (scast (encode i)) (state_pc (cpu_state p)) of
       Inl s \<Rightarrow> Inl s | Inr (npc, p') \<Rightarrow> Inr (set_state_pc p' npc))"
proof -
  obtain name pat f where e: "insn_entry i = (name, pat, f)" by (cases "insn_entry i")
  then have "(name, pat, f) \<in> set (insn_list os fpu)" using insn_entry_in [of i] by simp
  with step_once_known [OF assms this encode_matches [OF e]] entry_names e show ?thesis
    by (intro exI [of _ name]) auto
qed

lemma step_implements:
  assumes "wf_cpu p" "aligned4 (state_pc (cpu_state p))" "insn_ok i" "may_store p i"
    and "holds_insn (mmu p) (state_pc (cpu_state p)) (encode i)"
  shows "case exec i (isa_of p) of
      Inr s' \<Rightarrow> \<exists>p'. step_once os fpu p = Inr p' \<and> isa_of p' = s' \<and> same_rest p p'
    | Inl (Misaligned t) \<Rightarrow> step_once os fpu p = Inl (Threw (trap_instruction_address_misaligned t))
    | Inl (Unmapped a) \<Rightarrow> True"
proof -
  obtain name where step: "step_once os fpu p =
    (case entry_handler (insn_entry i) (p\<lparr>c_insn := scast (encode i), c_name := name,
        insn_count := count_insn name (insn_count p)\<rparr>) (scast (encode i)) (state_pc (cpu_state p)) of
       Inl s \<Rightarrow> Inl s | Inr (npc, p') \<Rightarrow> Inr (set_state_pc p' npc))"
    using step_once_encoded [OF assms(5)] by blast
  let ?q = "p\<lparr>c_insn := scast (encode i), c_name := name, insn_count := count_insn name (insn_count p)\<rparr>"
  have q: "isa_of ?q = isa_of p" by (simp add: isa_of_def READ_REG_def)
  have "outcome_ok ?q (exec i (isa_of ?q))
      (entry_handler (insn_entry i) ?q (scast (encode i)) (state_pc (cpu_state ?q)))"
    using assms by (intro handler_implements) (auto simp: wf_cpu_def may_store_def READ_REG_def split: insn.splits)
  then show ?thesis
    unfolding q by (auto simp: step outcome_ok_def same_rest_def wf_cpu_def set_state_pc_def
        split: sum.splits trap.splits)
qed


lemma demo_wf: "wf_cpu (demo_cpu ws)" "aligned4 (state_pc (cpu_state (demo_cpu ws)))"
  by (simp_all add: wf_cpu_def wf_regs_def demo_cpu_def aligned4_unat)


subsection \<open>Programs\<close>

text \<open>
  A step of the abstract machine under a table of protected ranges: the instruction is the one
  its memory holds at the program counter, and a store goes to mapped memory and has neither
  end in a protected range.
\<close>

definition imem_holds :: "(u64 \<rightharpoonup> u8) \<Rightarrow> u64 \<Rightarrow> u32 \<Rightarrow> bool" where
  "imem_holds M a w \<longleftrightarrow> bytes_at M a 4 = Some (map (\<lambda>k. ucast (drop_bit (8 * k) w)) [0, 1, 2, 3])"

definition store_fits :: "(u64 \<times> u64) list \<Rightarrow> isa_t \<Rightarrow> insn \<Rightarrow> bool" where
  "store_fits B s i \<longleftrightarrow> (case i of
     Store x rs1 rs2 imm \<Rightarrow>
       (let a = ireg s rs1 + scast imm; z = a + of_nat (sop_width x) - 1
        in span a (sop_width x) \<subseteq> dom (imem s)
           \<and> list_all (\<lambda>(lo, hi). \<not> (lo \<le> a \<and> a \<le> hi) \<and> \<not> (lo \<le> z \<and> z \<le> hi)) B)
   | _ \<Rightarrow> True)"

inductive isa_step :: "(u64 \<times> u64) list \<Rightarrow> isa_t \<Rightarrow> isa_t \<Rightarrow> bool" for B where
  isa_stepI: "imem_holds (imem s) (ipc s) (encode i) \<Longrightarrow> insn_ok i \<Longrightarrow> store_fits B s i \<Longrightarrow>
    exec i s = Inr s' \<Longrightarrow> isa_step B s s'"

inductive_cases isa_stepE: "isa_step B s s'"

lemma imem_holds_insn: "imem_holds (mem m) a w \<Longrightarrow> holds_insn m a w"
  by (auto simp: imem_holds_def holds_insn_def eval_nat_numeral add.assoc split: option.splits)

lemma store_fits_may_store: "store_fits (forbid (mmu p)) (isa_of p) i \<Longrightarrow> may_store p i"
  by (auto simp: store_fits_def may_store_def store_ok_def Let_def ban_iff list_all_iff
      intro: mem_clear_mapped split: insn.splits)

lemma isa_step_simulated:
  assumes "isa_step (forbid (mmu p)) (isa_of p) s'" "wf_cpu p" "aligned4 (state_pc (cpu_state p))"
  shows "\<exists>p'. step_once os fpu p = Inr p' \<and> isa_of p' = s' \<and> same_rest p p'"
proof -
  obtain i where "imem_holds (mem (mmu p)) (state_pc (cpu_state p)) (encode i)" "insn_ok i"
    "store_fits (forbid (mmu p)) (isa_of p) i" "exec i (isa_of p) = Inr s'"
    using assms(1) by (elim isa_stepE) simp
  with step_implements [OF assms(2,3), of i os fpu] show ?thesis
    by (simp add: imem_holds_insn store_fits_may_store)
qed

lemma isa_steps_simulated:
  assumes "(isa_step B)\<^sup>*\<^sup>* s s'"
    and "s = isa_of p" "B = forbid (mmu p)" "wf_cpu p" "aligned4 (state_pc (cpu_state p))"
  shows "\<exists>n p'. iterate (step_once os fpu) n p = Inr p' \<and> isa_of p' = s' \<and> same_rest p p'"
  using assms
proof (induction arbitrary: p rule: converse_rtranclp_induct)
  case base
  then show ?case by (intro exI [of _ 0] exI [of _ p]) (simp add: same_rest_def)
next
  case (step s t)
  obtain q where q: "step_once os fpu p = Inr q" "isa_of q = t" "same_rest p q"
    using isa_step_simulated step by blast
  have "forbid (mmu q) = B" "wf_cpu q" "aligned4 (state_pc (cpu_state q))"
    using q(1,3) step.prems step_once_mmu step_once_aligned
    by (auto simp: mmu_evolves_def same_rest_def dest: step_once_mmu)
  with step.IH [of q] q obtain n p' where "iterate (step_once os fpu) n q = Inr p'" "isa_of p' = s'"
    "same_rest q p'" by auto
  with q show ?case
    by (intro exI [of _ "Suc n"] exI [of _ p']) (simp add: same_rest_def)
qed

text \<open>
  C2: every run of the abstract machine is a run of the simulator: whatever program of integer
  instructions the memory holds, and although it may store over itself where the table of
  protected ranges allows it, the simulator reaches the state the instruction set prescribes
  without stopping and without printing.
\<close>

theorem program_simulation:
  assumes "(isa_step (forbid (mmu p)))\<^sup>*\<^sup>* (isa_of p) s'" "wf_cpu p"
    and "aligned4 (state_pc (cpu_state p))"
  shows "\<exists>n p'. iterate (step_once os fpu) n p = Inr p' \<and> isa_of p' = s'
    \<and> FPR (cpu_state p') = FPR (cpu_state p) \<and> history p' = history p"
  using isa_steps_simulated [OF assms(1) refl refl assms(2,3), of os fpu] by (auto simp: same_rest_def)

lemma words_at_nth: "k < 4 * length ws \<Longrightarrow> k < 2 ^ 64 \<Longrightarrow>
    words_at a ws (a + of_nat k) = Some (ucast (drop_bit (8 * (k mod 4)) (ws ! (k div 4))))"
  by (simp add: words_at_def unat_of_nat take_bit_nat_eq_self)

lemma words_at_holds:
  fixes a :: u64
  assumes "i < length ws" "4 * length ws \<le> 2 ^ 64"
  shows "imem_holds (words_at a ws) (a + of_nat (4 * i)) (ws ! i)"
proof -
  have "words_at a ws (a + of_nat (4 * i) + of_nat k) = Some (ucast (drop_bit (8 * k) (ws ! i)))"
    if "k < 4" for k
    using words_at_nth [of "4 * i + k" ws a] assms that by (simp add: add.assoc)
  note this [of 0] this [of 1] this [of 2] this [of 3]
  then show ?thesis by (simp add: imem_holds_def eval_nat_numeral add.assoc)
qed

lemma demo_two_words:
  "imem_holds (mem (mmu (demo_cpu [w0, w1]))) 0x1000 w0"
  "imem_holds (mem (mmu (demo_cpu [w0, w1]))) 0x1004 w1"
  using words_at_holds [where i = 0 and ws = "[w0, w1]" and a = "0x1000"] words_at_holds [where i = 1 and ws = "[w0, w1]" and a = "0x1000"]
  by (simp_all add: demo_cpu_def demo_mmu_def)

definition demo_add :: "insn list" where
  "demo_add = [IType ADDI 1 0 5, RType ADD 2 1 1]"

lemma demo_add_run:
  "\<exists>s'. (isa_step B)\<^sup>*\<^sup>* (isa_of (demo_cpu (map encode demo_add))) s' \<and> ireg s' 2 = 10"
proof -
  let ?s = "isa_of (demo_cpu (map encode demo_add))"
  define t where "t = next_pc (set_ireg 1 5 ?s)"
  define u where "u = next_pc (set_ireg 2 10 t)"
  have s: "ipc ?s = 0x1000" "ireg ?s 0 = 0"
    by (simp_all add: demo_cpu_def READ_REG_def regfile_get_def)
  have t: "ipc t = 0x1004" "ireg t 1 = 5" "imem t = imem ?s"
    using s by (simp_all add: t_def next_pc_def set_ireg_def)
  have m: "imem ?s = mem (mmu (demo_cpu [encode (IType ADDI 1 0 5), encode (RType ADD 2 1 1)]))"
    by (simp only: isa_of_simps demo_add_def list.map)
  have "isa_step B ?s t"
  proof (rule isa_stepI [where i = "IType ADDI 1 0 5"])
    show "imem_holds (imem ?s) (ipc ?s) (encode (IType ADDI 1 0 5))"
      unfolding m s by (rule demo_two_words)
    show "exec (IType ADDI 1 0 5) ?s = Inr t" using s by (simp add: t_def)
  qed (simp_all add: insn_ok_def store_fits_def)
  moreover have "isa_step B t u"
  proof (rule isa_stepI [where i = "RType ADD 2 1 1"])
    show "imem_holds (imem t) (ipc t) (encode (RType ADD 2 1 1))"
      unfolding t m by (rule demo_two_words)
    show "exec (RType ADD 2 1 1) t = Inr u" using t by (simp add: u_def)
  qed (simp_all add: insn_ok_def rop_ok_def store_fits_def)
  moreover have "ireg u 2 = 10" by (simp add: u_def next_pc_def set_ireg_def)
  ultimately show ?thesis by (meson converse_rtranclp_into_rtranclp r_into_rtranclp)
qed

theorem program_simulation_witness:
  "\<exists>n p'. iterate (step_once demo_os demo_fpu) n (demo_cpu (map encode demo_add)) = Inr p'
     \<and> ireg (isa_of p') 2 = 10 \<and> history p' = []"
proof -
  let ?p = "demo_cpu (map encode demo_add)"
  obtain s' where s': "(isa_step (forbid (mmu ?p)))\<^sup>*\<^sup>* (isa_of ?p) s'" "ireg s' 2 = 10"
    using demo_add_run by blast
  from program_simulation [OF s'(1) demo_wf, of demo_os demo_fpu]
  obtain n p' where "iterate (step_once demo_os demo_fpu) n ?p = Inr p'" "isa_of p' = s'"
    "history p' = history ?p" by blast
  moreover have "history ?p = []" by (simp add: demo_cpu_def)
  ultimately show ?thesis using s'(2) by (intro exI [of _ n] exI [of _ p']) simp
qed

subsection \<open>Where the simulator differs\<close>

lemma i_imm_enc_R0: "i_imm (scast (enc_R 0 rs2 rs1 f3 rd opc)) = ucast rs2"
proof (rule word64_eqI)
  fix n :: nat assume "n < 64"
  then show "bit (i_imm (scast (enc_R 0 rs2 rs1 f3 rd opc))) n = bit (ucast rs2 :: u64) n"
    by (auto simp: i_imm_def bit_simps bit_enc min_def dest: bit_imp_le_length)
qed

text \<open>
  C31: \<open>sltu\<close> compares its first operand with the number of its second register instead of
  that register's value, and \<open>sllw\<close> shifts all 64 bits by up to 63 places, exactly as \<open>sll\<close>.
\<close>

theorem sltu_sllw_as_coded:
  assumes "wf_cpu p" "x = SLTU \<or> x = SLLW"
    and "holds_insn (mmu p) (state_pc (cpu_state p)) (encode (RType x rd rs1 rs2))"
  shows "\<exists>p'. step_once os fpu p = Inr p' \<and> isa_of p' = next_pc (set_ireg rd
    (if x = SLTU then of_bool (READ_REG p (ucast rs1) < ucast rs2)
     else rop_sem SLL (READ_REG p (ucast rs1)) (READ_REG p (ucast rs2))) (isa_of p))"
proof -
  obtain name where step: "step_once os fpu p =
    (case entry_handler (insn_entry (RType x rd rs1 rs2)) (p\<lparr>c_insn := scast (encode (RType x rd rs1 rs2)),
        c_name := name, insn_count := count_insn name (insn_count p)\<rparr>)
        (scast (encode (RType x rd rs1 rs2))) (state_pc (cpu_state p)) of
       Inl s \<Rightarrow> Inl s | Inr (npc, p') \<Rightarrow> Inr (set_state_pc p' npc))"
    using step_once_encoded [OF assms(3)] by blast
  let ?q = "p\<lparr>c_insn := scast (encode (RType x rd rs1 rs2)), c_name := name,
      insn_count := count_insn name (insn_count p)\<rparr>"
  have q: "isa_of ?q = isa_of p" "wf_cpu ?q" "READ_REG ?q = READ_REG p"
    using assms(1) by (simp_all add: isa_of_def READ_REG_def wf_cpu_def fun_eq_iff)
  from assms(2) show ?thesis
  proof
    assume x: "x = SLTU"
    then show ?thesis
      using q isa_of_WRITE_REG [OF q(2)] unfolding step
      by (simp add: insn_defs Let_def WRITE_RD_def RS1_def i_imm_enc_R0 PC_INC_def isa_of_set_pc
          next_pc_def set_ireg_def)
  next
    assume x: "x = SLLW"
    then show ?thesis
      using q isa_of_WRITE_REG [OF q(2)] unfolding step
      by (simp add: insn_defs Let_def WRITE_RD_def RS1_def RS2_def PC_INC_def isa_of_set_pc
          next_pc_def set_ireg_def xlen_mask shift_amounts push_bit_int)
  qed
qed

theorem sltu_sllw_as_coded_witness:
  "\<exists>p'. step_once demo_os demo_fpu (demo_cpu [encode (RType SLTU 3 1 2)]) = Inr p'
     \<and> ireg (isa_of p') 3 = 1
     \<and> rop_sem SLTU (READ_REG (demo_cpu [encode (RType SLTU 3 1 2)]) 1)
         (READ_REG (demo_cpu [encode (RType SLTU 3 1 2)]) 2) = 0"
proof -
  let ?p = "demo_cpu [encode (RType SLTU 3 1 2)]"
  have h: "holds_insn (mmu ?p) (state_pc (cpu_state ?p)) (encode (RType SLTU 3 1 2))"
    using demo_holds [of "[encode (RType SLTU 3 1 2)]"] by (simp add: demo_cpu_def)
  have r: "READ_REG ?p 1 = 0" "READ_REG ?p 2 = 0"
    by (simp_all add: READ_REG_def regfile_get_def demo_cpu_def)
  from sltu_sllw_as_coded [OF demo_wf(1) _ h, of demo_os demo_fpu]
  obtain p' where p': "step_once demo_os demo_fpu ?p = Inr p'"
    "isa_of p' = next_pc (set_ireg 3 (of_bool (READ_REG ?p (ucast (1 :: reg5)) < ucast (2 :: reg5))) (isa_of ?p))"
    by auto
  have "ireg (isa_of p') 3 = 1" unfolding p'(2) using r by (simp add: next_pc_def set_ireg_def)
  with p'(1) r show ?thesis by (intro exI [of _ p']) simp
qed

end
