(* ===== verification/Syscalls.thy ===== *)
theory Syscalls
  imports Refinement
begin

unbundle bit_operations_syntax

text \<open>
  What the instructions outside the abstract machine do: loads in general, the system calls,
  and the floating-point instructions that only move bits.
\<close>

subsection \<open>Loads\<close>

text \<open>
  C24: a load never fails. It takes the bytes it finds at its addresses, lowest first, puts
  them together as a little-endian number and zero- or sign-extends that from the width of the
  load. Bytes that are not mapped are passed over, and the bytes above them move down; when
  all are mapped this is the load of the instruction set.
\<close>

theorem load_correct:
  assumes "n \<in> {1, 2, 4, 8}"
  shows "mmu_read m a False n = word_of_int (le_val (found m a n))
    \<and> mmu_read m a True n = word_of_int (signed_take_bit (8 * n - 1) (le_val (found m a n)))
    \<and> length (found m a n) \<le> n
    \<and> (\<forall>bs. bytes_at (mem m) a n = Some bs \<longrightarrow> found m a n = bs)"
proof -
  have "8 * n - 1 < 64" using assms by auto
  then show ?thesis using assms
    by (simp add: mmu_read_unsigned mmu_read_signed le_join_int signed_take_bit_int length_found
        bytes_at_found)
qed

theorem load_correct_witness:
  "mmu_read ((demo_mmu [])\<lparr>mem := [0x2001 \<mapsto> 0x44]\<rparr>) 0x2000 False 2 = 0x44"
proof -
  have "found ((demo_mmu [])\<lparr>mem := [0x2001 \<mapsto> 0x44]\<rparr>) 0x2000 (Suc (Suc 0)) = [0x44]"
    by (simp add: found_Suc find_it_def demo_mmu_def)
  then have "found ((demo_mmu [])\<lparr>mem := [0x2001 \<mapsto> 0x44]\<rparr>) 0x2000 2 = [0x44]"
    by (simp only: numeral_2_eq_2)
  then show ?thesis
    using load_correct [of 2 "(demo_mmu [])\<lparr>mem := [0x2001 \<mapsto> 0x44]\<rparr>" "0x2000"] by simp
qed

subsection \<open>System calls\<close>

lemma bytes_at_nth: "bytes_at M a n = Some bs \<Longrightarrow> i < n \<Longrightarrow> M (a + of_nat i) = Some (bs ! i)"
proof (induction M a n arbitrary: bs i rule: bytes_at.induct)
  case (2 M a n)
  then obtain b bs' where *: "M a = Some b" "bytes_at M (a + 1) n = Some bs'" "bs = b # bs'"
    by (auto split: option.splits)
  show ?case
  proof (cases i)
    case (Suc j)
    then have "M (a + 1 + of_nat j) = Some (bs' ! j)" using 2 * by simp
    with Suc * show ?thesis by (simp add: add.assoc)
  qed (use * in simp)
qed simp

lemma read_uint8_mapped: "mem m a = Some b \<Longrightarrow> read_uint8 m a = ucast b"
  by (simp add: read_uint8_def mmu_read_unsigned found_Suc find_it_def)

lemma ucast_u8_u64 [simp]: "(ucast (ucast b :: u64) :: u8) = b"
  by (rule bit_word_eqI) (simp add: bit_simps)

text \<open>
  C21: the \<^verbatim>\<open>write\<close> call passes the bytes the program's memory holds from register 11 on, as
  many as register 12 says, to the host, once, and returns the host's answer in register 10;
  nothing else of the machine changes.
\<close>

theorem scall_write:
  assumes "wf_cpu p" "READ_REG p 17 = 64"
    and "bytes_at (mem (mmu p)) (READ_REG p 11) (unat (READ_REG p 12)) = Some bs"
  shows "\<exists>p'. rv64_scall os p insn pc = Inr (pc + 4, p')
    \<and> history p' = HostWrite bs # history p
    \<and> isa_of p' = set_ireg 10 (os_write os (history p) bs) (isa_of p)
    \<and> FPR (cpu_state p') = FPR (cpu_state p) \<and> mmu p' = mmu p"
proof -
  let ?n = "unat (READ_REG p 12)" and ?a = "READ_REG p 11"
  have "ucast (read_uint8 (mmu p) (?a + of_nat i)) = bs ! i" if "i < ?n" for i
    using read_uint8_mapped [OF bytes_at_nth [OF assms(3) that]] by simp
  then have bs: "map (\<lambda>i. ucast (read_uint8 (mmu p) (?a + of_nat i))) [0..<?n] = bs"
    using bytes_at_length [OF assms(3)] by (intro nth_equalityI) auto
  define q where "q = log_event (HostWrite bs) p"
  have q: "wf_cpu q" "isa_of q = isa_of p" "history q = HostWrite bs # history p"
    "FPR (cpu_state q) = FPR (cpu_state p)" "mmu q = mmu p"
    using assms(1) by (simp_all add: q_def log_event_def wf_cpu_def isa_of_def READ_REG_def)
  have r: "rv64_scall os p insn pc = Inr (pc + 4, WRITE_REG q 10 (os_write os (history p) bs))"
    by (simp add: rv64_scall_def assms(2) SIM_write_def bs PC_INC_def q_def)
  have "isa_of (WRITE_REG q 10 v) = set_ireg 10 v (isa_of p)" for v
    using isa_of_WRITE_REG [OF q(1), of 10 v] q(2) by simp
  with r q show ?thesis
    by (intro exI [of _ "WRITE_REG q 10 (os_write os (history p) bs)"]) (simp add: WRITE_REG_def)
qed

definition demo_call :: "u64 \<Rightarrow> u64 \<Rightarrow> u64 \<Rightarrow> u64 \<Rightarrow> cpu_t" where
  "demo_call num a0 a1 a2 = (demo_cpu [0x6c6c6548])\<lparr>cpu_state := \<lparr>state_pc = 0x1000,
     XPR = (replicate 32 0)[17 := num, 10 := a0, 11 := a1, 12 := a2],
     FPR = replicate 32 0, fflags = 0, frm = 0\<rparr>\<rparr>"

lemma demo_call_simps [simp]:
  "wf_cpu (demo_call num a0 a1 a2)" "READ_REG (demo_call num a0 a1 a2) 17 = num"
  "READ_REG (demo_call num a0 a1 a2) 10 = a0" "READ_REG (demo_call num a0 a1 a2) 11 = a1"
  "READ_REG (demo_call num a0 a1 a2) 12 = a2" "mmu (demo_call num a0 a1 a2) = demo_mmu [0x6c6c6548]"
  "history (demo_call num a0 a1 a2) = []"
  by (simp_all add: demo_call_def wf_cpu_def wf_regs_def READ_REG_def regfile_get_def demo_cpu_def)

theorem scall_write_witness:
  "\<exists>p'. rv64_scall demo_os (demo_call 64 0 0x1000 2) 0x73 0x1000 = Inr (0x1004, p')
     \<and> history p' = [HostWrite [0x48, 0x65]]"
proof -
  have "bytes_at (mem (demo_mmu [0x6c6c6548])) 0x1000 (Suc (Suc 0)) = Some [0x48, 0x65]"
    by (simp add: demo_mmu_def words_at_def)
  then have "bytes_at (mem (demo_mmu [0x6c6c6548])) 0x1000 2 = Some [0x48, 0x65]"
    by (simp only: numeral_2_eq_2)
  then show ?thesis
    using scall_write [of "demo_call 64 0 0x1000 2" "[0x48, 0x65]" demo_os "0x73" "0x1000"] by auto
qed

lemma sim_read_loop_put:
  "(\<forall>i < length bs. \<not> ban m (a + of_nat i)) \<Longrightarrow>
   sim_read_loop a bs m = Inr (put_list store_it m a bs)"
proof (induction bs arbitrary: a m)
  case (Cons b bs)
  have "\<not> ban m a" using Cons.prems by (auto dest: spec [of _ 0])
  moreover have "(ucast (scast b :: u64) :: u8) = b"
  proof (rule bit_word_eqI)
    fix n :: nat assume "n < LENGTH(8)"
    then show "bit (ucast (scast b :: u64) :: u8) n = bit b n"
      by (cases "n = 7") (auto simp: bit_simps min_def)
  qed
  ultimately have w: "write_8 m a (scast b) = Inr (store_it m a b)"
    by (simp add: write_8_def mmu_write_ok write_loop_put)
  have "\<not> ban (store_it m a b) (a + 1 + of_nat i)" if "i < length bs" for i
    using Cons.prems [rule_format, of "Suc i"] that by (simp add: ban_def add.assoc)
  with Cons.IH w show ?case by simp
qed simp



lemma scall_gettimeofday:
  assumes "wf_cpu p" "READ_REG p 17 = 169" "os_gettimeofday os (history p) = (ret, tv)" "8 \<le> length tv"
    and "mem_clear (mmu p) (span (READ_REG p 10) 8)" "\<forall>i < 8. \<not> ban (mmu p) (READ_REG p 10 + of_nat i)"
  shows "\<exists>p'. rv64_scall os p insn pc = Inr (pc + 4, p') \<and> READ_REG p' 10 = scast ret
    \<and> (\<forall>i < 8. mem (mmu p') (READ_REG p 10 + of_nat i) = Some (tv ! i))
    \<and> (\<forall>a. a \<notin> span (READ_REG p 10) 8 \<longrightarrow> mem (mmu p') a = mem (mmu p) a)"
proof -
  let ?a = "READ_REG p 10" and ?bs = "take 8 tv"
  let ?q = "WRITE_REG (log_event HostGettimeofday p) 10 (scast ret)"
  let ?m = "put_list store_it (mmu p) ?a ?bs"
  have l: "length ?bs = 8" using assms(4) by simp
  have q: "mmu ?q = mmu p" by (simp add: WRITE_REG_def log_event_def)
  have "\<not> ban (mmu p) ?a" "\<not> ban (mmu p) (?a + 7)"
    using assms(6)[rule_format, of 0] assms(6)[rule_format, of 7] by simp_all
  then have w: "write_bare (mmu ?q) ?a tv 8 = Inr ?m"
    by (simp add: q write_bare_def write_bare_loop_put add_diff_eq [symmetric])
  have "rv64_scall os p insn pc = Inr (pc + 4, ?q\<lparr>mmu := ?m\<rparr>)"
    using assms(2,3) w by (simp add: rv64_scall_def trying_def PC_INC_def)
  moreover have "READ_REG (?q\<lparr>mmu := ?m\<rparr>) 10 = scast ret"
    using assms(1) by (simp add: READ_REG_def WRITE_REG_def log_event_def wf_cpu_def xregs.get_put)
  moreover have "mem ?m (?a + of_nat i) = Some (tv ! i)" if "i < 8" for i
    using assms(5) that l mbytes.get_put_list_in [of "mmu p" "span ?a 8" ?a ?bs i] by simp
  moreover have "mem ?m a = mem (mmu p) a" if "a \<notin> span ?a 8" for a
    using that mbytes.get_put_list_out [of ?bs a ?a "mmu p"] unfolding l by simp
  ultimately show ?thesis by auto
qed

text \<open>
  C23: the \<^verbatim>\<open>exit\<close> call stops the simulator with status 0 after listing the counters; \<^verbatim>\<open>brk\<close>,
  \<^verbatim>\<open>lseek\<close> and \<^verbatim>\<open>close\<close> do nothing, not even set the result register; and a call number the
  simulator does not know stops it with status 1 after printing the number. \<^verbatim>\<open>gettimeofday\<close> stores
  only the first eight of the sixteen bytes of the host's structure.
\<close>

theorem scall_control:
  "(READ_REG p 17 = 93 \<longrightarrow> rv64_scall os p insn pc
       = Inl (Exited 0 (p\<lparr>history := PrintCounts (print_count (insn_count p)) # history p\<rparr>)))
   \<and> (READ_REG p 17 \<in> {214, 62, 57} \<longrightarrow> rv64_scall os p insn pc = Inr (pc + 4, p))
   \<and> (READ_REG p 17 \<notin> {64, 63, 1062, 93, 214, 62, 80, 57, 169} \<longrightarrow> rv64_scall os p insn pc
       = Inl (Exited 1 (p\<lparr>history := PrintUnknownCall (READ_REG p 17) # history p\<rparr>)))
   \<and> (wf_cpu p \<and> READ_REG p 17 = 169 \<and> os_gettimeofday os (history p) = (ret, tv) \<and> 8 \<le> length tv
        \<and> mem_clear (mmu p) (span (READ_REG p 10) 8)
        \<and> (\<forall>i < 8. \<not> ban (mmu p) (READ_REG p 10 + of_nat i)) \<longrightarrow>
      (\<exists>p'. rv64_scall os p insn pc = Inr (pc + 4, p') \<and> READ_REG p' 10 = scast ret
         \<and> (\<forall>i < 8. mem (mmu p') (READ_REG p 10 + of_nat i) = Some (tv ! i))
         \<and> (\<forall>a. a \<notin> span (READ_REG p 10) 8 \<longrightarrow> mem (mmu p') a = mem (mmu p) a)))"
  using scall_gettimeofday [of p os ret tv] by (auto simp: rv64_scall_def Let_def PC_INC_def log_event_def)

theorem scall_control_witness:
  "rv64_scall demo_os (demo_call 7 0 0 0) 0x73 0x1000
     = Inl (Exited 1 ((demo_call 7 0 0 0)\<lparr>history := [PrintUnknownCall 7]\<rparr>))
   \<and> rv64_scall demo_os (demo_call 57 0 0 0) 0x73 0x1000 = Inr (0x1004, demo_call 57 0 0 0)"
  using scall_control [of "demo_call 7 0 0 0" demo_os "0x73" "0x1000"]
    scall_control [of "demo_call 57 0 0 0" demo_os "0x73" "0x1000"] by simp

subsection \<open>Floating-point bit patterns\<close>

text \<open>
  C36: the instructions that move bits are exact: \<open>fmv.d.x\<close> and \<open>fmv.x.d\<close> copy all 64 bits
  between the register files, \<open>fmv.s.x\<close> the lower 32 with the upper half zero, and \<open>fsgnj.d\<close>
  takes the sign bit of its second operand and every other bit of its first. Only the
  destination changes, register zero of the integer file excepted.
\<close>

theorem fp_moves:
  assumes "wf_cpu p"
  shows "(\<exists>p'. rv64_fmv_d_x p insn pc = Inr (pc + 4, p') \<and> READ_REG p' = READ_REG p
      \<and> (\<forall>r. unat r < 32 \<longrightarrow> READ_FREG p' r = (if r = insn_rd insn then RS1 p insn else READ_FREG p r)))
   \<and> (\<exists>p'. rv64_fmv_x_d p insn pc = Inr (pc + 4, p') \<and> READ_FREG p' = READ_FREG p
      \<and> (\<forall>r. unat r < 32 \<longrightarrow> READ_REG p' r = (if r = insn_rd insn \<and> r \<noteq> 0 then FRS1 p insn else READ_REG p r)))
   \<and> (\<exists>p'. rv64_fmv_s_x p insn pc = Inr (pc + 4, p') \<and> READ_REG p' = READ_REG p
      \<and> (\<forall>r. unat r < 32 \<longrightarrow> READ_FREG p' r =
           (if r = insn_rd insn then take_bit 32 (RS1 p insn) else READ_FREG p r)))
   \<and> (\<exists>p'. rv64_fsgnj_d p insn pc = Inr (pc + 4, p') \<and> READ_REG p' = READ_REG p
      \<and> (\<forall>n < 64. bit (READ_FREG p' (insn_rd insn)) n = bit (if n = 63 then FRS2 p insn else FRS1 p insn) n)
      \<and> (\<forall>r. unat r < 32 \<and> r \<noteq> insn_rd insn \<longrightarrow> READ_FREG p' r = READ_FREG p r))"
proof -
  have f: "READ_FREG (WRITE_FREG p (insn_rd insn) v) r = (if r = insn_rd insn then v else READ_FREG p r)"
    if "unat r < 32" for r v
    using assms that by (simp add: READ_FREG_def WRITE_FREG_def wf_cpu_def fregs.get_put)
  have x: "READ_REG (WRITE_REG p (insn_rd insn) v) r
      = (if r = insn_rd insn \<and> r \<noteq> 0 then v else READ_REG p r)" if "unat r < 32" for r v
    using assms that by (auto simp: READ_REG_def WRITE_REG_def wf_cpu_def xregs.get_put)
  have k: "READ_REG (WRITE_FREG p (insn_rd insn) v) = READ_REG p"
    "READ_FREG (WRITE_REG p (insn_rd insn) v) = READ_FREG p" for v
    by (simp_all add: fun_eq_iff READ_REG_def READ_FREG_def WRITE_FREG_def WRITE_REG_def)
  have z: "zext32 v = take_bit 32 v" for v
    by (rule word64_eqI) (auto simp: zext32_def bit_simps)
  have c: "(0x8000000000000000 :: u64) = push_bit 63 1" by (simp add: push_bit_eq_mult)
  have s: "bit ((a AND NOT 0x8000000000000000) OR (b AND 0x8000000000000000)) n
      = bit (if n = 63 then b else a) n" if "n < 64" for a b :: u64 and n
    using that unfolding c by (auto simp: bit_simps simp del: push_bit_of_1)
  note d = rv64_fmv_d_x_def rv64_fmv_x_d_def rv64_fmv_s_x_def rv64_fsgnj_d_def Let_def PC_INC_def
    WRITE_FRD_def WRITE_RD_def sext_xlen_id sum.inject prod.inject
  show ?thesis
    unfolding d using s by (auto simp: f x k z)
qed

theorem fp_moves_witness:
  "\<exists>p'. rv64_fmv_d_x (demo_call 0 5 0 0) 0xf20500d3 0x1000 = Inr (0x1004, p') \<and> READ_FREG p' 1 = 5"
proof -
  have "insn_rd 0xf20500d3 = 1" "insn_rs1 0xf20500d3 = 10"
    by (simp_all add: insn_rd_def insn_rs1_def insn_x_def)
  then show ?thesis using fp_moves [of "demo_call 0 5 0 0" "0xf20500d3" "0x1000"] by (auto simp: RS1_def)
qed

end
