(* ===== verification/Progress.thy ===== *)
theory Progress
  imports Refinement Syscalls Boot
begin

unbundle bit_operations_syntax

text \<open>
  Typing and liveness of runs: the register files keep their sizes and no step is stuck; a
  run that comes back to the same registers, memory and history goes on forever; and a program
  that, on the abstract machine, comes to the exit call makes the process end with status 0.
\<close>

subsection \<open>Typing\<close>

text \<open>
  C12: typing is kept and gives progress: over a run the register files keep 32 registers, so
  every register number of an instruction word is an index of its array and every shift amount
  is in range; decoding never leaves the table; and the next round either stops for one of the
  expected reasons or gives a machine that is well typed again.
\<close>

theorem run_type_sound:
  assumes "wf_cpu p" "iterate (step_once os fpu) n p = Inr p'"
  shows "wf_cpu p'
    \<and> (\<forall>b. unat (insn_rd b) < length (XPR (cpu_state p')) \<and> unat (insn_rs1 b) < length (XPR (cpu_state p'))
         \<and> unat (insn_rs2 b) < length (XPR (cpu_state p')) \<and> unat (insn_rd b) < length (FPR (cpu_state p'))
         \<and> unat (insn_rs1 b) < length (FPR (cpu_state p')) \<and> unat (insn_rs2 b) < length (FPR (cpu_state p'))
         \<and> unat (insn_rs3 b) < length (FPR (cpu_state p')) \<and> unat (shamt b) < 64
         \<and> decode_insn os fpu b \<noteq> None)
    \<and> (case step_once os fpu p' of Inl s \<Rightarrow> expected_stop s | Inr p'' \<Rightarrow> wf_cpu p'')"
proof -
  have w: "wf_cpu p'" using run_wf.inv_iterate [OF assms(2,1)] .
  then have "length (XPR (cpu_state p')) = 32" "length (FPR (cpu_state p')) = 32"
    by (simp_all add: wf_cpu_def wf_regs_def)
  moreover have "case step_once os fpu p' of Inl s \<Rightarrow> expected_stop s | Inr p'' \<Rightarrow> wf_cpu p''"
    using run_wf.inv_step [OF w] by (auto intro: step_once_stop split: sum.split)
  ultimately show ?thesis using w unat_shamt by simp
qed

theorem run_type_sound_witness:
  "\<exists>p'. iterate (step_once demo_os demo_fpu) 1 (demo_cpu [0x00500093]) = Inr p' \<and> wf_cpu p'
     \<and> unat (insn_rd 0xFFFFFFFFFFFFFFFF) < length (XPR (cpu_state p'))"
proof -
  obtain p' where "iterate (step_once demo_os demo_fpu) 1 (demo_cpu [0x00500093]) = Inr p'"
    unfolding demo_addi_iterate demo_addi by blast
  with run_type_sound [OF demo_wf(1) this] show ?thesis by blast
qed

subsection \<open>What a step depends on\<close>

text \<open>
  The fields \<^verbatim>\<open>c_insn\<close> and \<^verbatim>\<open>c_desc\<close> and the counters do not influence a step that goes on: a
  machine that differs in them makes the same step.
\<close>

definition tag :: "u64 \<Rightarrow> string \<Rightarrow> (string \<times> u32) list \<Rightarrow> cpu_t \<Rightarrow> cpu_t" where
  "tag a b c p = p\<lparr>c_insn := a, c_name := b, insn_count := c\<rparr>"

lemma tag_reads [simp]:
  "cpu_state (tag a b c p) = cpu_state p" "mmu (tag a b c p) = mmu p" "history (tag a b c p) = history p"
  "READ_REG (tag a b c p) = READ_REG p" "READ_FREG (tag a b c p) = READ_FREG p"
  "RS1 (tag a b c p) = RS1 p" "RS2 (tag a b c p) = RS2 p"
  "FRS1 (tag a b c p) = FRS1 p" "FRS2 (tag a b c p) = FRS2 p" "FRS3 (tag a b c p) = FRS3 p"
  by (simp_all add: tag_def fun_eq_iff READ_REG_def READ_FREG_def RS1_def RS2_def FRS1_def FRS2_def FRS3_def)

lemma tag_updates [simp]:
  "WRITE_REG (tag a b c p) r v = tag a b c (WRITE_REG p r v)"
  "WRITE_FREG (tag a b c p) r v = tag a b c (WRITE_FREG p r v)"
  "WRITE_RD (tag a b c p) i v = tag a b c (WRITE_RD p i v)"
  "WRITE_FRD (tag a b c p) i v = tag a b c (WRITE_FRD p i v)"
  "(tag a b c p)\<lparr>mmu := m\<rparr> = tag a b c (p\<lparr>mmu := m\<rparr>)"
  "log_event e (tag a b c p) = tag a b c (log_event e p)"
  "set_state_pc (tag a b c p) v = tag a b c (set_state_pc p v)"
  by (simp_all add: tag_def WRITE_REG_def WRITE_FREG_def WRITE_RD_def WRITE_FRD_def log_event_def set_state_pc_def)

definition tag_ok :: "insn_func \<Rightarrow> bool" where
  "tag_ok f \<longleftrightarrow> (\<forall>p insn pc npc p' a b c. f p insn pc = Inr (npc, p') \<longrightarrow>
     f (tag a b c p) insn pc = Inr (npc, tag a b c p'))"

lemma scall_tag: "tag_ok (rv64_scall os)"
  by (auto simp: tag_ok_def rv64_scall_def SIM_write_def SIM_read_def Let_def trying_Inr trying_Inl
      split: if_splits sum.splits prod.splits option.splits)

lemma handlers_tag: "d \<in> set (instructions os fpu) \<Longrightarrow> tag_ok (desc_rv64 d)"
  unfolding instructions_def registered_def insn_list_def illegal_desc_def
  by (auto simp: tag_ok_def insn_defs Let_def trying_Inr scall_tag [unfolded tag_ok_def] split: if_splits)

lemma fetch_decode_tag:
  "fetch_decode d bits (tag a b c p) =
     tag bits (desc_name d) (count_insn (desc_name d) c) (fetch_decode d bits p)"
  by (simp add: fetch_decode_def tag_def Let_def log_event_def)

lemma step_once_tag:
  assumes "step_once os fpu p = Inr p'"
  shows "\<exists>a' b' c'. step_once os fpu (tag a b c p) = Inr (tag a' b' c' p')"
proof -
  obtain bits d npc p1 where l: "load_insn (mmu p) (state_pc (cpu_state p)) = Inr bits"
    "decode_insn os fpu bits = Some d" "d \<in> set (instructions os fpu)"
    "desc_rv64 d (fetch_decode d bits p) bits (state_pc (cpu_state p)) = Inr (npc, p1)"
    "p' = set_state_pc p1 npc"
    using assms by (rule step_once_InrE)
  let ?t = "tag bits (desc_name d) (count_insn (desc_name d) c)"
  have "desc_rv64 d (?t (fetch_decode d bits p)) bits (state_pc (cpu_state p)) = Inr (npc, ?t p1)"
    using handlers_tag [OF l(3)] l(4) unfolding tag_ok_def by blast
  then have "step_once os fpu (tag a b c p) = Inr (?t p')"
    unfolding step_once_Inr using l by (auto simp: fetch_decode_tag)
  then show ?thesis by blast
qed

lemma iterate_tag:
  "iterate (step_once os fpu) n p = Inr p' \<Longrightarrow>
   \<exists>a' b' c'. iterate (step_once os fpu) n (tag a b c p) = Inr (tag a' b' c' p')"
proof (induction n arbitrary: p a b c)
  case (Suc n)
  then obtain p1 where p1: "step_once os fpu p = Inr p1" "iterate (step_once os fpu) n p1 = Inr p'"
    by (auto split: sum.splits)
  obtain a1 b1 c1 where "step_once os fpu (tag a b c p) = Inr (tag a1 b1 c1 p1)"
    using step_once_tag [OF p1(1)] by blast
  then show ?case using Suc.IH [OF p1(2), of a1 b1 c1] by simp
qed auto

lemma tag_tag [simp]: "tag a b c (tag a' b' c' p) = tag a b c p"
  by (simp add: tag_def)

lemma tag_self: "cpu_state q = cpu_state p \<Longrightarrow> mmu q = mmu p \<Longrightarrow> history q = history p \<Longrightarrow>
  q = tag (c_insn q) (c_name q) (insn_count q) p"
  by (rule cpu_t.equality) (simp_all add: tag_def)

lemma lasso_rounds:
  assumes "iterate (step_once os fpu) n p = Inr (tag a b c p)"
  shows "\<exists>a' b' c'. iterate (step_once os fpu) (k * n) (tag d e f p) = Inr (tag a' b' c' p)"
proof (induction k arbitrary: d e f)
  case (Suc k)
  obtain a' b' c' where "iterate (step_once os fpu) n (tag d e f p) = Inr (tag a' b' c' p)"
    using iterate_tag [OF assms, of d e f] by auto
  with Suc [of a' b' c'] show ?case by (simp add: iterate_add)
qed auto

lemma iterate_Inl_le: "iterate f m s = Inl e \<Longrightarrow> m \<le> n \<Longrightarrow> iterate f n s = Inl e"
  using iterate_add [of f m "n - m" s] by simp

text \<open>
  C15: when a run comes back to a machine with the same registers, program counter, memory and
  history, \<^verbatim>\<open>step(0)\<close> never returns, although the counters differ from round to round.
\<close>

theorem lasso_runs_forever:
  assumes "iterate (step_once os fpu) k q = Inr p" "iterate (step_once os fpu) n p = Inr p'" "0 < n"
    and "cpu_state p' = cpu_state p" "mmu p' = mmu p" "history p' = history p"
  shows "cpu_step os fpu 0 q = None"
proof -
  have l: "iterate (step_once os fpu) n p = Inr (tag (c_insn p') (c_name p') (insn_count p') p)"
    using assms(2) tag_self [OF assms(4-6)] by simp
  have "\<exists>p''. iterate (step_once os fpu) m q = Inr p''" for m
  proof (rule ccontr)
    assume "\<nexists>p''. iterate (step_once os fpu) m q = Inr p''"
    then obtain s where "iterate (step_once os fpu) m q = Inl s"
      by (cases "iterate (step_once os fpu) m q") auto
    then have "iterate (step_once os fpu) (k + m * n) q = Inl s"
      by (rule iterate_Inl_le) (use assms(3) in \<open>simp add: trans_le_add2\<close>)
    moreover have "\<exists>p''. iterate (step_once os fpu) (m * n) p = Inr p''"
      using lasso_rounds [OF l, of m "c_insn p" "c_name p" "insn_count p"] tag_self [of p p] by auto
    ultimately show False using assms(1) by (auto simp: iterate_add)
  qed
  then have "run_forever os fpu q \<noteq> Some s" for s
    using run_forever_iterate [of os fpu q s] by (metis Inl_Inr_False)
  then have "run_forever os fpu q = None" by (meson not_None_eq)
  then show ?thesis by (simp add: cpu_step_def)
qed

lemma demo_self_jump:
  "\<exists>p'. iterate (step_once demo_os demo_fpu) 1 (demo_cpu [0x6f]) = Inr p'
     \<and> cpu_state p' = cpu_state (demo_cpu [0x6f]) \<and> mmu p' = mmu (demo_cpu [0x6f])
     \<and> history p' = history (demo_cpu [0x6f])"
proof -
  let ?p = "demo_cpu [0x6f]"
  have pc: "state_pc (cpu_state ?p) = 0x1000" by (simp add: demo_cpu_def)
  have "(''jal'', pat_jal, rv64_jal) \<in> set (insn_list demo_os demo_fpu)" by (simp add: insn_list_def)
  moreover have "holds_insn (mmu ?p) (state_pc (cpu_state ?p)) 0x6f"
    using demo_holds [of "[0x6f]"] pc by simp
  moreover have "matches pat_jal (scast (0x6f :: u32))" by (simp add: matches_def pat_jal_def)
  ultimately have "step_once demo_os demo_fpu ?p = (case rv64_jal (?p\<lparr>c_insn := 0x6f, c_name := ''jal'',
      insn_count := count_insn ''jal'' (insn_count ?p)\<rparr>) 0x6f 0x1000 of
       Inl s \<Rightarrow> Inl s | Inr (npc, p') \<Rightarrow> Inr (set_state_pc p' npc))"
    using step_once_known [of ?p "0x6f" "''jal''" pat_jal rv64_jal demo_os demo_fpu] pc by simp
  then show ?thesis
    by (simp add: rv64_jal_def set_pc_def jump_target_def uj_imm_def insn_x_def insn_xs_def imm_sign_def
        trying_def WRITE_RD_def WRITE_REG_def regfile_write_def insn_rd_def set_state_pc_def demo_cpu_def Let_def)
qed

theorem lasso_runs_forever_witness:
  "cpu_step demo_os demo_fpu 0 (demo_cpu [0x6f]) = None"
proof -
  obtain p' where p': "iterate (step_once demo_os demo_fpu) 1 (demo_cpu [0x6f]) = Inr p'"
    "cpu_state p' = cpu_state (demo_cpu [0x6f])" "mmu p' = mmu (demo_cpu [0x6f])"
    "history p' = history (demo_cpu [0x6f])"
    using demo_self_jump by blast
  show ?thesis
    by (rule lasso_runs_forever [OF _ p'(1) zero_less_one p'(2-4), of 0]) simp
qed

subsection \<open>Programs that exit\<close>

lemma step_exit:
  assumes "holds_insn (mmu p) (state_pc (cpu_state p)) 0x73" "READ_REG p 17 = 93"
  shows "\<exists>p' cs. step_once os fpu p = Inl (Exited 0 p') \<and> history p' = PrintCounts cs # history p"
proof -
  have "(''scall'', pat_scall, rv64_scall os) \<in> set (insn_list os fpu)" by (simp add: insn_list_def)
  moreover have "matches pat_scall (scast (0x73 :: u32))" by (simp add: matches_def pat_scall_def)
  moreover have "READ_REG (p\<lparr>c_insn := x, c_name := y, insn_count := z\<rparr>) 17 = 93" for x y z
    using assms(2) by (simp add: READ_REG_def)
  ultimately show ?thesis
    using assms(1) by (subst step_once_known [where w = "0x73" and name = "''scall''" and pat = pat_scall
          and f = "rv64_scall os"]) (auto simp: rv64_scall_def Let_def log_event_def)
qed

text \<open>
  C14: a program that, run by the abstract machine from the state the constructor sets up,
  comes to a system call instruction with 93 in register 17, makes the process end with
  status 0, and the listing of the counters is all that the simulator has done to the outside.
\<close>

theorem exit_reached:
  assumes "cpu_new os fpu raw past_first past_second path = Some (Booted p)" "wf_cpu raw"
    and "unat (state_pc (cpu_state p)) mod 4 = 0"
    and "(isa_step (forbid (mmu p)))\<^sup>*\<^sup>* (isa_of p) s"
    and "imem_holds (imem s) (ipc s) 0x73" "ireg s 17 = 93"
  shows "sim_main os fpu raw past_first past_second path = Some (Status 0)
    \<and> (\<exists>n p' cs. iterate (step_once os fpu) n p = Inl (Exited 0 p') \<and> history p' = [PrintCounts cs])"
proof -
  obtain elf m m' where "p = (WRITE_REG (set_state_pc (raw\<lparr>mmu := m, history := []\<rparr>) (entry m)) 2 SP_INIT)
       \<lparr>mmu := m', insn_count := initial_counts os fpu\<rparr>"
    using assms(1) by (rule cpu_new_Booted)
  with assms(2) have w: "wf_cpu p" "history p = []"
    by (simp_all add: wf_cpu_def WRITE_REG_def set_state_pc_def)
  have al: "aligned4 (state_pc (cpu_state p))" using assms(3) by (simp only: aligned4_unat)
  obtain n q where q: "iterate (step_once os fpu) n p = Inr q" "isa_of q = s" "same_rest p q"
    using isa_steps_simulated [OF assms(4) refl refl w(1) al, of os fpu] by blast
  have h: "history q = []" using q(3) w(2) by (simp add: same_rest_def)
  have "holds_insn (mmu q) (state_pc (cpu_state q)) 0x73" "READ_REG q 17 = 93"
    using assms(5,6) q(2) by (auto intro: imem_holds_insn)
  then obtain p' cs where p': "step_once os fpu q = Inl (Exited 0 p')" "history p' = PrintCounts cs # history q"
    using step_exit by blast
  have i: "iterate (step_once os fpu) (n + 1) p = Inl (Exited 0 p')"
    using q(1) p'(1) unfolding iterate_add by simp
  then have "run_forever os fpu p = Some (Exited 0 p')" by (rule iterate_run_forever)
  then have "sim_main os fpu raw past_first past_second path = Some (Status 0)"
    by (simp add: sim_main_def assms(1) cpu_step_def ending_of_def)
  moreover have "history p' = [PrintCounts cs]" using p'(2) h by simp
  ultimately show ?thesis using i by blast
qed

lemma imem_holdsI: "M a = Some (ucast w) \<Longrightarrow> M (a + 1) = Some (ucast (drop_bit 8 w)) \<Longrightarrow>
   M (a + 2) = Some (ucast (drop_bit 16 w)) \<Longrightarrow> M (a + 3) = Some (ucast (drop_bit 24 w)) \<Longrightarrow> imem_holds M a w"
  by (simp add: imem_holds_def eval_nat_numeral add.assoc)

lemma demo_booted:
  "\<exists>p. cpu_new demo_os demo_fpu (demo_cpu []) (\<lambda>_. 0) 0 (Some demo_file) = Some (Booted p)
     \<and> state_pc (cpu_state p) = 0x1000 \<and> READ_REG p 0 = 0
     \<and> imem_holds (mem (mmu p)) 0x1000 (encode (IType ADDI 17 0 93)) \<and> imem_holds (mem (mmu p)) 0x1004 0x73"
proof -
  obtain elf m p where m: "mmu_new (\<lambda>_. 0) 0 (Some demo_file) = Some (Inr (elf, m))"
    and p: "cpu_new demo_os demo_fpu (demo_cpu []) (\<lambda>_. 0) 0 (Some demo_file) = Some (Booted p)"
      "mmu p = write_loop 8 SP_INIT 0 m" "state_pc (cpu_state p) = 0x1000" "READ_REG p 0 = 0"
    using demo_boot by blast
  have b: "mem (mmu p) (0x1000 + of_nat i) = Some (demo_code ! i)" if i: "i < 8" for i
  proof -
    have "0x1000 + of_nat i \<notin> span SP_INIT 8"
      using less_8_cases [OF i] by (auto simp: span_def SP_INIT_def)
    then show ?thesis using demo_loaded [OF m i] by (simp add: p(2) write_loop_out)
  qed
  have "encode (IType ADDI 17 0 93) = 0x05d00893" by (simp add: enc_defs)
  then show ?thesis
    using p(1,3,4) b [of 0] b [of 1] b [of 2] b [of 3] b [of 4] b [of 5] b [of 6] b [of 7]
    by (intro exI [of _ p]) (simp add: imem_holdsI demo_code_def)
qed

theorem exit_reached_witness:
  "sim_main demo_os demo_fpu (demo_cpu []) (\<lambda>_. 0) 0 (Some demo_file) = Some (Status 0)"
proof -
  obtain p where p: "cpu_new demo_os demo_fpu (demo_cpu []) (\<lambda>_. 0) 0 (Some demo_file) = Some (Booted p)"
    "state_pc (cpu_state p) = 0x1000" "READ_REG p 0 = 0"
    "imem_holds (mem (mmu p)) 0x1000 (encode (IType ADDI 17 0 93))" "imem_holds (mem (mmu p)) 0x1004 0x73"
    using demo_booted by blast
  define t where "t = next_pc (set_ireg 17 93 (isa_of p))"
  have t: "ipc t = 0x1004" "ireg t 17 = 93" "imem t = mem (mmu p)"
    using p(2) by (simp_all add: t_def next_pc_def set_ireg_def)
  have "isa_step (forbid (mmu p)) (isa_of p) t"
  proof (rule isa_stepI [where i = "IType ADDI 17 0 93"])
    show "imem_holds (imem (isa_of p)) (ipc (isa_of p)) (encode (IType ADDI 17 0 93))"
      using p by simp
    show "exec (IType ADDI 17 0 93) (isa_of p) = Inr t" using p(3) by (simp add: t_def)
  qed (simp_all add: insn_ok_def store_fits_def)
  then have r: "(isa_step (forbid (mmu p)))\<^sup>*\<^sup>* (isa_of p) t" by (rule r_into_rtranclp)
  have w: "wf_cpu (demo_cpu [])" by (rule demo_wf)
  have "unat (state_pc (cpu_state p)) mod 4 = 0" by (simp add: p(2))
  from exit_reached [OF p(1) w this r] p(5) t show ?thesis by simp
qed

end
