(* ===== verification/Declared.thy ===== *)
theory Declared
  imports Run
begin

unbundle bit_operations_syntax

text \<open>
  The instructions that \<^verbatim>\<open>encoding.h\<close> declares and \<^verbatim>\<open>insn_list.h\<close> does not register: fences of the
  instruction stream, atomics, traps and control registers, most of the single-precision
  instructions, and the conversion \<^verbatim>\<open>fcvt.d.wu\<close>, whose handler in \<^verbatim>\<open>func.h\<close> no table entry names.
  Every word of theirs decodes to the illegal entry.
\<close>

subsection \<open>The declared encodings\<close>

definition pat_fence_i :: pattern where
  "pat_fence_i = (0x100f, 0x707f)"

definition pat_lr_w :: pattern where
  "pat_lr_w = (0x1000202f, 0xf9f0707f)"

definition pat_sc_w :: pattern where
  "pat_sc_w = (0x1800202f, 0xf800707f)"

definition pat_lr_d :: pattern where
  "pat_lr_d = (0x1000302f, 0xf9f0707f)"

definition pat_sc_d :: pattern where
  "pat_sc_d = (0x1800302f, 0xf800707f)"

definition pat_sbreak :: pattern where
  "pat_sbreak = (0x100073, 0xffffffff)"

definition pat_sret :: pattern where
  "pat_sret = (0x10000073, 0xffffffff)"

definition pat_sfence_vm :: pattern where
  "pat_sfence_vm = (0x10100073, 0xfff07fff)"

definition pat_wfi :: pattern where
  "pat_wfi = (0x10200073, 0xffffffff)"

definition pat_mrth :: pattern where
  "pat_mrth = (0x30600073, 0xffffffff)"

definition pat_mrts :: pattern where
  "pat_mrts = (0x30500073, 0xffffffff)"

definition pat_hrts :: pattern where
  "pat_hrts = (0x20500073, 0xffffffff)"

definition pat_csrrw :: pattern where
  "pat_csrrw = (0x1073, 0x707f)"

definition pat_csrrs :: pattern where
  "pat_csrrs = (0x2073, 0x707f)"

definition pat_csrrc :: pattern where
  "pat_csrrc = (0x3073, 0x707f)"

definition pat_csrrwi :: pattern where
  "pat_csrrwi = (0x5073, 0x707f)"

definition pat_csrrsi :: pattern where
  "pat_csrrsi = (0x6073, 0x707f)"

definition pat_csrrci :: pattern where
  "pat_csrrci = (0x7073, 0x707f)"

definition pat_fsgnj_s :: pattern where
  "pat_fsgnj_s = (0x20000053, 0xfe00707f)"

definition pat_fsgnjn_s :: pattern where
  "pat_fsgnjn_s = (0x20001053, 0xfe00707f)"

definition pat_fsgnjx_s :: pattern where
  "pat_fsgnjx_s = (0x20002053, 0xfe00707f)"

definition pat_fmin_s :: pattern where
  "pat_fmin_s = (0x28000053, 0xfe00707f)"

definition pat_fmax_s :: pattern where
  "pat_fmax_s = (0x28001053, 0xfe00707f)"

definition pat_fsqrt_s :: pattern where
  "pat_fsqrt_s = (0x58000053, 0xfff0007f)"

definition pat_fsgnjn_d :: pattern where
  "pat_fsgnjn_d = (0x22001053, 0xfe00707f)"

definition pat_fsgnjx_d :: pattern where
  "pat_fsgnjx_d = (0x22002053, 0xfe00707f)"

definition pat_fmin_d :: pattern where
  "pat_fmin_d = (0x2a000053, 0xfe00707f)"

definition pat_fmax_d :: pattern where
  "pat_fmax_d = (0x2a001053, 0xfe00707f)"

definition pat_fsqrt_d :: pattern where
  "pat_fsqrt_d = (0x5a000053, 0xfff0007f)"

definition pat_fle_s :: pattern where
  "pat_fle_s = (0xa0000053, 0xfe00707f)"

definition pat_flt_s :: pattern where
  "pat_flt_s = (0xa0001053, 0xfe00707f)"

definition pat_feq_s :: pattern where
  "pat_feq_s = (0xa0002053, 0xfe00707f)"

definition pat_fcvt_w_s :: pattern where
  "pat_fcvt_w_s = (0xc0000053, 0xfff0007f)"

definition pat_fcvt_wu_s :: pattern where
  "pat_fcvt_wu_s = (0xc0100053, 0xfff0007f)"

definition pat_fcvt_l_s :: pattern where
  "pat_fcvt_l_s = (0xc0200053, 0xfff0007f)"

definition pat_fcvt_lu_s :: pattern where
  "pat_fcvt_lu_s = (0xc0300053, 0xfff0007f)"

definition pat_fmv_x_s :: pattern where
  "pat_fmv_x_s = (0xe0000053, 0xfff0707f)"

definition pat_fclass_s :: pattern where
  "pat_fclass_s = (0xe0001053, 0xfff0707f)"

definition pat_fcvt_lu_d :: pattern where
  "pat_fcvt_lu_d = (0xc2300053, 0xfff0007f)"

definition pat_fclass_d :: pattern where
  "pat_fclass_d = (0xe2001053, 0xfff0707f)"

definition pat_fcvt_s_wu :: pattern where
  "pat_fcvt_s_wu = (0xd0100053, 0xfff0007f)"

definition pat_fcvt_s_lu :: pattern where
  "pat_fcvt_s_lu = (0xd0300053, 0xfff0007f)"

definition pat_fcvt_d_wu :: pattern where
  "pat_fcvt_d_wu = (0xd2100053, 0xfff0007f)"

definition pat_fcvt_d_lu :: pattern where
  "pat_fcvt_d_lu = (0xd2300053, 0xfff0007f)"

definition pat_fmadd_s :: pattern where
  "pat_fmadd_s = (0x43, 0x600007f)"

definition pat_fmsub_s :: pattern where
  "pat_fmsub_s = (0x47, 0x600007f)"

definition pat_fnmsub_s :: pattern where
  "pat_fnmsub_s = (0x4b, 0x600007f)"

definition pat_fnmadd_s :: pattern where
  "pat_fnmadd_s = (0x4f, 0x600007f)"

definition pat_fmsub_d :: pattern where
  "pat_fmsub_d = (0x2000047, 0x600007f)"

definition pat_fnmsub_d :: pattern where
  "pat_fnmsub_d = (0x200004b, 0x600007f)"

definition pat_fnmadd_d :: pattern where
  "pat_fnmadd_d = (0x200004f, 0x600007f)"

text \<open>The declarations of \<^verbatim>\<open>encoding.h\<close> in their order, and those that no table entry names.\<close>

definition declared :: "(string \<times> pattern) list" where
  "declared = [
     (''beq'', pat_beq), (''bne'', pat_bne), (''blt'', pat_blt), (''bge'', pat_bge),
     (''bltu'', pat_bltu), (''bgeu'', pat_bgeu), (''jalr'', pat_jalr), (''jal'', pat_jal),
     (''lui'', pat_lui), (''auipc'', pat_auipc), (''addi'', pat_addi), (''slli'', pat_slli),
     (''slti'', pat_slti), (''sltiu'', pat_sltiu), (''xori'', pat_xori), (''srli'', pat_srli),
     (''srai'', pat_srai), (''ori'', pat_ori), (''andi'', pat_andi), (''add'', pat_add),
     (''sub'', pat_sub), (''sll'', pat_sll), (''slt'', pat_slt), (''sltu'', pat_sltu),
     (''xor'', pat_xor), (''srl'', pat_srl), (''sra'', pat_sra), (''or'', pat_or),
     (''and'', pat_and), (''addiw'', pat_addiw), (''slliw'', pat_slliw), (''srliw'', pat_srliw),
     (''sraiw'', pat_sraiw), (''addw'', pat_addw), (''subw'', pat_subw), (''sllw'', pat_sllw),
     (''srlw'', pat_srlw), (''sraw'', pat_sraw), (''lb'', pat_lb), (''lh'', pat_lh),
     (''lw'', pat_lw), (''ld'', pat_ld), (''lbu'', pat_lbu), (''lhu'', pat_lhu),
     (''lwu'', pat_lwu), (''sb'', pat_sb), (''sh'', pat_sh), (''sw'', pat_sw), (''sd'', pat_sd),
     (''fence'', pat_fence), (''fence_i'', pat_fence_i), (''mul'', pat_mul),
     (''mulh'', pat_mulh), (''mulhsu'', pat_mulhsu), (''mulhu'', pat_mulhu), (''div'', pat_div),
     (''divu'', pat_divu), (''rem'', pat_rem), (''remu'', pat_remu), (''mulw'', pat_mulw),
     (''divw'', pat_divw), (''divuw'', pat_divuw), (''remw'', pat_remw), (''remuw'', pat_remuw),
     (''lr_w'', pat_lr_w), (''sc_w'', pat_sc_w), (''lr_d'', pat_lr_d), (''sc_d'', pat_sc_d),
     (''scall'', pat_scall), (''sbreak'', pat_sbreak), (''sret'', pat_sret),
     (''sfence_vm'', pat_sfence_vm), (''wfi'', pat_wfi), (''mrth'', pat_mrth),
     (''mrts'', pat_mrts), (''hrts'', pat_hrts), (''csrrw'', pat_csrrw), (''csrrs'', pat_csrrs),
     (''csrrc'', pat_csrrc), (''csrrwi'', pat_csrrwi), (''csrrsi'', pat_csrrsi),
     (''csrrci'', pat_csrrci), (''fadd_s'', pat_fadd_s), (''fsub_s'', pat_fsub_s),
     (''fmul_s'', pat_fmul_s), (''fdiv_s'', pat_fdiv_s), (''fsgnj_s'', pat_fsgnj_s),
     (''fsgnjn_s'', pat_fsgnjn_s), (''fsgnjx_s'', pat_fsgnjx_s), (''fmin_s'', pat_fmin_s),
     (''fmax_s'', pat_fmax_s), (''fsqrt_s'', pat_fsqrt_s), (''fadd_d'', pat_fadd_d),
     (''fsub_d'', pat_fsub_d), (''fmul_d'', pat_fmul_d), (''fdiv_d'', pat_fdiv_d),
     (''fsgnj_d'', pat_fsgnj_d), (''fsgnjn_d'', pat_fsgnjn_d), (''fsgnjx_d'', pat_fsgnjx_d),
     (''fmin_d'', pat_fmin_d), (''fmax_d'', pat_fmax_d), (''fcvt_s_d'', pat_fcvt_s_d),
     (''fcvt_d_s'', pat_fcvt_d_s), (''fsqrt_d'', pat_fsqrt_d), (''fle_s'', pat_fle_s),
     (''flt_s'', pat_flt_s), (''feq_s'', pat_feq_s), (''fle_d'', pat_fle_d),
     (''flt_d'', pat_flt_d), (''feq_d'', pat_feq_d), (''fcvt_w_s'', pat_fcvt_w_s),
     (''fcvt_wu_s'', pat_fcvt_wu_s), (''fcvt_l_s'', pat_fcvt_l_s),
     (''fcvt_lu_s'', pat_fcvt_lu_s), (''fmv_x_s'', pat_fmv_x_s), (''fclass_s'', pat_fclass_s),
     (''fcvt_w_d'', pat_fcvt_w_d), (''fcvt_wu_d'', pat_fcvt_wu_d), (''fcvt_l_d'', pat_fcvt_l_d),
     (''fcvt_lu_d'', pat_fcvt_lu_d), (''fmv_x_d'', pat_fmv_x_d), (''fclass_d'', pat_fclass_d),
     (''fcvt_s_w'', pat_fcvt_s_w), (''fcvt_s_wu'', pat_fcvt_s_wu), (''fcvt_s_l'', pat_fcvt_s_l),
     (''fcvt_s_lu'', pat_fcvt_s_lu), (''fmv_s_x'', pat_fmv_s_x), (''fcvt_d_w'', pat_fcvt_d_w),
     (''fcvt_d_wu'', pat_fcvt_d_wu), (''fcvt_d_l'', pat_fcvt_d_l),
     (''fcvt_d_lu'', pat_fcvt_d_lu), (''fmv_d_x'', pat_fmv_d_x), (''flw'', pat_flw),
     (''fld'', pat_fld), (''fsw'', pat_fsw), (''fsd'', pat_fsd), (''fmadd_s'', pat_fmadd_s),
     (''fmsub_s'', pat_fmsub_s), (''fnmsub_s'', pat_fnmsub_s), (''fnmadd_s'', pat_fnmadd_s),
     (''fmadd_d'', pat_fmadd_d), (''fmsub_d'', pat_fmsub_d), (''fnmsub_d'', pat_fnmsub_d),
     (''fnmadd_d'', pat_fnmadd_d)]"

definition unregistered :: "os_t \<Rightarrow> fpu_t \<Rightarrow> (string \<times> pattern) list" where
  "unregistered os fpu =
     filter (\<lambda>(name, pat). name \<notin> desc_name ` set (registered os fpu)) declared"

definition registered_names :: "string list" where
  "registered_names = [
     ''addi'', ''lw'', ''ld'', ''sw'', ''sd'', ''jal'', ''bne'', ''add'', ''addiw'', ''lui'',
     ''sub'', ''sll'', ''slt'', ''sltu'', ''xor'', ''srl'', ''sra'', ''or'', ''and'', ''slli'',
     ''slti'', ''sltiu'', ''xori'', ''srli'', ''srai'', ''ori'', ''andi'', ''beq'', ''blt'',
     ''bge'', ''bltu'', ''bgeu'', ''lb'', ''lh'', ''lbu'', ''lhu'', ''lwu'', ''sb'', ''sh'',
     ''jalr'', ''auipc'', ''addw'', ''subw'', ''sllw'', ''srlw'', ''sraw'', ''slliw'', ''srliw'',
     ''sraiw'', ''mul'', ''mulw'', ''mulh'', ''mulhu'', ''mulhsu'', ''div'', ''divu'', ''divw'',
     ''divuw'', ''rem'', ''remu'', ''remw'', ''remuw'', ''scall'', ''fence'', ''fld'', ''flw'',
     ''fsd'', ''fsw'', ''fmv_s_x'', ''fmul_d'', ''fdiv_d'', ''fmul_s'', ''fdiv_s'', ''fadd_d'',
     ''fsub_d'', ''fadd_s'', ''fsub_s'', ''fmv_x_d'', ''fmv_d_x'', ''fcvt_l_d'', ''fcvt_s_l'',
     ''fcvt_s_w'', ''fcvt_s_d'', ''fcvt_d_s'', ''fcvt_d_w'', ''fcvt_d_l'', ''fcvt_w_d'',
     ''fcvt_wu_d'', ''fsgnj_d'', ''feq_d'', ''fle_d'', ''flt_d'', ''fmadd_d'']"

lemma registered_names: "map desc_name (registered os fpu) = registered_names"
  by (simp add: registered_def insn_list_def registered_names_def)

lemma unregistered_list: "unregistered os fpu = [
     (''fence_i'', pat_fence_i), (''lr_w'', pat_lr_w), (''sc_w'', pat_sc_w),
     (''lr_d'', pat_lr_d), (''sc_d'', pat_sc_d), (''sbreak'', pat_sbreak), (''sret'', pat_sret),
     (''sfence_vm'', pat_sfence_vm), (''wfi'', pat_wfi), (''mrth'', pat_mrth),
     (''mrts'', pat_mrts), (''hrts'', pat_hrts), (''csrrw'', pat_csrrw), (''csrrs'', pat_csrrs),
     (''csrrc'', pat_csrrc), (''csrrwi'', pat_csrrwi), (''csrrsi'', pat_csrrsi),
     (''csrrci'', pat_csrrci), (''fsgnj_s'', pat_fsgnj_s), (''fsgnjn_s'', pat_fsgnjn_s),
     (''fsgnjx_s'', pat_fsgnjx_s), (''fmin_s'', pat_fmin_s), (''fmax_s'', pat_fmax_s),
     (''fsqrt_s'', pat_fsqrt_s), (''fsgnjn_d'', pat_fsgnjn_d), (''fsgnjx_d'', pat_fsgnjx_d),
     (''fmin_d'', pat_fmin_d), (''fmax_d'', pat_fmax_d), (''fsqrt_d'', pat_fsqrt_d),
     (''fle_s'', pat_fle_s), (''flt_s'', pat_flt_s), (''feq_s'', pat_feq_s),
     (''fcvt_w_s'', pat_fcvt_w_s), (''fcvt_wu_s'', pat_fcvt_wu_s), (''fcvt_l_s'', pat_fcvt_l_s),
     (''fcvt_lu_s'', pat_fcvt_lu_s), (''fmv_x_s'', pat_fmv_x_s), (''fclass_s'', pat_fclass_s),
     (''fcvt_lu_d'', pat_fcvt_lu_d), (''fclass_d'', pat_fclass_d),
     (''fcvt_s_wu'', pat_fcvt_s_wu), (''fcvt_s_lu'', pat_fcvt_s_lu),
     (''fcvt_d_wu'', pat_fcvt_d_wu), (''fcvt_d_lu'', pat_fcvt_d_lu), (''fmadd_s'', pat_fmadd_s),
     (''fmsub_s'', pat_fmsub_s), (''fnmsub_s'', pat_fnmsub_s), (''fnmadd_s'', pat_fnmadd_s),
     (''fmsub_d'', pat_fmsub_d), (''fnmsub_d'', pat_fnmsub_d), (''fnmadd_d'', pat_fnmadd_d)]"
proof -
  have "desc_name ` set (registered os fpu) = set registered_names"
    by (simp flip: set_map add: registered_names)
  then have "unregistered os fpu = filter (\<lambda>(name, pat). name \<notin> set registered_names) declared"
    by (simp add: unregistered_def)
  also have "\<dots> = [
     (''fence_i'', pat_fence_i), (''lr_w'', pat_lr_w), (''sc_w'', pat_sc_w),
     (''lr_d'', pat_lr_d), (''sc_d'', pat_sc_d), (''sbreak'', pat_sbreak), (''sret'', pat_sret),
     (''sfence_vm'', pat_sfence_vm), (''wfi'', pat_wfi), (''mrth'', pat_mrth),
     (''mrts'', pat_mrts), (''hrts'', pat_hrts), (''csrrw'', pat_csrrw), (''csrrs'', pat_csrrs),
     (''csrrc'', pat_csrrc), (''csrrwi'', pat_csrrwi), (''csrrsi'', pat_csrrsi),
     (''csrrci'', pat_csrrci), (''fsgnj_s'', pat_fsgnj_s), (''fsgnjn_s'', pat_fsgnjn_s),
     (''fsgnjx_s'', pat_fsgnjx_s), (''fmin_s'', pat_fmin_s), (''fmax_s'', pat_fmax_s),
     (''fsqrt_s'', pat_fsqrt_s), (''fsgnjn_d'', pat_fsgnjn_d), (''fsgnjx_d'', pat_fsgnjx_d),
     (''fmin_d'', pat_fmin_d), (''fmax_d'', pat_fmax_d), (''fsqrt_d'', pat_fsqrt_d),
     (''fle_s'', pat_fle_s), (''flt_s'', pat_flt_s), (''feq_s'', pat_feq_s),
     (''fcvt_w_s'', pat_fcvt_w_s), (''fcvt_wu_s'', pat_fcvt_wu_s), (''fcvt_l_s'', pat_fcvt_l_s),
     (''fcvt_lu_s'', pat_fcvt_lu_s), (''fmv_x_s'', pat_fmv_x_s), (''fclass_s'', pat_fclass_s),
     (''fcvt_lu_d'', pat_fcvt_lu_d), (''fclass_d'', pat_fclass_d),
     (''fcvt_s_wu'', pat_fcvt_s_wu), (''fcvt_s_lu'', pat_fcvt_s_lu),
     (''fcvt_d_wu'', pat_fcvt_d_wu), (''fcvt_d_lu'', pat_fcvt_d_lu), (''fmadd_s'', pat_fmadd_s),
     (''fmsub_s'', pat_fmsub_s), (''fnmsub_s'', pat_fnmsub_s), (''fnmadd_s'', pat_fnmadd_s),
     (''fmsub_d'', pat_fmsub_d), (''fnmsub_d'', pat_fnmsub_d), (''fnmadd_d'', pat_fnmadd_d)]"
    by code_simp
  finally show ?thesis .
qed

lemma registered_declared:
  "d \<in> set (registered os fpu) \<Longrightarrow> (desc_name d, desc_pat d) \<in> set declared"
proof -
  have "list_all (\<lambda>d. (desc_name d, desc_pat d) \<in> set declared) (registered os fpu)"
    by (simp add: registered_def insn_list_def declared_def)
  then show "d \<in> set (registered os fpu) \<Longrightarrow> (desc_name d, desc_pat d) \<in> set declared"
    by (simp add: list_all_iff)
qed

lemmas extra_pat_defs =
  pat_fence_i_def pat_lr_w_def pat_sc_w_def pat_lr_d_def pat_sc_d_def pat_sbreak_def
  pat_sret_def pat_sfence_vm_def pat_wfi_def pat_mrth_def pat_mrts_def pat_hrts_def
  pat_csrrw_def pat_csrrs_def pat_csrrc_def pat_csrrwi_def pat_csrrsi_def pat_csrrci_def
  pat_fsgnj_s_def pat_fsgnjn_s_def pat_fsgnjx_s_def pat_fmin_s_def pat_fmax_s_def
  pat_fsqrt_s_def pat_fsgnjn_d_def pat_fsgnjx_d_def pat_fmin_d_def pat_fmax_d_def
  pat_fsqrt_d_def pat_fle_s_def pat_flt_s_def pat_feq_s_def pat_fcvt_w_s_def pat_fcvt_wu_s_def
  pat_fcvt_l_s_def pat_fcvt_lu_s_def pat_fmv_x_s_def pat_fclass_s_def pat_fcvt_lu_d_def
  pat_fclass_d_def pat_fcvt_s_wu_def pat_fcvt_s_lu_def pat_fcvt_d_wu_def pat_fcvt_d_lu_def
  pat_fmadd_s_def pat_fmsub_s_def pat_fnmsub_s_def pat_fnmadd_s_def pat_fmsub_d_def
  pat_fnmsub_d_def pat_fnmadd_d_def

subsection \<open>Declared and registered patterns exclude each other\<close>

definition cross_clash :: "bool option list list \<Rightarrow> bool option list list \<Rightarrow> bool" where
  "cross_clash xs ys = list_all (\<lambda>x. list_all (clash x) ys) xs"

lemma declared_clash:
  "cross_clash (map (trits \<circ> snd) (unregistered os fpu)) (map trits patterns)"
  apply (simp add: unregistered_list patterns_def trits_def extra_pat_defs pat_defs upt_rec)
  apply code_simp
  done

lemma unregistered_excluded:
  assumes "(name, pat) \<in> set (unregistered os fpu)" "e \<in> set (registered os fpu)" "matches pat b"
  shows "\<not> matches (desc_pat e) b"
proof -
  have "desc_pat e \<in> set patterns"
    using assms(2) unfolding registered_patterns [of os fpu, symmetric] by simp
  with assms(1) have "clash (trits pat) (trits (desc_pat e))"
    using declared_clash by (fastforce simp: cross_clash_def list_all_iff)
  with assms(3) show ?thesis using clash_exclusive by blast
qed

text \<open>
  C40: a word of an instruction that \<^verbatim>\<open>encoding.h\<close> declares but \<^verbatim>\<open>insn_list.h\<close> does not register is
  an illegal instruction: it decodes to the last entry of the table, its program counter is
  printed, and execution goes on at address 0 with registers and memory unchanged. This
  includes \<^verbatim>\<open>fcvt.d.wu\<close>, which has a handler, and the traps, fences and control registers. The
  registered instructions all have the pattern declared for their name.
\<close>

theorem unregistered_illegal:
  assumes "(name, pat) \<in> set (unregistered os fpu)" "matches pat (scast w)"
    and "holds_insn (mmu p) (state_pc (cpu_state p)) w"
  shows "decode_insn os fpu (scast w) = Some illegal_desc
    \<and> (\<exists>p'. step_once os fpu p = Inr p' \<and> cpu_state p' = (cpu_state p)\<lparr>state_pc := 0\<rparr> \<and> mmu p' = mmu p
         \<and> history p' = PrintIllegal (state_pc (cpu_state p)) # history p)
    \<and> (\<forall>d \<in> set (registered os fpu). (desc_name d, desc_pat d) \<in> set declared)"
proof -
  have none: "\<forall>e \<in> set (registered os fpu). \<not> matches (desc_pat e) (scast w)"
    using unregistered_excluded [OF assms(1) _ assms(2)] by blast
  then have "find (\<lambda>d. matches (desc_pat d) (scast w)) (registered os fpu) = None"
    by (simp add: find_None_iff)
  then have "decode_insn os fpu (scast w) = Some illegal_desc" by (simp add: decode_insn_find)
  moreover have "step_once os fpu p = Inr (set_state_pc (fetch_decode illegal_desc (scast w) p) 0)"
    using assms(3) none by (rule step_illegal)
  ultimately show ?thesis
    using registered_declared [of _ os fpu]
    by (simp add: set_state_pc_def fetch_decode_def illegal_desc_def log_event_def)
qed

text \<open>The word is \<^verbatim>\<open>fcvt.d.wu f1, x10\<close>.\<close>

theorem unregistered_illegal_witness:
  "\<exists>p'. step_once demo_os demo_fpu (demo_cpu [0xd21500d3]) = Inr p' \<and> state_pc (cpu_state p') = 0
     \<and> history p' = [PrintIllegal 0x1000]"
proof -
  have "(''fcvt_d_wu'', pat_fcvt_d_wu) \<in> set (unregistered demo_os demo_fpu)" by (simp add: unregistered_list)
  moreover have "matches pat_fcvt_d_wu (scast (0xd21500d3 :: u32))"
    by (simp add: matches_def pat_fcvt_d_wu_def)
  moreover have "holds_insn (mmu (demo_cpu [0xd21500d3])) (state_pc (cpu_state (demo_cpu [0xd21500d3]))) 0xd21500d3"
    using demo_holds [of "[0xd21500d3]"] by (simp add: demo_cpu_def)
  ultimately show ?thesis
    using unregistered_illegal [of "''fcvt_d_wu''" pat_fcvt_d_wu demo_os demo_fpu "0xd21500d3" "demo_cpu [0xd21500d3]"]
    by (auto simp: demo_cpu_def)
qed

end
