(* ===== verification/Ieee.thy ===== *)
theory Ieee
  imports Machine Complex_Main
begin

unbundle bit_operations_syntax

text \<open>
  The arithmetic of C++'s \<^verbatim>\<open>double\<close> and \<^verbatim>\<open>float\<close> on a host that follows IEEE 754 with its default
  rounding, as an executable instance \<open>ieee\<close> of the parameter \<open>fpu_t\<close>: a bit pattern is a sign
  and a code, a number is counted in units of the smallest one, and every result is the exact
  one, a fraction of natural numbers, rounded by \<open>round_code\<close>. The lemma \<open>round_code_nearest\<close> says
  that this gives the nearest number; the locale \<open>nearest_op\<close> is the contract of an operation
  that rounds, interpreted for the four operations of both formats.
\<close>

subsection \<open>Division rounded to the nearest integer, ties to even\<close>

definition rne_div :: "nat \<Rightarrow> nat \<Rightarrow> nat" where
  "rne_div n m = (let k = n div m; r = n mod m
     in if 2 * r < m \<or> 2 * r = m \<and> even k then k else k + 1)"

lemma real_div_mod: "0 < m \<Longrightarrow> real n / real m = real (n div m) + real (n mod m) / real m" for m n :: nat
proof -
  assume "0 < m"
  have "real n = real (m * (n div m) + n mod m)" by simp
  with \<open>0 < m\<close> show ?thesis by (simp only: of_nat_add of_nat_mult) (simp add: field_simps)
qed

lemma rne_div_nearest:
  assumes "0 < m"
  shows "\<bar>real (rne_div n m) - n / m\<bar> \<le> \<bar>real j - n / m\<bar>"
    and "\<bar>real j - n / m\<bar> = \<bar>real (rne_div n m) - n / m\<bar> \<Longrightarrow> j \<noteq> rne_div n m \<Longrightarrow> even (rne_div n m)"
proof -
  define k where "k = n div m"
  define r where "r = n mod m"
  define f where "f = real r / m"
  have x: "n / m = real k + f" unfolding k_def f_def r_def using assms by (rule real_div_mod)
  have "r < m" using assms by (simp add: r_def)
  then have f: "0 \<le> f" "f < 1" by (simp_all add: f_def)
  have "2 * r < m \<longleftrightarrow> 2 * real r < real m" "2 * r = m \<longleftrightarrow> 2 * real r = real m"
    by (simp_all flip: of_nat_less_iff [where 'a = real] of_nat_eq_iff [where 'a = real])
  then have h: "2 * r < m \<longleftrightarrow> f < 1/2" "2 * r = m \<longleftrightarrow> f = 1/2"
    using assms by (simp_all add: f_def divide_less_eq divide_eq_eq mult.commute)
  have "j \<le> k \<or> Suc k \<le> j" by auto
  then have "real j \<le> real k \<or> real (Suc k) \<le> real j" by (simp only: of_nat_le_iff)
  then have j: "real j \<le> real k \<or> real k + 1 \<le> real j" by (simp only: of_nat_Suc add.commute)
  have t: "rne_div n m = (if f < 1/2 \<or> f = 1/2 \<and> even k then k else k + 1)"
    by (simp add: rne_div_def Let_def h flip: k_def r_def)
  show "\<bar>real (rne_div n m) - n / m\<bar> \<le> \<bar>real j - n / m\<bar>"
    using f j unfolding x t by (auto split: if_splits)
  show "even (rne_div n m)"
    if "\<bar>real j - n / m\<bar> = \<bar>real (rne_div n m) - n / m\<bar>" "j \<noteq> rne_div n m"
  proof (cases "f = 1/2")
    case True
    then show ?thesis using t by (auto split: if_splits)
  next
    case False
    with that f j show ?thesis unfolding x t by (auto split: if_splits)
  qed
qed

lemma rne_div_exact [simp]: "0 < m \<Longrightarrow> rne_div (k * m) m = k"
  by (simp add: rne_div_def)

lemma rne_div_bounds: "0 < m \<Longrightarrow> n \<le> b * m \<Longrightarrow> rne_div n m \<le> b" "0 < m \<Longrightarrow> b * m \<le> n \<Longrightarrow> b \<le> rne_div n m"
proof -
  assume m: "0 < m"
  have x: "n = n div m * m + n mod m" by simp
  show "b \<le> rne_div n m" if "b * m \<le> n"
  proof -
    have "b \<le> n div m" using that m by (simp add: less_eq_div_iff_mult_less_eq)
    then show ?thesis by (simp add: rne_div_def Let_def)
  qed
  show "rne_div n m \<le> b" if "n \<le> b * m"
  proof (cases "n = b * m")
    case True
    with m show ?thesis by simp
  next
    case False
    with that have "n < b * m" by simp
    then have "n div m < b" by (simp add: div_less_iff_less_mult m)
    then show ?thesis by (simp add: rne_div_def Let_def)
  qed
qed

subsection \<open>Binary formats\<close>

fun nbits :: "nat \<Rightarrow> nat" where
  "nbits n = (if n = 0 then 0 else Suc (nbits (n div 2)))"

declare nbits.simps [simp del]

lemma nbits_upper: "n < 2 ^ nbits n"
proof (induction n rule: nbits.induct)
  case (1 n)
  then show ?case by (subst nbits.simps) auto
qed

lemma nbits_lower: "0 < n \<Longrightarrow> 2 ^ nbits n \<le> 2 * n"
proof (induction n rule: nbits.induct)
  case (1 n)
  show ?case
  proof (cases "n div 2 = 0")
    case True
    with 1 show ?thesis by (subst nbits.simps, subst nbits.simps) auto
  next
    case False
    with 1 have "2 ^ nbits (n div 2) \<le> 2 * (n div 2)" by simp
    with 1 show ?thesis by (subst nbits.simps) simp
  qed
qed

lemma nbits_le: "n < 2 ^ k \<Longrightarrow> nbits n \<le> k"
proof (cases "n = 0")
  case False
  assume "n < 2 ^ k"
  with False nbits_lower [of n] have "2 ^ nbits n < (2 :: nat) ^ Suc k" by simp
  then have "nbits n < Suc k" by (rule power_less_imp_less_exp [rotated]) simp
  then show ?thesis by simp
qed (simp add: nbits.simps)

record fmt =
  mbits :: nat
  ebits :: nat

definition b64 :: fmt where
  "b64 = \<lparr>mbits = 52, ebits = 11\<rparr>"

definition b32 :: fmt where
  "b32 = \<lparr>mbits = 23, ebits = 8\<rparr>"

text \<open>
  A number is counted in units of the smallest positive one, 2 to the power of minus \<open>bias\<close>. The
  code of a number is its bit pattern without the sign; the code of infinity follows on that of
  the greatest number, and the units of that code are one step more.
\<close>

definition bias :: "fmt \<Rightarrow> nat" where
  "bias F = 2 ^ (ebits F - 1) - 2 + mbits F"

definition inf_code :: "fmt \<Rightarrow> nat" where
  "inf_code F = 2 ^ (mbits F + ebits F) - 2 ^ mbits F"

definition units :: "fmt \<Rightarrow> nat \<Rightarrow> nat" where
  "units F c = (let q = c div 2 ^ mbits F; t = c mod 2 ^ mbits F
     in if q = 0 then t else (2 ^ mbits F + t) * 2 ^ (q - 1))"

definition round_code :: "fmt \<Rightarrow> nat \<Rightarrow> nat \<Rightarrow> nat" where
  "round_code F n d = (let s = nbits (n div d) - Suc (mbits F)
     in min (s * 2 ^ mbits F + rne_div n (d * 2 ^ s)) (inf_code F))"

lemma units_grid:
  assumes "t \<le> 2 ^ Suc (mbits F)" "s = 0 \<or> 2 ^ mbits F \<le> t"
  shows "units F (s * 2 ^ mbits F + t) = t * 2 ^ s"
proof -
  let ?M = "2 ^ mbits F :: nat"
  have M: "0 < ?M" by simp
  consider "t < ?M" | r where "t = ?M + r" "r < ?M" | "t = 2 * ?M"
    using assms(1) by (metis le_neq_implies_less le_Suc_ex add_less_cancel_left mult_2 not_less power_Suc)
  then show ?thesis
  proof cases
    case 1
    with assms show ?thesis by (simp add: units_def)
  next
    case 2
    then have "s * ?M + t = r + Suc s * ?M" by simp
    then have "(s * ?M + t) div ?M = Suc s" "(s * ?M + t) mod ?M = r"
      using 2 M by (simp_all only: div_mult_self1 mod_mult_self1) simp_all
    with 2 show ?thesis by (simp add: units_def)
  next
    case 3
    then have "s * ?M + t = 0 + (s + 2) * ?M" by simp
    then have "(s * ?M + t) div ?M = s + 2" "(s * ?M + t) mod ?M = 0"
      using M by (simp_all only: div_mult_self1 mod_mult_self1) simp_all
    with 3 show ?thesis by (simp add: units_def)
  qed
qed

lemma units_split: obtains t s where "units F c = t * 2 ^ s" "c = s * 2 ^ mbits F + t"
    "t < 2 ^ Suc (mbits F)" "s = 0 \<or> 2 ^ mbits F \<le> t"
proof -
  let ?M = "2 ^ mbits F :: nat"
  define q where "q = c div ?M"
  have c: "c = q * ?M + c mod ?M" unfolding q_def by (rule div_mult_mod_eq [symmetric])
  have t: "c mod ?M < ?M" by simp
  show thesis
  proof (cases q)
    case 0
    with c t show thesis by (intro that [of "c mod ?M" 0]) (simp_all add: units_def flip: q_def)
  next
    case (Suc s)
    with c t show thesis
      by (intro that [of "?M + c mod ?M" s]) (simp_all add: units_def algebra_simps flip: q_def)
  qed
qed

lemma units_Suc: "units F c < units F (Suc c)"
proof -
  obtain t s where ts: "units F c = t * 2 ^ s" "c = s * 2 ^ mbits F + t"
    "t < 2 ^ Suc (mbits F)" "s = 0 \<or> 2 ^ mbits F \<le> t" by (rule units_split)
  then have "units F (s * 2 ^ mbits F + Suc t) = Suc t * 2 ^ s" by (intro units_grid) auto
  with ts show ?thesis by simp
qed

lemma units_mono: "units F c < units F c' \<longleftrightarrow> c < c'" "units F c \<le> units F c' \<longleftrightarrow> c \<le> c'"
  "units F c = units F c' \<longleftrightarrow> c = c'"
proof -
  have "strict_mono (units F)" by (simp add: strict_mono_Suc_iff units_Suc)
  then show "units F c < units F c' \<longleftrightarrow> c < c'" "units F c \<le> units F c' \<longleftrightarrow> c \<le> c'"
    "units F c = units F c' \<longleftrightarrow> c = c'"
    by (simp_all add: strict_mono_less strict_mono_less_eq strict_mono_eq)
qed

lemma units_zero [simp]: "units F 0 = 0"
  by (simp add: units_def)

subsection \<open>Rounding\<close>

text \<open>Before the range is limited: the result is the nearest of all codes, ties going to an even one.\<close>

definition far_code :: "fmt \<Rightarrow> nat \<Rightarrow> nat \<Rightarrow> nat" where
  "far_code F n d = (let s = nbits (n div d) - Suc (mbits F)
     in s * 2 ^ mbits F + rne_div n (d * 2 ^ s))"

lemma round_code_far: "round_code F n d = min (far_code F n d) (inf_code F)"
  by (simp add: round_code_def far_code_def Let_def)

lemma far_code_form:
  assumes "0 < d"
  obtains s where "far_code F n d = s * 2 ^ mbits F + rne_div n (d * 2 ^ s)"
    "units F (far_code F n d) = rne_div n (d * 2 ^ s) * 2 ^ s"
    "s = 0 \<or> 2 ^ mbits F * 2 ^ s * d \<le> n" "n < 2 ^ Suc (mbits F) * 2 ^ s * d"
    "\<And>e. n < 2 ^ Suc (mbits F) * 2 ^ e * d \<Longrightarrow> s \<le> e"
proof -
  define s where "s = nbits (n div d) - Suc (mbits F)"
  have c: "far_code F n d = s * 2 ^ mbits F + rne_div n (d * 2 ^ s)"
    by (simp add: far_code_def Let_def s_def)
  have lo: "2 ^ mbits F * 2 ^ s * d \<le> n" if "s \<noteq> 0"
  proof -
    have e: "nbits (n div d) = Suc (mbits F + s)" using that by (simp add: s_def)
    then have "n div d \<noteq> 0" by (metis nat.distinct(1) nbits.simps)
    then have "2 ^ (mbits F + s) \<le> n div d" using nbits_lower [of "n div d"] e by simp
    then show ?thesis using assms by (simp add: less_eq_div_iff_mult_less_eq power_add)
  qed
  have "nbits (n div d) \<le> Suc (mbits F) + s" by (simp add: s_def)
  then have "(2 :: nat) ^ nbits (n div d) \<le> 2 ^ (Suc (mbits F) + s)" by (rule power_increasing) simp
  with nbits_upper [of "n div d"] have "n div d < 2 ^ (Suc (mbits F) + s)" by (rule order_less_le_trans)
  then have hi: "n < 2 ^ Suc (mbits F) * 2 ^ s * d"
    using assms by (simp only: div_less_iff_less_mult power_add)
  have "rne_div n (d * 2 ^ s) \<le> 2 ^ Suc (mbits F)"
    using assms hi by (intro rne_div_bounds) (simp_all add: ac_simps)
  moreover have "s = 0 \<or> 2 ^ mbits F \<le> rne_div n (d * 2 ^ s)"
    using assms lo by (cases "s = 0") (auto intro!: rne_div_bounds simp: ac_simps)
  ultimately have u: "units F (far_code F n d) = rne_div n (d * 2 ^ s) * 2 ^ s"
    unfolding c by (rule units_grid)
  have least: "s \<le> e" if "n < 2 ^ Suc (mbits F) * 2 ^ e * d" for e
  proof -
    have "n div d < 2 ^ (Suc (mbits F) + e)"
      using that assms by (simp only: div_less_iff_less_mult power_add)
    then have "nbits (n div d) \<le> Suc (mbits F) + e" by (rule nbits_le)
    then show ?thesis by (simp add: s_def)
  qed
  show thesis using c u lo hi least by (intro that) auto
qed

lemma far_code_nearest:
  assumes "0 < d"
  shows "\<bar>real (units F (far_code F n d)) - n / d\<bar> \<le> \<bar>real (units F y) - n / d\<bar>"
    and "\<bar>real (units F y) - n / d\<bar> = \<bar>real (units F (far_code F n d)) - n / d\<bar> \<Longrightarrow>
      y \<noteq> far_code F n d \<Longrightarrow> 0 < mbits F \<Longrightarrow> even (far_code F n d)"
proof -
  obtain s where s: "far_code F n d = s * 2 ^ mbits F + rne_div n (d * 2 ^ s)"
    "units F (far_code F n d) = rne_div n (d * 2 ^ s) * 2 ^ s"
    "s = 0 \<or> 2 ^ mbits F * 2 ^ s * d \<le> n"
    using far_code_form [OF assms, of F n] by metis
  define r where "r = rne_div n (d * 2 ^ s)"
  have m: "0 < d * 2 ^ s" using assms by simp
  have x: "real n / real (d * 2 ^ s) * 2 ^ s = n / d" by simp
  have scale: "\<bar>real (j * 2 ^ s) - n / d\<bar> = \<bar>real j - n / real (d * 2 ^ s)\<bar> * 2 ^ s" for j
  proof -
    have "real (j * 2 ^ s) - n / d = (real j - n / real (d * 2 ^ s)) * 2 ^ s"
      unfolding left_diff_distrib x by simp
    then show ?thesis by (simp add: abs_mult)
  qed
  have on: "\<bar>real (r * 2 ^ s) - n / d\<bar> \<le> \<bar>real (j * 2 ^ s) - n / d\<bar>" for j
    using rne_div_nearest(1) [OF m, of n j] unfolding scale r_def by (intro mult_right_mono) simp_all
  have on_tie: "even r" if "\<bar>real (j * 2 ^ s) - n / d\<bar> = \<bar>real (r * 2 ^ s) - n / d\<bar>" "j \<noteq> r" for j
    using rne_div_nearest(2) [OF m, of j n] that unfolding scale r_def by simp
  obtain t q where y: "units F y = t * 2 ^ q" "t < 2 ^ Suc (mbits F)"
    by (rule units_split [of F y])
  have below: "\<bar>real (r * 2 ^ s) - n / d\<bar> < \<bar>real (units F y) - n / d\<bar>" if "\<not> s \<le> q"
  proof -
    have "Suc q \<le> s" using that by simp
    then have "(2 :: nat) ^ Suc q \<le> 2 ^ s" by (rule power_increasing) simp
    then have "2 ^ mbits F * (2 :: nat) ^ Suc q \<le> 2 ^ mbits F * 2 ^ s" by simp
    moreover have "units F y < 2 ^ mbits F * 2 ^ Suc q" using y by simp
    ultimately have "units F y < 2 ^ mbits F * 2 ^ s" by (rule order_less_le_trans [rotated])
    then have u: "real (units F y) < real (2 ^ mbits F * 2 ^ s)" by (simp only: of_nat_less_iff)
    have "2 ^ mbits F * 2 ^ s * d \<le> n" using s(3) that by auto
    then have "real (2 ^ mbits F * 2 ^ s) * real d \<le> real n" by (simp only: of_nat_le_iff flip: of_nat_mult)
    then have "real (2 ^ mbits F * 2 ^ s) \<le> n / d" using assms by (simp only: pos_le_divide_eq of_nat_0_less_iff)
    with on [of "2 ^ mbits F"] u show ?thesis by linarith
  qed
  have above: "units F y = t * 2 ^ (q - s) * 2 ^ s" if "s \<le> q"
    using that y(1) by (simp flip: power_add)
  show "\<bar>real (units F (far_code F n d)) - n / d\<bar> \<le> \<bar>real (units F y) - n / d\<bar>"
    using below on [of "t * 2 ^ (q - s)"] above unfolding s(2) r_def [symmetric]
    by (cases "s \<le> q") simp_all
  show "even (far_code F n d)"
    if tie: "\<bar>real (units F y) - n / d\<bar> = \<bar>real (units F (far_code F n d)) - n / d\<bar>"
      and ne: "y \<noteq> far_code F n d" and mb: "0 < mbits F"
  proof -
    have "s \<le> q" using below tie s(2) by (auto simp: r_def)
    note a = above [OF this]
    have "t * 2 ^ (q - s) \<noteq> r"
      using ne a s(2) by (metis r_def units_mono(3))
    then have "even r" using tie a s(2) by (intro on_tie [of "t * 2 ^ (q - s)"]) (simp_all add: r_def)
    with s(1) mb show ?thesis by (simp add: r_def)
  qed
qed

lemma round_code_nearest:
  assumes "0 < d" "y \<le> inf_code F"
  shows "\<bar>real (units F (round_code F n d)) - n / d\<bar> \<le> \<bar>real (units F y) - n / d\<bar>"
    and "\<bar>real (units F y) - n / d\<bar> = \<bar>real (units F (round_code F n d)) - n / d\<bar> \<Longrightarrow>
      y \<noteq> round_code F n d \<Longrightarrow> 0 < mbits F \<Longrightarrow> even (round_code F n d)"
proof -
  let ?c = "far_code F n d" and ?i = "inf_code F"
  note near = far_code_nearest [OF assms(1), where F = F and n = n]
  consider (far) "round_code F n d = ?c" | (inf) "round_code F n d = ?i" "?i < ?c"
    by (cases "?c \<le> ?i") (simp_all add: round_code_far)
  then have "\<bar>real (units F (round_code F n d)) - n / d\<bar> \<le> \<bar>real (units F y) - n / d\<bar>
    \<and> (\<bar>real (units F y) - n / d\<bar> = \<bar>real (units F (round_code F n d)) - n / d\<bar> \<longrightarrow>
      y \<noteq> round_code F n d \<longrightarrow> 0 < mbits F \<longrightarrow> even (round_code F n d))"
  proof cases
    case far
    with near [where y = y] show ?thesis by simp
  next
    case inf
    have "real (units F y) \<le> real (units F ?i)" using assms(2) by (simp add: units_mono)
    moreover have "real (units F ?i) < real (units F ?c)" using inf by (simp add: units_mono)
    ultimately have "real (units F ?i) \<le> n / d" using near(1) [where y = ?i] by linarith
    moreover have "real (units F y) < real (units F ?i)" if "y \<noteq> ?i" using that assms(2) by (simp add: units_mono)
    ultimately show ?thesis using inf \<open>real (units F y) \<le> real (units F ?i)\<close> by fastforce
  qed
  then show "\<bar>real (units F (round_code F n d)) - n / d\<bar> \<le> \<bar>real (units F y) - n / d\<bar>"
    "\<bar>real (units F y) - n / d\<bar> = \<bar>real (units F (round_code F n d)) - n / d\<bar> \<Longrightarrow>
      y \<noteq> round_code F n d \<Longrightarrow> 0 < mbits F \<Longrightarrow> even (round_code F n d)" by blast+
qed

text \<open>A number with few enough significant bits is its own rounding.\<close>

lemma round_code_exact:
  assumes "0 < d" "n = k * 2 ^ e * d" "k < 2 ^ Suc (mbits F)" "k * 2 ^ e < units F (inf_code F)"
  shows "units F (round_code F n d) = k * 2 ^ e"
proof -
  obtain s where s: "units F (far_code F n d) = rne_div n (d * 2 ^ s) * 2 ^ s"
    "\<And>e. n < 2 ^ Suc (mbits F) * 2 ^ e * d \<Longrightarrow> s \<le> e"
    using far_code_form [OF assms(1), of F n] by metis
  have "s \<le> e" using assms(1-3) by (intro s(2)) (simp only: mult_less_mono1 zero_less_power zero_less_numeral nat_0_less_mult_iff mult_strict_right_mono)
  then have e: "(2 :: nat) ^ e = 2 ^ (e - s) * 2 ^ s" by (simp flip: power_add)
  have "n = (k * 2 ^ (e - s)) * (d * 2 ^ s)" unfolding assms(2) e by simp
  then have "rne_div n (d * 2 ^ s) = k * 2 ^ (e - s)" using assms(1) by (simp only: rne_div_exact) simp
  with s(1) e have u: "units F (far_code F n d) = k * 2 ^ e" by simp
  with assms(4) have "units F (far_code F n d) < units F (inf_code F)" by simp
  then have "far_code F n d < inf_code F" by (simp only: units_mono)
  with u show ?thesis by (simp add: round_code_far)
qed

subsection \<open>Bit patterns\<close>

definition fp_sign :: "'a::len word \<Rightarrow> bool" where
  "fp_sign w \<longleftrightarrow> 2 ^ (LENGTH('a) - 1) \<le> unat w"

definition fp_code :: "'a::len word \<Rightarrow> nat" where
  "fp_code w = unat w mod 2 ^ (LENGTH('a) - 1)"

definition pack :: "bool \<Rightarrow> nat \<Rightarrow> 'a::len word" where
  "pack s c = of_nat ((if s then 2 ^ (LENGTH('a) - 1) else 0) + c)"

definition fits :: "fmt \<Rightarrow> 'a::len itself \<Rightarrow> bool" where
  "fits F T \<longleftrightarrow> LENGTH('a) = Suc (mbits F + ebits F) \<and> 0 < mbits F \<and> Suc (mbits F) < 2 ^ (ebits F - 1)"

lemma fits_b64 [simp]: "fits b64 TYPE(64)"
  by (simp add: fits_def b64_def)

lemma fits_b32 [simp]: "fits b32 TYPE(32)"
  by (simp add: fits_def b32_def)

lemma unat_pack:
  assumes "c < 2 ^ (LENGTH('a::len) - 1)"
  shows "unat (pack s c :: 'a word) = (if s then 2 ^ (LENGTH('a) - 1) else 0) + c"
proof -
  obtain l where l: "LENGTH('a) = Suc l" by (metis len_gt_0 gr0_implies_Suc)
  then have "(if s then 2 ^ (LENGTH('a) - 1) else 0) + c < 2 ^ LENGTH('a)" using assms by simp
  then show ?thesis unfolding pack_def unat_of_nat by (rule mod_less)
qed

lemma pack_inverse [simp]:
  assumes "c < 2 ^ (LENGTH('a::len) - 1)"
  shows "fp_sign (pack s c :: 'a word) = s" "fp_code (pack s c :: 'a word) = c"
  using assms by (simp_all add: fp_sign_def fp_code_def unat_pack)

lemma code_lt: "fp_code (w :: 'a::len word) < 2 ^ (LENGTH('a) - 1)"
  by (simp add: fp_code_def)

lemma pack_eta: "pack (fp_sign w) (fp_code w) = w" for w :: "'a::len word"
proof -
  obtain l where l: "LENGTH('a) = Suc l" by (metis len_gt_0 gr0_implies_Suc)
  have "unat w < 2 * 2 ^ l" using unsigned_less [of w] l by simp
  then have "(if fp_sign w then 2 ^ (LENGTH('a) - 1) else 0) + fp_code w = unat w"
    using l by (auto simp: fp_sign_def fp_code_def mod_if le_mod_geq)
  then have "pack (fp_sign w) (fp_code w) = (of_nat (unat w) :: 'a word)" by (simp only: pack_def)
  then show ?thesis by simp
qed

definition is_nan :: "fmt \<Rightarrow> 'a::len word \<Rightarrow> bool" where
  "is_nan F w \<longleftrightarrow> inf_code F < fp_code w"

definition is_inf :: "fmt \<Rightarrow> 'a::len word \<Rightarrow> bool" where
  "is_inf F w \<longleftrightarrow> fp_code w = inf_code F"

definition finite_num :: "fmt \<Rightarrow> 'a::len word \<Rightarrow> bool" where
  "finite_num F w \<longleftrightarrow> fp_code w < inf_code F"

definition mag :: "fmt \<Rightarrow> 'a::len word \<Rightarrow> nat" where
  "mag F w = units F (fp_code w)"

definition key :: "fmt \<Rightarrow> 'a::len word \<Rightarrow> int" where
  "key F w = (if fp_sign w then - int (mag F w) else int (mag F w))"

definition val :: "fmt \<Rightarrow> 'a::len word \<Rightarrow> real" where
  "val F w = key F w / 2 ^ bias F"

lemma finite_iff: "finite_num F w \<longleftrightarrow> \<not> is_nan F w \<and> \<not> is_inf F w"
  by (auto simp: finite_num_def is_nan_def is_inf_def)

lemma inf_code_lt: "inf_code F < 2 ^ (mbits F + ebits F)"
  by (simp add: inf_code_def)

lemma val_mag: "val F w = (if fp_sign w then - 1 else 1) * real (mag F w) / 2 ^ bias F"
  by (simp add: val_def key_def)

definition sgn_of :: "bool \<Rightarrow> real" where
  "sgn_of s = (if s then - 1 else 1)"

text \<open>
  The specification of a rounded result: no number, infinity counting as the one after the
  greatest, is nearer to the exact value, and in a tie the result is even.
\<close>

definition is_nearest :: "fmt \<Rightarrow> 'a::len word \<Rightarrow> real \<Rightarrow> bool" where
  "is_nearest F w x \<longleftrightarrow> \<not> is_nan F w \<and> (\<forall>y :: 'a word. \<not> is_nan F y \<longrightarrow>
     \<bar>val F w - x\<bar> \<le> \<bar>val F y - x\<bar>
     \<and> (\<bar>val F y - x\<bar> = \<bar>val F w - x\<bar> \<and> val F y \<noteq> val F w \<longrightarrow> even (unat w)))"

lemma round_code_le: "round_code F n d \<le> inf_code F"
  by (simp add: round_code_far)

lemma round_pack:
  assumes "fits F TYPE('a::len)"
  shows "fp_sign (pack s (round_code F n d) :: 'a word) = s"
    "fp_code (pack s (round_code F n d) :: 'a word) = round_code F n d"
    "\<not> is_nan F (pack s (round_code F n d) :: 'a word)"
    "even (unat (pack s (round_code F n d) :: 'a word)) \<longleftrightarrow> even (round_code F n d)"
proof -
  have l: "LENGTH('a) - 1 = mbits F + ebits F" "0 < mbits F" using assms by (simp_all add: fits_def)
  have r: "round_code F n d < 2 ^ (LENGTH('a) - 1)"
    unfolding l using round_code_le inf_code_lt by (rule order_le_less_trans)
  then show "fp_sign (pack s (round_code F n d) :: 'a word) = s"
    "fp_code (pack s (round_code F n d) :: 'a word) = round_code F n d" by simp_all
  with round_code_le [of F n d] show "\<not> is_nan F (pack s (round_code F n d) :: 'a word)"
    by (simp add: is_nan_def)
  show "even (unat (pack s (round_code F n d) :: 'a word)) \<longleftrightarrow> even (round_code F n d)"
    using r l by (simp add: unat_pack)
qed

lemma abs_reverse: "0 \<le> x \<Longrightarrow> \<bar>\<bar>y\<bar> - x\<bar> \<le> \<bar>y - x\<bar>" for x y :: real
  by linarith

lemma pack_round_nearest:
  assumes "fits F TYPE('a::len)" "0 < d"
  shows "is_nearest F (pack s (round_code F n d) :: 'a word) (sgn_of s * (n / d) / 2 ^ bias F)"
proof -
  let ?w = "pack s (round_code F n d) :: 'a word" and ?B = "2 ^ bias F :: real"
  define x where "x = real n / real d"
  define r where "r = real (units F (round_code F n d))"
  define g where "g = sgn_of s"
  have g: "g = 1 \<or> g = - 1" by (simp add: g_def sgn_of_def)
  have x: "0 \<le> x" and r: "0 \<le> r" by (simp_all add: x_def r_def)
  have w: "val F ?w = g * r / ?B"
    by (simp add: val_mag mag_def round_pack [OF assms(1)] r_def g_def sgn_of_def)
  have dist: "\<bar>z / ?B - g * x / ?B\<bar> = \<bar>g * z - x\<bar> / ?B" for z
    using g by (auto simp: diff_divide_distrib [symmetric] abs_divide)
  have "\<bar>val F ?w - g * x / ?B\<bar> \<le> \<bar>val F y - g * x / ?B\<bar>
      \<and> (\<bar>val F y - g * x / ?B\<bar> = \<bar>val F ?w - g * x / ?B\<bar> \<and> val F y \<noteq> val F ?w \<longrightarrow> even (round_code F n d))"
    if y: "\<not> is_nan F y" for y :: "'a word"
  proof -
    define k where "k = real_of_int (key F y)"
    define u where "u = real (units F (fp_code y))"
    have yi: "fp_code y \<le> inf_code F" using y by (simp add: is_nan_def)
    have k: "val F y = k / ?B" "\<bar>k\<bar> = u" "0 \<le> u" by (simp_all add: val_def k_def u_def key_def mag_def)
    note near = round_code_nearest [OF assms(2) yi, of n, folded x_def r_def u_def]
    have gk: "\<bar>g * k\<bar> = u" using g k(2) by auto
    have u: "\<bar>r - x\<bar> \<le> \<bar>u - x\<bar>" "\<bar>u - x\<bar> \<le> \<bar>g * k - x\<bar>"
      using near(1) abs_reverse [OF x, of "g * k"] gk by simp_all
    have dw: "\<bar>val F ?w - g * x / ?B\<bar> = \<bar>r - x\<bar> / ?B"
      unfolding w dist using g by (auto simp: mult.assoc [symmetric])
    have dy: "\<bar>val F y - g * x / ?B\<bar> = \<bar>g * k - x\<bar> / ?B" unfolding k dist ..
    have "even (round_code F n d)" if "\<bar>g * k - x\<bar> = \<bar>r - x\<bar>" "val F y \<noteq> val F ?w"
    proof -
      have t: "\<bar>u - x\<bar> = \<bar>r - x\<bar>" using u that(1) by linarith
      have "fp_code y \<noteq> round_code F n d"
      proof
        assume "fp_code y = round_code F n d"
        then have "u = r" by (simp add: u_def r_def)
        moreover from this have "g * k = - r" using that(2) g gk k(1) w r by (auto simp: abs_if split: if_splits)
        ultimately have "x = 0 \<or> r = 0" using that(1) x r by (auto simp: abs_if split: if_splits)
        then have "r = 0" using near(1) [of] round_code_nearest(1) [OF assms(2), of 0 F n] x r by (auto simp: r_def x_def)
        then show False using that(2) w k \<open>g * k = - r\<close> g by auto
      qed
      then show ?thesis using near(2) t assms(1) by (simp add: fits_def)
    qed
    then show ?thesis unfolding dw dy using u by (auto simp: divide_right_mono)
  qed
  then show ?thesis
    unfolding is_nearest_def x_def [symmetric] g_def [symmetric]
    using round_pack [OF assms(1)] by blast
qed

subsection \<open>Operations\<close>

text \<open>In each operation \<open>nan\<close> is the NaN that the host returns for these operands.\<close>

definition fp_neg :: "'a::len word \<Rightarrow> 'a word" where
  "fp_neg a = pack (\<not> fp_sign a) (fp_code a)"

definition fp_add :: "fmt \<Rightarrow> 'a::len word \<Rightarrow> 'a word \<Rightarrow> 'a word \<Rightarrow> 'a word" where
  "fp_add F nan a b =
     (if is_nan F a \<or> is_nan F b \<or> is_inf F a \<and> is_inf F b \<and> fp_sign a \<noteq> fp_sign b then nan
      else if is_inf F a then a
      else if is_inf F b then b
      else let z = key F a + key F b
           in pack (if z = 0 then fp_sign a \<and> fp_sign b else z < 0) (round_code F (nat \<bar>z\<bar>) 1))"

definition fp_sub :: "fmt \<Rightarrow> 'a::len word \<Rightarrow> 'a word \<Rightarrow> 'a word \<Rightarrow> 'a word" where
  "fp_sub F nan a b = fp_add F nan a (fp_neg b)"

definition fp_mul :: "fmt \<Rightarrow> 'a::len word \<Rightarrow> 'a word \<Rightarrow> 'a word \<Rightarrow> 'a word" where
  "fp_mul F nan a b =
     (let s = (fp_sign a \<noteq> fp_sign b)
      in if is_nan F a \<or> is_nan F b \<or> is_inf F a \<and> mag F b = 0 \<or> is_inf F b \<and> mag F a = 0 then nan
         else if is_inf F a \<or> is_inf F b then pack s (inf_code F)
         else pack s (round_code F (mag F a * mag F b) (2 ^ bias F)))"

definition fp_div :: "fmt \<Rightarrow> 'a::len word \<Rightarrow> 'a word \<Rightarrow> 'a word \<Rightarrow> 'a word" where
  "fp_div F nan a b =
     (let s = (fp_sign a \<noteq> fp_sign b)
      in if is_nan F a \<or> is_nan F b \<or> is_inf F a \<and> is_inf F b \<or> mag F a = 0 \<and> mag F b = 0 then nan
         else if is_inf F a \<or> mag F b = 0 then pack s (inf_code F)
         else if is_inf F b then pack s 0
         else pack s (round_code F (mag F a * 2 ^ bias F) (mag F b)))"

text \<open>The fused operation rounds once.\<close>

definition fp_fma :: "fmt \<Rightarrow> 'a::len word \<Rightarrow> 'a word \<Rightarrow> 'a word \<Rightarrow> 'a word \<Rightarrow> 'a word" where
  "fp_fma F nan a b c =
     (let s = (fp_sign a \<noteq> fp_sign b); inf = (is_inf F a \<or> is_inf F b)
      in if is_nan F a \<or> is_nan F b \<or> is_nan F c
            \<or> is_inf F a \<and> mag F b = 0 \<or> is_inf F b \<and> mag F a = 0
            \<or> inf \<and> is_inf F c \<and> s \<noteq> fp_sign c then nan
         else if inf then pack s (inf_code F)
         else if is_inf F c then c
         else let z = key F a * key F b + key F c * 2 ^ bias F
              in pack (if z = 0 then s \<and> fp_sign c else z < 0) (round_code F (nat \<bar>z\<bar>) (2 ^ bias F)))"

definition fp_eq :: "fmt \<Rightarrow> 'a::len word \<Rightarrow> 'a word \<Rightarrow> bool" where
  "fp_eq F a b \<longleftrightarrow> \<not> is_nan F a \<and> \<not> is_nan F b \<and> key F a = key F b"

definition fp_le :: "fmt \<Rightarrow> 'a::len word \<Rightarrow> 'a word \<Rightarrow> bool" where
  "fp_le F a b \<longleftrightarrow> \<not> is_nan F a \<and> \<not> is_nan F b \<and> key F a \<le> key F b"

definition fp_lt :: "fmt \<Rightarrow> 'a::len word \<Rightarrow> 'a word \<Rightarrow> bool" where
  "fp_lt F a b \<longleftrightarrow> \<not> is_nan F a \<and> \<not> is_nan F b \<and> key F a < key F b"

text \<open>Rounding to an integer: \<open>up\<close> and \<open>down\<close> are the directions away from zero and towards it.\<close>

definition up_div :: "nat \<Rightarrow> nat \<Rightarrow> nat" where
  "up_div n m = (n + m - 1) div m"

definition fp_integral :: "fmt \<Rightarrow> 'a::len word \<Rightarrow> (bool \<Rightarrow> nat \<Rightarrow> nat \<Rightarrow> nat) \<Rightarrow> 'a word \<Rightarrow> 'a word" where
  "fp_integral F nan rnd a =
     (if is_nan F a then nan
      else if is_inf F a then a
      else pack (fp_sign a) (round_code F (rnd (fp_sign a) (mag F a) (2 ^ bias F) * 2 ^ bias F) 1))"

definition fp_of_int :: "fmt \<Rightarrow> int \<Rightarrow> 'a::len word" where
  "fp_of_int F z = pack (z < 0) (round_code F (nat \<bar>z\<bar> * 2 ^ bias F) 1)"

definition fp_to_int :: "fmt \<Rightarrow> 'a::len word \<Rightarrow> int option" where
  "fp_to_int F a =
     (if finite_num F a
      then Some ((if fp_sign a then - 1 else 1) * int (mag F a div 2 ^ bias F))
      else None)"

definition fp_convert :: "fmt \<Rightarrow> fmt \<Rightarrow> 'b::len word \<Rightarrow> 'a::len word \<Rightarrow> 'b word" where
  "fp_convert F G nan a =
     (if is_nan F a then nan
      else if is_inf F a then pack (fp_sign a) (inf_code G)
      else pack (fp_sign a) (round_code G (mag F a * 2 ^ bias G) (2 ^ bias F)))"

subsection \<open>The host's unit\<close>

text \<open>
  What the standard and the language leave to the platform: the NaN that an operation returns,
  the result of a conversion to an integer that does not fit, and whether a product and a sum
  in one expression are fused.
\<close>

record host_fpu =
  nan_64 :: "u64 list \<Rightarrow> u64"
  nan_32 :: "u32 list \<Rightarrow> u32"
  wide_nan :: "u32 \<Rightarrow> u64"
  narrow_nan :: "u64 \<Rightarrow> u32"
  out_i64 :: "u64 \<Rightarrow> u64"
  out_i32 :: "u64 \<Rightarrow> u32"
  out_u32 :: "u64 \<Rightarrow> u32"
  fuses :: bool

definition in_range :: "int \<Rightarrow> int \<Rightarrow> int option \<Rightarrow> 'a::len word \<Rightarrow> 'a word" where
  "in_range lo hi r out = (case r of None \<Rightarrow> out | Some z \<Rightarrow> if lo \<le> z \<and> z < hi then of_int z else out)"

definition ieee :: "host_fpu \<Rightarrow> fpu_t" where
  "ieee h = \<lparr>
     f64_add = \<lambda>a b. fp_add b64 (nan_64 h [a, b]) a b,
     f64_sub = \<lambda>a b. fp_sub b64 (nan_64 h [a, b]) a b,
     f64_mul = \<lambda>a b. fp_mul b64 (nan_64 h [a, b]) a b,
     f64_div = \<lambda>a b. fp_div b64 (nan_64 h [a, b]) a b,
     f64_muladd = \<lambda>a b c.
       if fuses h then fp_fma b64 (nan_64 h [a, b, c]) a b c
       else (let ab = fp_mul b64 (nan_64 h [a, b]) a b in fp_add b64 (nan_64 h [ab, c]) ab c),
     f64_eq = fp_eq b64,
     f64_le = fp_le b64,
     f64_lt = fp_lt b64,
     f64_rint = \<lambda>a. fp_integral b64 (nan_64 h [a]) (\<lambda>s. rne_div) a,
     f64_trunc = \<lambda>a. fp_integral b64 (nan_64 h [a]) (\<lambda>s. (div)) a,
     f64_floor = \<lambda>a. fp_integral b64 (nan_64 h [a]) (\<lambda>s. if s then up_div else (div)) a,
     f64_ceil = \<lambda>a. fp_integral b64 (nan_64 h [a]) (\<lambda>s. if s then (div) else up_div) a,
     f64_of_u64 = \<lambda>w. fp_of_int b64 (uint w),
     f64_of_i64 = \<lambda>w. fp_of_int b64 (sint w),
     f64_of_i32 = \<lambda>w. fp_of_int b64 (sint w),
     f64_to_i64 = \<lambda>a. in_range (- (2 ^ 63)) (2 ^ 63) (fp_to_int b64 a) (out_i64 h a),
     f64_to_i32 = \<lambda>a. in_range (- (2 ^ 31)) (2 ^ 31) (fp_to_int b64 a) (out_i32 h a),
     f64_to_u32 = \<lambda>a. in_range 0 (2 ^ 32) (fp_to_int b64 a) (out_u32 h a),
     f64_to_f32 = \<lambda>a. fp_convert b64 b32 (narrow_nan h a) a,
     f32_add = \<lambda>a b. fp_add b32 (nan_32 h [a, b]) a b,
     f32_sub = \<lambda>a b. fp_sub b32 (nan_32 h [a, b]) a b,
     f32_mul = \<lambda>a b. fp_mul b32 (nan_32 h [a, b]) a b,
     f32_div = \<lambda>a b. fp_div b32 (nan_32 h [a, b]) a b,
     f32_of_i64 = \<lambda>w. fp_of_int b32 (sint w),
     f32_of_i32 = \<lambda>w. fp_of_int b32 (sint w),
     f32_to_f64 = \<lambda>a. fp_convert b32 b64 (wide_nan h a) a\<rparr>"

subsection \<open>The operations round the exact result\<close>

lemma finite_simps:
  assumes "finite_num F a" shows "\<not> is_nan F a" "\<not> is_inf F a"
  using assms by (simp_all add: finite_iff)

lemma sgn_of_key: "real_of_int (key F a) = sgn_of (fp_sign a) * real (mag F a)"
  by (simp add: key_def sgn_of_def)

lemma sgn_of_int: "s = (z < 0) \<or> z = 0 \<Longrightarrow> sgn_of s * real (nat \<bar>z\<bar>) = real_of_int z"
  by (auto simp: sgn_of_def)

lemma sgn_of_neq: "sgn_of (s \<noteq> t) = sgn_of s * sgn_of t"
  by (simp add: sgn_of_def)

lemma fp_neg_simps:
  "fp_sign (fp_neg a) \<longleftrightarrow> \<not> fp_sign a" "fp_code (fp_neg a) = fp_code a"
  using code_lt [of a] by (simp_all add: fp_neg_def)

lemma fp_neg_val: "finite_num F (fp_neg a) \<longleftrightarrow> finite_num F a" "val F (fp_neg a) = - val F a"
  by (simp_all add: finite_num_def val_def key_def mag_def fp_neg_simps)

lemma is_nearestI:
  fixes w :: "'a::len word"
  assumes "fits F TYPE('a)" "0 < d" "w = pack s (round_code F n d)" "x = sgn_of s * (real n / real d) / 2 ^ bias F"
  shows "is_nearest F w x"
  unfolding assms(3,4) using assms(1,2) by (rule pack_round_nearest)

lemma fp_add_nearest:
  fixes a b :: "'a::len word"
  assumes "fits F TYPE('a)" "finite_num F a" "finite_num F b"
  shows "is_nearest F (fp_add F nan a b) (val F a + val F b)"
proof -
  define z where "z = key F a + key F b"
  define s where "s = (if z = 0 then fp_sign a \<and> fp_sign b else z < 0)"
  have "val F a + val F b = real_of_int z / 2 ^ bias F" by (simp add: val_def z_def add_divide_distrib)
  also have "real_of_int z = sgn_of s * (real (nat \<bar>z\<bar>) / real 1)"
    using sgn_of_int [of s z] by (auto simp: s_def)
  finally have v: "val F a + val F b = sgn_of s * (real (nat \<bar>z\<bar>) / real 1) / 2 ^ bias F" .
  have "fp_add F nan a b = pack s (round_code F (nat \<bar>z\<bar>) 1)"
    using assms(2,3) by (simp add: fp_add_def finite_simps Let_def s_def z_def)
  then show ?thesis by (rule is_nearestI [OF assms(1) _ _ v, rotated]) simp
qed

lemma fp_sub_nearest:
  fixes a b :: "'a::len word"
  assumes "fits F TYPE('a)" "finite_num F a" "finite_num F b"
  shows "is_nearest F (fp_sub F nan a b) (val F a - val F b)"
  using fp_add_nearest [of F a "fp_neg b" nan] assms by (simp add: fp_sub_def fp_neg_val)

lemma fp_mul_nearest:
  fixes a b :: "'a::len word"
  assumes "fits F TYPE('a)" "finite_num F a" "finite_num F b"
  shows "is_nearest F (fp_mul F nan a b) (val F a * val F b)"
proof -
  let ?s = "fp_sign a \<noteq> fp_sign b"
  have v: "val F a * val F b = sgn_of ?s * (real (mag F a * mag F b) / real (2 ^ bias F)) / 2 ^ bias F"
    unfolding val_def sgn_of_key sgn_of_neq by simp
  have "fp_mul F nan a b = pack ?s (round_code F (mag F a * mag F b) (2 ^ bias F))"
    using assms(2,3) by (simp add: fp_mul_def finite_simps Let_def)
  then show ?thesis by (rule is_nearestI [OF assms(1) _ _ v, rotated]) simp
qed

lemma fp_div_nearest:
  fixes a b :: "'a::len word"
  assumes "fits F TYPE('a)" "finite_num F a" "finite_num F b" "val F b \<noteq> 0"
  shows "is_nearest F (fp_div F nan a b) (val F a / val F b)"
proof -
  let ?s = "fp_sign a \<noteq> fp_sign b"
  have b: "0 < mag F b" using assms(4) by (auto simp: val_mag)
  have "sgn_of (fp_sign a) / sgn_of (fp_sign b) = sgn_of ?s" by (simp add: sgn_of_def)
  then have v: "val F a / val F b = sgn_of ?s * (real (mag F a * 2 ^ bias F) / real (mag F b)) / 2 ^ bias F"
    unfolding val_def sgn_of_key by (simp flip: times_divide_times_eq)
  have "fp_div F nan a b = pack ?s (round_code F (mag F a * 2 ^ bias F) (mag F b))"
    using assms(2,3) b by (simp add: fp_div_def finite_simps Let_def)
  then show ?thesis by (rule is_nearestI [OF assms(1) b _ v])
qed

lemma fp_fma_nearest:
  fixes a b c :: "'a::len word"
  assumes "fits F TYPE('a)" "finite_num F a" "finite_num F b" "finite_num F c"
  shows "is_nearest F (fp_fma F nan a b c) (val F a * val F b + val F c)"
proof -
  let ?B = "2 ^ bias F :: real"
  define z where "z = key F a * key F b + key F c * 2 ^ bias F"
  define s where "s = (if z = 0 then (fp_sign a \<noteq> fp_sign b) \<and> fp_sign c else z < 0)"
  have "real_of_int z = sgn_of s * real (nat \<bar>z\<bar>)" using sgn_of_int [of s z] by (auto simp: s_def)
  moreover have "val F a * val F b + val F c = real_of_int z / ?B / ?B"
    by (simp add: val_def z_def field_simps)
  ultimately have v: "val F a * val F b + val F c
      = sgn_of s * (real (nat \<bar>z\<bar>) / real (2 ^ bias F)) / ?B" by simp
  have "fp_fma F nan a b c = pack s (round_code F (nat \<bar>z\<bar>) (2 ^ bias F))"
    using assms(2-4) by (simp add: fp_fma_def finite_simps Let_def s_def z_def)
  then show ?thesis by (rule is_nearestI [OF assms(1) _ _ v, rotated]) simp
qed

lemma fp_of_int_nearest:
  assumes "fits F TYPE('a::len)"
  shows "is_nearest F (fp_of_int F z :: 'a word) (real_of_int z)"
proof -
  have v: "real_of_int z = sgn_of (z < 0) * (real (nat \<bar>z\<bar> * 2 ^ bias F) / real 1) / 2 ^ bias F"
    using sgn_of_int [of "z < 0" z] by simp
  show ?thesis by (rule is_nearestI [OF assms _ fp_of_int_def v]) simp
qed

lemma fp_convert_nearest:
  fixes a :: "'a::len word"
  assumes "fits G TYPE('b::len)" "finite_num F a"
  shows "is_nearest G (fp_convert F G nan a :: 'b word) (val F a)"
proof -
  have v: "val F a = sgn_of (fp_sign a) * (real (mag F a * 2 ^ bias G) / real (2 ^ bias F)) / 2 ^ bias G"
    unfolding val_def sgn_of_key by simp
  have "(fp_convert F G nan a :: 'b word) = pack (fp_sign a) (round_code G (mag F a * 2 ^ bias G) (2 ^ bias F))"
    using assms(2) by (simp add: fp_convert_def finite_simps)
  then show ?thesis by (rule is_nearestI [OF assms(1) _ _ v, rotated]) simp
qed

lemma compare_val:
  "fp_eq F a b \<longleftrightarrow> \<not> is_nan F a \<and> \<not> is_nan F b \<and> val F a = val F b"
  "fp_le F a b \<longleftrightarrow> \<not> is_nan F a \<and> \<not> is_nan F b \<and> val F a \<le> val F b"
  "fp_lt F a b \<longleftrightarrow> \<not> is_nan F a \<and> \<not> is_nan F b \<and> val F a < val F b"
  by (simp_all add: fp_eq_def fp_le_def fp_lt_def val_def divide_le_cancel divide_less_cancel)

subsection \<open>Exact conversions\<close>

lemma inf_units:
  assumes "fits F TYPE('a::len)"
  shows "units F (inf_code F) = 2 ^ mbits F * 2 ^ (2 ^ ebits F - 2)"
proof -
  have e: "4 \<le> (2 :: nat) ^ ebits F"
  proof -
    have "2 \<le> (2 :: nat) ^ (ebits F - 1)" using assms by (simp add: fits_def)
    then show ?thesis by (cases "ebits F") simp_all
  qed
  have "inf_code F = (2 ^ ebits F - 1) * 2 ^ mbits F"
    unfolding inf_code_def power_add diff_mult_distrib by (simp only: mult_1 mult.commute)
  also have "2 ^ ebits F - 1 = Suc (2 ^ ebits F - 2)" using e by simp
  finally have "inf_code F = (2 ^ ebits F - 2) * 2 ^ mbits F + 2 ^ mbits F" by simp
  then show ?thesis by (simp add: units_grid)
qed

lemma no_overflow:
  assumes "fits F TYPE('a::len)" "k < 2 ^ Suc (mbits F)"
  shows "k * 2 ^ bias F < units F (inf_code F)"
proof -
  obtain e where e: "ebits F = Suc e" using assms(1) by (cases "ebits F") (simp_all add: fits_def)
  then have m: "Suc (mbits F) < 2 ^ e" using assms(1) by (simp add: fits_def)
  have "Suc (mbits F) + bias F \<le> mbits F + (2 ^ ebits F - 2)" using e m by (simp add: bias_def)
  then have "(2 :: nat) ^ (Suc (mbits F) + bias F) \<le> 2 ^ (mbits F + (2 ^ ebits F - 2))"
    by (rule power_increasing) simp
  moreover have "k * 2 ^ bias F < 2 ^ (Suc (mbits F) + bias F)"
    unfolding power_add using assms(2) by (rule mult_strict_right_mono) simp
  ultimately show ?thesis
    unfolding inf_units [OF assms(1)] power_add [symmetric] by (rule order_less_le_trans [rotated])
qed

lemma fp_of_int_exact:
  fixes z :: int
  assumes "fits F TYPE('a::len)" "\<bar>z\<bar> < 2 ^ Suc (mbits F)"
  defines "w \<equiv> fp_of_int F z :: 'a word"
  shows "mag F w = nat \<bar>z\<bar> * 2 ^ bias F" "fp_sign w \<longleftrightarrow> z < 0" "finite_num F w" "val F w = real_of_int z"
proof -
  have k: "nat \<bar>z\<bar> < 2 ^ Suc (mbits F)" using assms(2) by (simp add: nat_less_iff)
  then show m: "mag F w = nat \<bar>z\<bar> * 2 ^ bias F"
    using round_code_exact [of 1 _ "nat \<bar>z\<bar>" "bias F" F] no_overflow [OF assms(1) k] assms(1)
    by (simp add: w_def fp_of_int_def mag_def round_pack)
  then show "finite_num F w"
    using no_overflow [OF assms(1) k] by (simp add: finite_num_def mag_def units_mono flip: m)
  show s: "fp_sign w \<longleftrightarrow> z < 0" using assms(1) by (simp add: w_def fp_of_int_def round_pack)
  show "val F w = real_of_int z" by (simp add: val_mag m s)
qed

lemma fp_to_int_of_int:
  "fits F TYPE('a::len) \<Longrightarrow> \<bar>z\<bar> < 2 ^ Suc (mbits F) \<Longrightarrow> fp_to_int F (fp_of_int F z :: 'a word) = Some z"
  by (simp add: fp_to_int_def fp_of_int_exact)

lemma fp_integral_of_int:
  assumes "fits F TYPE('a::len)" "\<bar>z\<bar> < 2 ^ Suc (mbits F)"
    and "\<And>s k m. 0 < m \<Longrightarrow> rnd s (k * m) m = k"
  shows "fp_integral F nan rnd (fp_of_int F z :: 'a word) = fp_of_int F z"
  using fp_of_int_exact [OF assms(1,2)] assms(3)
  by (simp add: fp_integral_def finite_simps) (simp add: fp_of_int_def)

lemma up_div_exact [simp]: "0 < m \<Longrightarrow> up_div (k * m) m = k"
proof -
  assume m: "0 < m"
  then have "k * m + m - 1 = (m - 1) + k * m" by simp
  then show ?thesis unfolding up_div_def using m by (simp only: div_mult_self1) simp
qed

definition towards_zero :: "real \<Rightarrow> int" where
  "towards_zero x = (if x < 0 then \<lceil>x\<rceil> else \<lfloor>x\<rfloor>)"

lemma fp_to_int_trunc:
  assumes "finite_num F a"
  shows "fp_to_int F a = Some (towards_zero (val F a))"
proof -
  let ?x = "real (mag F a) / real (2 ^ bias F)"
  have f: "int (mag F a div 2 ^ bias F) = \<lfloor>?x\<rfloor>" by (simp only: floor_divide_of_nat_eq)
  have v: "val F a = (if fp_sign a then - ?x else ?x)" by (simp add: val_mag)
  have x: "\<not> ?x < 0" by (simp add: not_less)
  show ?thesis
  proof (cases "fp_sign a \<and> ?x \<noteq> 0")
    case True
    with x have "val F a < 0" using v by (auto simp: not_less order_le_less simp del: of_nat_power)
    with True assms f v show ?thesis by (simp add: fp_to_int_def towards_zero_def ceiling_minus)
  next
    case False
    with v have "val F a = ?x" by auto
    moreover have "int (mag F a div 2 ^ bias F) = 0" if "?x = 0" using f that by simp
    ultimately show ?thesis using False assms f x by (auto simp: fp_to_int_def towards_zero_def simp del: of_nat_power)
  qed
qed

text \<open>Every \<^verbatim>\<open>float\<close> is a \<^verbatim>\<open>double\<close>.\<close>

lemma fp_widen:
  fixes a :: u32
  assumes "finite_num b32 a" and w: "w = (fp_convert b32 b64 nan a :: u64)"
  shows "mag b64 w = mag b32 a * 2 ^ 925" "fp_sign w = fp_sign a" "finite_num b64 w" "val b64 w = val b32 a"
proof -
  obtain t s where ts: "mag b32 a = t * 2 ^ s" "t < 2 ^ Suc (mbits b32)"
    unfolding mag_def by (rule units_split)
  have b: "bias b32 = 149" "bias b64 = 1074" by (simp_all add: bias_def b32_def b64_def)
  have p: "(2 :: nat) ^ 1074 = 2 ^ 925 * 2 ^ 149" by (simp only: flip: power_add) simp
  have "units b32 (fp_code a) < units b32 (inf_code b32)" using assms(1) by (simp add: units_mono finite_num_def)
  then have lt: "mag b32 a < 2 ^ 23 * 2 ^ 254"
    using inf_units [OF fits_b32] by (simp add: mag_def b32_def)
  have "(2 :: nat) ^ 23 * 2 ^ 254 * 2 ^ 925 \<le> 2 ^ 52 * 2 ^ 2046"
    unfolding power_add [symmetric] by (rule power_increasing) simp_all
  with lt have ov: "mag b32 a * 2 ^ 925 < units b64 (inf_code b64)"
    unfolding inf_units [OF fits_b64] by (simp add: b64_def)
  have m: "mag b32 a * 2 ^ 925 = t * 2 ^ (s + 925)" by (simp add: ts power_add)
  have "t < 2 ^ Suc (mbits b64)" using ts(2) by (simp add: b32_def b64_def)
  then have u: "units b64 (round_code b64 (mag b32 a * 2 ^ 1074) (2 ^ 149)) = mag b32 a * 2 ^ 925"
    unfolding m using ov by (intro round_code_exact) (simp_all add: ts p power_add m)
  have w': "w = pack (fp_sign a) (round_code b64 (mag b32 a * 2 ^ 1074) (2 ^ 149))"
    using assms(1) by (simp add: w fp_convert_def finite_simps b)
  show mw: "mag b64 w = mag b32 a * 2 ^ 925" "fp_sign w = fp_sign a"
    using u by (simp_all add: w' mag_def round_pack [OF fits_b64])
  show "finite_num b64 w"
    using ov unfolding mw(1) [symmetric] mag_def [where w = w] units_mono finite_num_def .
  show "val b64 w = val b32 a"
    unfolding val_mag mw b by (simp add: field_simps flip: power_add)
qed

lemma fp_narrow_widen:
  fixes a :: u32
  assumes "\<not> is_nan b32 a"
  shows "fp_convert b64 b32 nan' (fp_convert b32 b64 nan a :: u64) = a"
proof (cases "is_inf b32 a")
  case True
  have i: "inf_code b64 < 2 ^ (LENGTH(64) - 1)" by (simp add: inf_code_def b64_def)
  then have "fp_convert b32 b64 nan a = (pack (fp_sign a) (inf_code b64) :: u64)"
    using True assms by (simp add: fp_convert_def)
  moreover have "is_inf b64 (pack (fp_sign a) (inf_code b64) :: u64)"
    "\<not> is_nan b64 (pack (fp_sign a) (inf_code b64) :: u64)"
    "fp_sign (pack (fp_sign a) (inf_code b64) :: u64) = fp_sign a"
    using pack_inverse [OF i] by (simp_all add: is_inf_def is_nan_def)
  ultimately show ?thesis using True pack_eta [of a] by (simp add: fp_convert_def is_inf_def)
next
  case False
  then have fin: "finite_num b32 a" using assms by (simp add: finite_iff)
  let ?w = "fp_convert b32 b64 nan a :: u64"
  note w = fp_widen [OF fin refl, of nan]
  obtain t s where ts: "mag b32 a = t * 2 ^ s" "t < 2 ^ Suc (mbits b32)"
    unfolding mag_def by (rule units_split)
  have b: "bias b32 = 149" "bias b64 = 1074" by (simp_all add: bias_def b32_def b64_def)
  have p: "(2 :: nat) ^ 1074 = 2 ^ 925 * 2 ^ 149" by (simp only: flip: power_add) simp
  have lt: "t * 2 ^ s < units b32 (inf_code b32)"
    using fin by (simp add: units_mono finite_num_def mag_def flip: ts(1))
  have "mag b64 ?w * 2 ^ 149 = t * 2 ^ s * 2 ^ 1074" unfolding w p ts by (simp only: mult.assoc)
  from this ts(2) lt have "units b32 (round_code b32 (mag b64 ?w * 2 ^ 149) (2 ^ 1074)) = mag b32 a"
    unfolding ts(1) by (rule round_code_exact [rotated]) (rule zero_less_power, rule zero_less_numeral)
  then have c: "round_code b32 (mag b64 ?w * 2 ^ 149) (2 ^ 1074) = fp_code a"
    by (simp add: mag_def units_mono)
  have "fp_convert b64 b32 nan' ?w = pack (fp_sign a) (fp_code a)"
    by (subst fp_convert_def) (simp only: w(2) finite_simps [OF w(3)] b c if_False)
  then show ?thesis by (simp add: pack_eta)
qed

subsection \<open>The contract of a rounded operation\<close>

text \<open>
  An operation that returns the nearest number is exact whenever the exact result is a number,
  and never reverses an order.
\<close>

lemma is_nearestD:
  "is_nearest F w x \<Longrightarrow> \<not> is_nan F w"
  "is_nearest F w x \<Longrightarrow> \<not> is_nan F y \<Longrightarrow> \<bar>val F w - x\<bar> \<le> \<bar>val F y - x\<bar>"
  for w y :: "'a::len word"
  by (simp_all add: is_nearest_def)

locale nearest_op =
  fixes F :: fmt
    and op :: "'a::len word \<Rightarrow> 'a word \<Rightarrow> 'a word"
    and exact :: "real \<Rightarrow> real \<Rightarrow> real"
    and dom :: "'a word \<Rightarrow> 'a word \<Rightarrow> bool"
  assumes nearest: "dom a b \<Longrightarrow> is_nearest F (op a b) (exact (val F a) (val F b))"
begin

lemma exact_result:
  "dom a b \<Longrightarrow> \<not> is_nan F y \<Longrightarrow> val F y = exact (val F a) (val F b) \<Longrightarrow> val F (op a b) = val F y" for y :: "'a word"
  using is_nearestD(2) [OF nearest [of a b], of y] by simp

lemma order_kept:
  assumes "dom a b" "dom c d" "exact (val F a) (val F b) < exact (val F c) (val F d)"
  shows "val F (op a b) \<le> val F (op c d)"
proof -
  note n = nearest [OF assms(1)] nearest [OF assms(2)]
  show ?thesis
    using is_nearestD(2) [OF n(1) is_nearestD(1) [OF n(2)]] is_nearestD(2) [OF n(2) is_nearestD(1) [OF n(1)]]
      assms(3) by linarith
qed

end

abbreviation both_finite :: "fmt \<Rightarrow> 'a::len word \<Rightarrow> 'a word \<Rightarrow> bool" where
  "both_finite F a b \<equiv> finite_num F a \<and> finite_num F b"

interpretation add64: nearest_op b64 "f64_add (ieee h)" "(+)" "both_finite b64" for h
  by unfold_locales (simp add: ieee_def fp_add_nearest)

interpretation sub64: nearest_op b64 "f64_sub (ieee h)" "(-)" "both_finite b64" for h
  by unfold_locales (simp add: ieee_def fp_sub_nearest)

interpretation mul64: nearest_op b64 "f64_mul (ieee h)" "(*)" "both_finite b64" for h
  by unfold_locales (simp add: ieee_def fp_mul_nearest)

interpretation div64: nearest_op b64 "f64_div (ieee h)" "(/)" "\<lambda>a b. both_finite b64 a b \<and> val b64 b \<noteq> 0" for h
  by unfold_locales (simp add: ieee_def fp_div_nearest)

interpretation add32: nearest_op b32 "f32_add (ieee h)" "(+)" "both_finite b32" for h
  by unfold_locales (simp add: ieee_def fp_add_nearest)

interpretation sub32: nearest_op b32 "f32_sub (ieee h)" "(-)" "both_finite b32" for h
  by unfold_locales (simp add: ieee_def fp_sub_nearest)

interpretation mul32: nearest_op b32 "f32_mul (ieee h)" "(*)" "both_finite b32" for h
  by unfold_locales (simp add: ieee_def fp_mul_nearest)

interpretation div32: nearest_op b32 "f32_div (ieee h)" "(/)" "\<lambda>a b. both_finite b32 a b \<and> val b32 b \<noteq> 0" for h
  by unfold_locales (simp add: ieee_def fp_div_nearest)

end
