(* ===== verification/Floats.thy ===== *)
theory Floats
  imports Ieee Syscalls
begin

unbundle bit_operations_syntax

text \<open>
  The floating-point instructions of \<^verbatim>\<open>func.h\<close> on a host with IEEE arithmetic: they return the
  number nearest to the exact result, and what their conversions do.
\<close>

subsection \<open>The instructions\<close>

text \<open>
  C13: on a host with IEEE arithmetic the instructions of double precision write the number
  nearest to the exact sum, difference, product or quotient of their operands, ties going to
  an even result, \<open>fmadd.d\<close> rounds once or after each of its two operations; those of single
  precision do the same in the lower half of the registers; and the comparisons compare the
  values, any comparison with a NaN being false.
\<close>

theorem fp_arith_nearest:
  fixes a b c :: u64 and x y :: u32
  assumes a: "a = FRS1 p insn" "b = FRS2 p insn" "c = FRS3 p insn" "x = freg_f32 a" "y = freg_f32 b"
  shows "(both_finite b64 a b \<longrightarrow>
      (\<exists>r. rv64_fadd_d (ieee h) p insn pc = Inr (pc + 4, WRITE_FRD p insn r)
         \<and> is_nearest b64 r (val b64 a + val b64 b))
    \<and> (\<exists>r. rv64_fsub_d (ieee h) p insn pc = Inr (pc + 4, WRITE_FRD p insn r)
         \<and> is_nearest b64 r (val b64 a - val b64 b))
    \<and> (\<exists>r. rv64_fmul_d (ieee h) p insn pc = Inr (pc + 4, WRITE_FRD p insn r)
         \<and> is_nearest b64 r (val b64 a * val b64 b))
    \<and> (val b64 b \<noteq> 0 \<longrightarrow> (\<exists>r. rv64_fdiv_d (ieee h) p insn pc = Inr (pc + 4, WRITE_FRD p insn r)
         \<and> is_nearest b64 r (val b64 a / val b64 b)))
    \<and> (finite_num b64 c \<longrightarrow> (\<exists>r. rv64_fmadd_d (ieee h) p insn pc = Inr (pc + 4, WRITE_FRD p insn r)
         \<and> (fuses h \<longrightarrow> is_nearest b64 r (val b64 a * val b64 b + val b64 c))
         \<and> (\<not> fuses h \<longrightarrow> (\<exists>q :: u64. is_nearest b64 q (val b64 a * val b64 b)
               \<and> (finite_num b64 q \<longrightarrow> is_nearest b64 r (val b64 q + val b64 c)))))))
   \<and> (both_finite b32 x y \<longrightarrow>
      (\<exists>r. rv64_fadd_s (ieee h) p insn pc = Inr (pc + 4, WRITE_FRD p insn (f32_freg r))
         \<and> is_nearest b32 r (val b32 x + val b32 y))
    \<and> (\<exists>r. rv64_fsub_s (ieee h) p insn pc = Inr (pc + 4, WRITE_FRD p insn (f32_freg r))
         \<and> is_nearest b32 r (val b32 x - val b32 y))
    \<and> (\<exists>r. rv64_fmul_s (ieee h) p insn pc = Inr (pc + 4, WRITE_FRD p insn (f32_freg r))
         \<and> is_nearest b32 r (val b32 x * val b32 y))
    \<and> (val b32 y \<noteq> 0 \<longrightarrow> (\<exists>r. rv64_fdiv_s (ieee h) p insn pc = Inr (pc + 4, WRITE_FRD p insn (f32_freg r))
         \<and> is_nearest b32 r (val b32 x / val b32 y))))
   \<and> (let ok = (\<not> is_nan b64 a \<and> \<not> is_nan b64 b)
      in rv64_feq_d (ieee h) p insn pc = Inr (pc + 4, WRITE_RD p insn (of_bool (ok \<and> val b64 a = val b64 b)))
       \<and> rv64_fle_d (ieee h) p insn pc = Inr (pc + 4, WRITE_RD p insn (of_bool (ok \<and> val b64 a \<le> val b64 b)))
       \<and> rv64_flt_d (ieee h) p insn pc = Inr (pc + 4, WRITE_RD p insn (of_bool (ok \<and> val b64 a < val b64 b))))"
proof (intro conjI impI)
  note d = PC_INC_def sext_xlen_id Let_def a [symmetric]
  show "\<exists>r. rv64_fadd_d (ieee h) p insn pc = Inr (pc + 4, WRITE_FRD p insn r)
      \<and> is_nearest b64 r (val b64 a + val b64 b)" if "both_finite b64 a b"
    using add64.nearest [OF that] by (auto simp: rv64_fadd_d_def d)
  show "\<exists>r. rv64_fsub_d (ieee h) p insn pc = Inr (pc + 4, WRITE_FRD p insn r)
      \<and> is_nearest b64 r (val b64 a - val b64 b)" if "both_finite b64 a b"
    using sub64.nearest [OF that] by (auto simp: rv64_fsub_d_def d)
  show "\<exists>r. rv64_fmul_d (ieee h) p insn pc = Inr (pc + 4, WRITE_FRD p insn r)
      \<and> is_nearest b64 r (val b64 a * val b64 b)" if "both_finite b64 a b"
    using mul64.nearest [OF that] by (auto simp: rv64_fmul_d_def d)
  show "\<exists>r. rv64_fdiv_d (ieee h) p insn pc = Inr (pc + 4, WRITE_FRD p insn r)
      \<and> is_nearest b64 r (val b64 a / val b64 b)" if "both_finite b64 a b" "val b64 b \<noteq> 0"
    using div64.nearest [OF conjI [OF that]] by (auto simp: rv64_fdiv_d_def d)
  show "\<exists>r. rv64_fmadd_d (ieee h) p insn pc = Inr (pc + 4, WRITE_FRD p insn r)
      \<and> (fuses h \<longrightarrow> is_nearest b64 r (val b64 a * val b64 b + val b64 c))
      \<and> (\<not> fuses h \<longrightarrow> (\<exists>q :: u64. is_nearest b64 q (val b64 a * val b64 b)
            \<and> (finite_num b64 q \<longrightarrow> is_nearest b64 r (val b64 q + val b64 c))))"
    if f: "both_finite b64 a b" "finite_num b64 c"
  proof -
    let ?r = "f64_muladd (ieee h) a b c" and ?q = "fp_mul b64 (nan_64 h [a, b]) a b"
    have "rv64_fmadd_d (ieee h) p insn pc = Inr (pc + 4, WRITE_FRD p insn ?r)"
      by (simp add: rv64_fmadd_d_def d)
    moreover have "is_nearest b64 ?q (val b64 a * val b64 b)" using f by (simp add: fp_mul_nearest)
    moreover have "is_nearest b64 ?r (val b64 a * val b64 b + val b64 c)" if "fuses h"
      using f that by (simp add: ieee_def fp_fma_nearest)
    moreover have "is_nearest b64 ?r (val b64 ?q + val b64 c)" if "\<not> fuses h" "finite_num b64 ?q"
      using f that by (simp add: ieee_def Let_def fp_add_nearest)
    ultimately show ?thesis by blast
  qed
  show "\<exists>r. rv64_fadd_s (ieee h) p insn pc = Inr (pc + 4, WRITE_FRD p insn (f32_freg r))
      \<and> is_nearest b32 r (val b32 x + val b32 y)" if "both_finite b32 x y"
    using add32.nearest [OF that] by (auto simp: rv64_fadd_s_def d)
  show "\<exists>r. rv64_fsub_s (ieee h) p insn pc = Inr (pc + 4, WRITE_FRD p insn (f32_freg r))
      \<and> is_nearest b32 r (val b32 x - val b32 y)" if "both_finite b32 x y"
    using sub32.nearest [OF that] by (auto simp: rv64_fsub_s_def d)
  show "\<exists>r. rv64_fmul_s (ieee h) p insn pc = Inr (pc + 4, WRITE_FRD p insn (f32_freg r))
      \<and> is_nearest b32 r (val b32 x * val b32 y)" if "both_finite b32 x y"
    using mul32.nearest [OF that] by (auto simp: rv64_fmul_s_def d)
  show "\<exists>r. rv64_fdiv_s (ieee h) p insn pc = Inr (pc + 4, WRITE_FRD p insn (f32_freg r))
      \<and> is_nearest b32 r (val b32 x / val b32 y)" if "both_finite b32 x y" "val b32 y \<noteq> 0"
    using div32.nearest [OF conjI [OF that]] by (auto simp: rv64_fdiv_s_def d)
  show "let ok = (\<not> is_nan b64 a \<and> \<not> is_nan b64 b)
      in rv64_feq_d (ieee h) p insn pc = Inr (pc + 4, WRITE_RD p insn (of_bool (ok \<and> val b64 a = val b64 b)))
       \<and> rv64_fle_d (ieee h) p insn pc = Inr (pc + 4, WRITE_RD p insn (of_bool (ok \<and> val b64 a \<le> val b64 b)))
       \<and> rv64_flt_d (ieee h) p insn pc = Inr (pc + 4, WRITE_RD p insn (of_bool (ok \<and> val b64 a < val b64 b)))"
    by (simp add: rv64_feq_d_def rv64_fle_d_def rv64_flt_d_def d ieee_def compare_val conj_assoc)
qed

lemma in_range_Some: "lo \<le> z \<Longrightarrow> z < hi \<Longrightarrow> in_range lo hi (Some z) out = of_int z"
  by (simp add: in_range_def)

lemma word_small:
  "\<bar>sint w\<bar> < 2 ^ Suc (mbits b64)" "- (2 ^ 31) \<le> sint w" "sint w < 2 ^ 31" for w :: u32
proof -
  show "- (2 ^ 31) \<le> sint w" "sint w < 2 ^ 31"
    using sint_greater_eq [of w] sint_less [of w] by simp_all
  then show "\<bar>sint w\<bar> < 2 ^ Suc (mbits b64)" by (simp add: b64_def abs_less_iff)
qed

lemma word_of_int_32: "- (2 ^ 31) \<le> z \<Longrightarrow> z < 2 ^ 31 \<Longrightarrow> (scast (of_int z :: u32) :: u64) = of_int z"
  "0 \<le> z \<Longrightarrow> z < 2 ^ 32 \<Longrightarrow> (ucast (of_int z :: u32) :: u64) = of_int z"
proof -
  assume "- (2 ^ 31) \<le> z" "z < 2 ^ 31"
  then have "sint (of_int z :: u32) = z" by (simp add: signed_of_int signed_take_bit_int_eq_self)
  then show "(scast (of_int z :: u32) :: u64) = of_int z" by (metis scast_eq)
next
  assume "0 \<le> z" "z < 2 ^ 32"
  then have "uint (of_int z :: u32) = z" by (simp add: unsigned_of_int take_bit_int_eq_self)
  then show "(ucast (of_int z :: u32) :: u64) = of_int z" by (metis ucast_eq)
qed

lemma rounding_of_u64:
  assumes "x < 2 ^ 53"
  shows "d_Rounding (ieee h) (f64_of_u64 (ieee h) x) rm = f64_of_u64 (ieee h) x"
    "f64_to_i64 (ieee h) (f64_of_u64 (ieee h) x) = x"
proof -
  have x: "uint x < 2 ^ 53" using assms by (simp add: word_less_def)
  then have z: "\<bar>uint x\<bar> < 2 ^ Suc (mbits b64)" by (simp add: b64_def)
  note i = fp_integral_of_int [OF fits_b64 z]
  show "d_Rounding (ieee h) (f64_of_u64 (ieee h) x) rm = f64_of_u64 (ieee h) x"
    by (simp add: d_Rounding_def ieee_def i)
  have "- (2 ^ 63) \<le> uint x" by (rule order_trans [OF _ uint_ge_0]) simp
  moreover have "uint x < 2 ^ 63" using x by simp
  ultimately have "in_range (- (2 ^ 63)) (2 ^ 63) (Some (uint x)) out = x" for out
    by (simp only: in_range_Some) simp
  then show "f64_to_i64 (ieee h) (f64_of_u64 (ieee h) x) = x"
    using fp_to_int_of_int [OF fits_b64 z] by (simp add: ieee_def)
qed

text \<open>
  C20: \<open>fcvt.d.w\<close> is exact and \<open>fcvt.w.d\<close> gives back its operand; \<open>fcvt.w.d\<close> and \<open>fcvt.wu.d\<close>
  round a number that fits towards zero, the second without the sign extension that the
  instruction set asks for; the other conversions round to the nearest number, \<open>fcvt.d.s\<close> being
  exact and undone by \<open>fcvt.s.d\<close>. But \<open>fcvt.l.d\<close> does not convert: it copies the integer register
  with the number of its operand, when that register holds less than 2 to the power of 53.
\<close>

theorem fp_conversions:
  fixes w :: u32 and x :: u32
  assumes "w = ucast (RS1 p insn)" "x = freg_f32 (FRS1 p insn)" "z = towards_zero (val b64 (FRS1 p insn))"
  shows "(\<exists>r. rv64_fcvt_d_w (ieee h) p insn pc = Inr (pc + 4, WRITE_FRD p insn r) \<and> val b64 r = sint w
      \<and> (FRS1 q insn' = r \<longrightarrow>
           rv64_fcvt_w_d (ieee h) q insn' pc' = Inr (pc' + 4, WRITE_RD q insn' (sext32 (RS1 p insn)))))
   \<and> (finite_num b64 (FRS1 p insn) \<longrightarrow>
        (- (2 ^ 31) \<le> z \<and> z < 2 ^ 31 \<longrightarrow>
           rv64_fcvt_w_d (ieee h) p insn pc = Inr (pc + 4, WRITE_RD p insn (of_int z)))
      \<and> (0 \<le> z \<and> z < 2 ^ 32 \<longrightarrow>
           rv64_fcvt_wu_d (ieee h) p insn pc = Inr (pc + 4, WRITE_RD p insn (of_int z)))
      \<and> (\<exists>r. rv64_fcvt_s_d (ieee h) p insn pc = Inr (pc + 4, WRITE_FRD p insn (f32_freg r))
           \<and> is_nearest b32 r (val b64 (FRS1 p insn))))
   \<and> (\<exists>r. rv64_fcvt_d_l (ieee h) p insn pc = Inr (pc + 4, WRITE_FRD p insn r)
        \<and> is_nearest b64 r (sint (RS1 p insn)))
   \<and> (\<exists>r. rv64_fcvt_s_l (ieee h) p insn pc = Inr (pc + 4, WRITE_FRD p insn (f32_freg r))
        \<and> is_nearest b32 r (sint (RS1 p insn)))
   \<and> (\<exists>r. rv64_fcvt_s_w (ieee h) p insn pc = Inr (pc + 4, WRITE_FRD p insn (f32_freg r))
        \<and> is_nearest b32 r (sint w))
   \<and> (\<not> is_nan b32 x \<longrightarrow>
        (\<exists>r. rv64_fcvt_d_s (ieee h) p insn pc = Inr (pc + 4, WRITE_FRD p insn r)
           \<and> (finite_num b32 x \<longrightarrow> val b64 r = val b32 x)
           \<and> (FRS1 q insn' = r \<longrightarrow>
                rv64_fcvt_s_d (ieee h) q insn' pc' = Inr (pc' + 4, WRITE_FRD q insn' (f32_freg x)))))
   \<and> (RS1 p insn < 2 ^ 53 \<longrightarrow>
        rv64_fcvt_l_d (ieee h) p insn pc = Inr (pc + 4, WRITE_RD p insn (RS1 p insn)))"
proof (intro conjI impI)
  note d = PC_INC_def sext_xlen_id Let_def
  have "in_range (- (2 ^ 31)) (2 ^ 31) (Some (sint w)) out = w" for out
    using word_small [of w] by (simp only: in_range_Some) simp
  then have "f64_to_i32 (ieee h) (fp_of_int b64 (sint w)) = w"
    using fp_to_int_of_int [OF fits_b64 word_small(1), of w] by (simp add: ieee_def)
  moreover have "f64_of_i32 (ieee h) w = fp_of_int b64 (sint w)" by (simp add: ieee_def)
  ultimately show "\<exists>r. rv64_fcvt_d_w (ieee h) p insn pc = Inr (pc + 4, WRITE_FRD p insn r) \<and> val b64 r = sint w
      \<and> (FRS1 q insn' = r \<longrightarrow>
           rv64_fcvt_w_d (ieee h) q insn' pc' = Inr (pc' + 4, WRITE_RD q insn' (sext32 (RS1 p insn))))"
    using fp_of_int_exact(4) [OF fits_b64 word_small(1), of w]
    by (auto simp: rv64_fcvt_d_w_def rv64_fcvt_w_d_def d sext32_def assms(1))
  assume f: "finite_num b64 (FRS1 p insn)"
  note t = fp_to_int_trunc [OF f, folded assms(3)]
  show "rv64_fcvt_w_d (ieee h) p insn pc = Inr (pc + 4, WRITE_RD p insn (of_int z))" 
    if "- (2 ^ 31) \<le> z \<and> z < 2 ^ 31"
    using that by (simp add: rv64_fcvt_w_d_def d ieee_def t in_range_Some word_of_int_32)
  show "rv64_fcvt_wu_d (ieee h) p insn pc = Inr (pc + 4, WRITE_RD p insn (of_int z))" 
    if "0 \<le> z \<and> z < 2 ^ 32"
    using that by (simp add: rv64_fcvt_wu_d_def d ieee_def t in_range_Some word_of_int_32)
  show "\<exists>r. rv64_fcvt_s_d (ieee h) p insn pc = Inr (pc + 4, WRITE_FRD p insn (f32_freg r))
           \<and> is_nearest b32 r (val b64 (FRS1 p insn))" 
    using fp_convert_nearest [OF fits_b32 f, of "narrow_nan h (FRS1 p insn)"]
    by (auto simp: rv64_fcvt_s_d_def d ieee_def)
next
  note d = PC_INC_def sext_xlen_id Let_def
  show "\<exists>r. rv64_fcvt_d_l (ieee h) p insn pc = Inr (pc + 4, WRITE_FRD p insn r)
      \<and> is_nearest b64 r (sint (RS1 p insn))"
    using fp_of_int_nearest [OF fits_b64, of "sint (RS1 p insn)"] by (auto simp: rv64_fcvt_d_l_def d ieee_def)
  show "\<exists>r. rv64_fcvt_s_l (ieee h) p insn pc = Inr (pc + 4, WRITE_FRD p insn (f32_freg r))
      \<and> is_nearest b32 r (sint (RS1 p insn))"
    using fp_of_int_nearest [OF fits_b32, of "sint (RS1 p insn)"] by (auto simp: rv64_fcvt_s_l_def d ieee_def)
  show "\<exists>r. rv64_fcvt_s_w (ieee h) p insn pc = Inr (pc + 4, WRITE_FRD p insn (f32_freg r))
      \<and> is_nearest b32 r (sint w)"
    using fp_of_int_nearest [OF fits_b32, of "sint w"] by (auto simp: rv64_fcvt_s_w_def d ieee_def assms)
  show "\<exists>r. rv64_fcvt_d_s (ieee h) p insn pc = Inr (pc + 4, WRITE_FRD p insn r)
      \<and> (finite_num b32 x \<longrightarrow> val b64 r = val b32 x)
      \<and> (FRS1 q insn' = r \<longrightarrow>
           rv64_fcvt_s_d (ieee h) q insn' pc' = Inr (pc' + 4, WRITE_FRD q insn' (f32_freg x)))"
    if "\<not> is_nan b32 x"
    using fp_widen(4) [of x _ "wide_nan h x"] fp_narrow_widen [OF that]
    by (auto simp: rv64_fcvt_d_s_def rv64_fcvt_s_d_def d ieee_def assms(2) [symmetric])
  show "rv64_fcvt_l_d (ieee h) p insn pc = Inr (pc + 4, WRITE_RD p insn (RS1 p insn))" if "RS1 p insn < 2 ^ 53"
    using rounding_of_u64 [OF that] by (simp add: rv64_fcvt_l_d_def d)
qed

text \<open>A host that is asked for no NaN: the first instruction is \<^verbatim>\<open>fadd.d f1, f2, f3\<close>.\<close>

definition demo_host :: host_fpu where
  "demo_host = \<lparr>nan_64 = \<lambda>_. 0x7ff8000000000000, nan_32 = \<lambda>_. 0x7fc00000, wide_nan = \<lambda>_. 0x7ff8000000000000,
     narrow_nan = \<lambda>_. 0x7fc00000, out_i64 = \<lambda>_. 0x8000000000000000, out_i32 = \<lambda>_. 0x80000000,
     out_u32 = \<lambda>_. 0, fuses = False\<rparr>"

definition demo_fp :: cpu_t where
  "demo_fp = (demo_call 0 0 0 0)\<lparr>cpu_state := (cpu_state (demo_call 0 0 0 0))
     \<lparr>FPR := (replicate 32 0)[2 := 0x3ff8000000000000, 3 := 0x3fd0000000000000],
      XPR := (replicate 32 0)[2 := 7]\<rparr>\<rparr>"

lemma demo_fp_regs:
  "FRS1 demo_fp 0x023100d3 = 0x3ff8000000000000" "FRS2 demo_fp 0x023100d3 = 0x3fd0000000000000"
  "RS1 demo_fp 0x023100d3 = 7"
  by (simp_all add: demo_fp_def demo_call_def FRS1_def FRS2_def RS1_def READ_FREG_def READ_REG_def
      insn_rs1_def insn_rs2_def insn_x_def regfile_get_def)

lemma val_one_and_half: "val b64 (0x3ff8000000000000 :: u64) = 1.5" "finite_num b64 (0x3ff8000000000000 :: u64)"
  and val_quarter: "val b64 (0x3fd0000000000000 :: u64) = 0.25" "finite_num b64 (0x3fd0000000000000 :: u64)"
  and val_sum: "val b64 (0x3ffc000000000000 :: u64) = 1.75" "finite_num b64 (0x3ffc000000000000 :: u64)"
  by (simp_all add: val_def key_def mag_def fp_sign_def fp_code_def units_def finite_num_def
      inf_code_def bias_def b64_def Let_def)

theorem fp_arith_nearest_witness:
  "\<exists>r. rv64_fadd_d (ieee demo_host) demo_fp 0x023100d3 0x1000 = Inr (0x1004, WRITE_FRD demo_fp 0x023100d3 r)
     \<and> val b64 r = 1.75"
proof -
  obtain r where r: "rv64_fadd_d (ieee demo_host) demo_fp 0x023100d3 0x1000 = Inr (0x1000 + 4, WRITE_FRD demo_fp 0x023100d3 r)"
    "is_nearest b64 r (1.5 + 0.25)"
    using fp_arith_nearest [OF refl refl refl refl refl, of demo_fp "0x023100d3" demo_host "0x1000"]
      val_one_and_half val_quarter by (auto simp: demo_fp_regs)
  have "val b64 r = 1.75"
    using is_nearestD(2) [OF r(2) finite_simps(1) [OF val_sum(2)]] val_sum(1) by simp
  with r(1) show ?thesis by auto
qed

theorem fp_conversions_witness:
  "rv64_fcvt_w_d (ieee demo_host) demo_fp 0x023100d3 0x1000 = Inr (0x1004, WRITE_RD demo_fp 0x023100d3 1)
   \<and> rv64_fcvt_l_d (ieee demo_host) demo_fp 0x023100d3 0x1000 = Inr (0x1004, WRITE_RD demo_fp 0x023100d3 7)"
  using fp_conversions [OF refl refl refl, where p = demo_fp and insn = "0x023100d3" and h = demo_host and pc = "0x1000"]
    val_one_and_half by (simp add: demo_fp_regs towards_zero_def)

end
